(* ===== verification/Prelude.thy ===== *)
theory Prelude
  imports Main
begin

text \<open>
  Vocabulary shared by every component: the ways a C++ operation of the compositor can fail to
  return normally (\<open>fault\<close>), results as a sum of a fault and a value, sequencing of such
  results, the loop \<open>for (auto const& x : xs) body\<close> as \<open>for_each\<close>, and the contract every
  component proves once: from a well-formed state each admissible operation returns normally and
  keeps the state well formed.
\<close>

section \<open>Faults and results\<close>

text \<open>
  \<open>NullDeref\<close> is a call through a null \<open>shared_ptr\<close> (undefined behaviour in the source);
  \<open>ProcessReplaced\<close> is a successful \<open>exec\<close>, after which the calling program no longer runs;
  the others are the exceptions the source throws, with the text they carry.
\<close>

datatype fault =
    NullDeref
  | ProcessReplaced
  | SystemError string
  | RuntimeError string
  | LogicError string
  | AbnormalExit string
  | ExternalException

type_synonym 'a res = "fault + 'a"

fun bind_res :: "'a res \<Rightarrow> ('a \<Rightarrow> 'b res) \<Rightarrow> 'b res" where
  "bind_res (Inl e) f = Inl e"
| "bind_res (Inr x) f = f x"

lemma bind_res_eq_Inr [simp]: "bind_res r f = Inr y \<longleftrightarrow> (\<exists>x. r = Inr x \<and> f x = Inr y)"
  by (cases r) auto

lemma bind_res_eq_Inl: "bind_res r f = Inl e \<longleftrightarrow> r = Inl e \<or> (\<exists>x. r = Inr x \<and> f x = Inl e)"
  by (cases r) auto

lemma bind_res_assoc: "bind_res (bind_res r f) g = bind_res r (\<lambda>x. bind_res (f x) g)"
  by (cases r) auto

fun deref :: "'a option \<Rightarrow> 'a res" where
  "deref None = Inl NullDeref"
| "deref (Some x) = Inr x"

lemma deref_eq_Inr [simp]: "deref p = Inr x \<longleftrightarrow> p = Some x"
  by (cases p) auto

section \<open>Loops over a container\<close>

text \<open>
  The body may fault, which leaves the loop at once, as an exception does.
\<close>

fun for_each :: "('x \<Rightarrow> 's \<Rightarrow> 's res) \<Rightarrow> 'x list \<Rightarrow> 's \<Rightarrow> 's res" where
  "for_each body [] s = Inr s"
| "for_each body (x # xs) s = bind_res (body x s) (for_each body xs)"

lemma for_each_append:
  "for_each body (xs @ ys) s = bind_res (for_each body xs s) (for_each body ys)"
proof (induction xs arbitrary: s)
  case Nil
  then show ?case by simp
next
  case (Cons x xs)
  then show ?case by (cases "body x s") auto
qed

text \<open>A body that returns on every element it meets and has a simple description makes the
  loop a fold of that description.\<close>

lemma for_each_fold:
  assumes "\<And>x s. x \<in> set xs \<Longrightarrow> I s \<Longrightarrow> body x s = Inr (g x s) \<and> I (g x s)"
    and "I s"
  shows "for_each body xs s = Inr (fold g xs s) \<and> I (fold g xs s)"
  using assms by (induction xs arbitrary: s) auto

lemma for_each_inv:
  assumes "\<And>x s s'. x \<in> set xs \<Longrightarrow> I s \<Longrightarrow> body x s = Inr s' \<Longrightarrow> I s'"
    and "I s" and "for_each body xs s = Inr s'"
  shows "I s'"
  using assms
proof (induction xs arbitrary: s)
  case Nil
  then show ?case by simp
next
  case (Cons x xs)
  then obtain s1 where s1: "body x s = Inr s1" "for_each body xs s1 = Inr s'" by auto
  with Cons.prems(1)[of x s s1] Cons.prems(2) have "I s1" by simp
  with s1(2) show ?case using Cons.IH Cons.prems(1) by (meson list.set_intros(2))
qed

section \<open>Exceptions that keep the state\<close>

text \<open>
  Where the source catches an exception, what was done before the throw stays done: an outcome is a
  state and the fault in flight, if any. \<open>std_exception\<close> are the faults \<open>catch (std::exception
  const&)\<close> stops.
\<close>

type_synonym 's outcome = "'s \<times> fault option"

fun std_exception :: "fault \<Rightarrow> bool" where
  "std_exception NullDeref \<longleftrightarrow> False"
| "std_exception ProcessReplaced \<longleftrightarrow> False"
| "std_exception (SystemError _) \<longleftrightarrow> True"
| "std_exception (RuntimeError _) \<longleftrightarrow> True"
| "std_exception (LogicError _) \<longleftrightarrow> True"
| "std_exception (AbnormalExit _) \<longleftrightarrow> True"
| "std_exception ExternalException \<longleftrightarrow> True"

fun then_do :: "'s outcome \<Rightarrow> ('s \<Rightarrow> 's outcome) \<Rightarrow> 's outcome" where
  "then_do (s, None) f = f s"
| "then_do (s, Some e) f = (s, Some e)"

fun each_do :: "('x \<Rightarrow> 's \<Rightarrow> 's outcome) \<Rightarrow> 'x list \<Rightarrow> 's \<Rightarrow> 's outcome" where
  "each_do body [] s = (s, None)"
| "each_do body (x # xs) s = then_do (body x s) (each_do body xs)"

fun catch_std :: "('s \<Rightarrow> 's) \<Rightarrow> 's outcome \<Rightarrow> 's outcome" where
  "catch_std handler (s, None) = (s, None)"
| "catch_std handler (s, Some e) = (if std_exception e then (handler s, None) else (s, Some e))"

lemma then_do_return [simp]: "then_do r (\<lambda>s. (s, None)) = r"
  by (cases r; cases "snd r") auto

lemma catch_std_no_exception: "snd (catch_std h r) = Some e \<Longrightarrow> \<not> std_exception e"
  by (cases r; cases "snd r") (auto split: if_splits)

lemma each_do_fold:
  assumes "\<And>x s. x \<in> set xs \<Longrightarrow> body x s = (g x s, None)"
  shows "each_do body xs s = (fold g xs s, None)"
  using assms by (induction xs arbitrary: s) auto

lemma each_do_inv:
  assumes "\<And>x s. x \<in> set xs \<Longrightarrow> I s \<Longrightarrow> I (fst (body x s))" and "I s"
  shows "I (fst (each_do body xs s))"
  using assms
proof (induction xs arbitrary: s)
  case Nil
  then show ?case by simp
next
  case (Cons x xs)
  obtain s1 f where b: "body x s = (s1, f)" by force
  then have "I s1" using Cons.prems(1)[of x s] Cons.prems(2) by simp
  then show ?case using Cons.IH Cons.prems(1) b by (cases f) auto
qed

section \<open>The contract of a component\<close>

text \<open>
  An interface several components implement: operations \<open>step\<close> on a state, a well-formedness
  invariant and a side condition on the operation's arguments and environment. The clients' lemma
  is that whole runs return normally and stay well formed.
\<close>

locale guarded_component =
  fixes step :: "'op \<Rightarrow> 's \<Rightarrow> 's res"
    and wf_state :: "'s \<Rightarrow> bool"
    and admissible :: "'op \<Rightarrow> bool"
  assumes step_returns: "wf_state s \<Longrightarrow> admissible op \<Longrightarrow> \<exists>s'. step op s = Inr s' \<and> wf_state s'"
begin

lemma gc_step_wf: "wf_state s \<Longrightarrow> admissible op \<Longrightarrow> step op s = Inr s' \<Longrightarrow> wf_state s'"
  using step_returns by fastforce

lemma gc_run_returns:
  "wf_state s \<Longrightarrow> list_all admissible ops \<Longrightarrow> \<exists>s'. for_each step ops s = Inr s' \<and> wf_state s'"
proof (induction ops arbitrary: s)
  case Nil
  then show ?case by simp
next
  case (Cons op ops)
  then obtain s1 where "step op s = Inr s1" and "wf_state s1"
    using step_returns by force
  with Cons show ?case by auto
qed

lemma gc_run_wf:
  "wf_state s \<Longrightarrow> list_all admissible ops \<Longrightarrow> for_each step ops s = Inr s' \<Longrightarrow> wf_state s'"
  using gc_run_returns by fastforce

text \<open>A property that every step keeps in well-formed states holds after every run.\<close>

lemma gc_run_preserves:
  assumes step: "\<And>op s s'. wf_state s \<Longrightarrow> admissible op \<Longrightarrow> P s \<Longrightarrow> step op s = Inr s' \<Longrightarrow> P s'"
    and start: "wf_state s" "P s" and ops: "list_all admissible ops"
    and run: "for_each step ops s = Inr s'"
  shows "P s'"
  using start ops run
proof (induction ops arbitrary: s)
  case Nil
  then show ?case by simp
next
  case (Cons op ops)
  then obtain s1 where s1: "step op s = Inr s1" "for_each step ops s1 = Inr s'"
    and adm: "admissible op" "list_all admissible ops" by auto
  have "wf_state s1" using gc_step_wf Cons.prems(1) adm(1) s1(1) .
  moreover have "P s1" using step Cons.prems(1,2) adm(1) s1(1) by blast
  ultimately show ?case using Cons.IH adm(2) s1(2) by blast
qed

end

end
