(* ===== verification/Std_Map.thy ===== *)
theory Std_Map
  imports Prelude "HOL-Library.Char_ord" "HOL-Library.List_Lexorder"
begin

text \<open>
  \<open>std::map<K, V>\<close> of the C++ standard library, as an association list kept in ascending key
  order, the order in which the source's range-based loops visit it. \<open>std::string\<close> keys compare
  lexicographically by unsigned bytes (HOL-Library's \<open>Char_ord\<close> and \<open>List_Lexorder\<close>), pointer
  keys by address. The laws the components rely on are the interface \<open>key_store\<close>, proved here
  of these operations.
\<close>

type_synonym ('k, 'v) std_map = "('k \<times> 'v) list"

abbreviation find_key :: "('k, 'v) std_map \<Rightarrow> 'k \<Rightarrow> 'v option" where
  "find_key \<equiv> map_of"

text \<open>\<open>m[k] = v\<close>: inserts at the key's place or overwrites the value there.\<close>

fun assign_key :: "('k::linorder) \<Rightarrow> 'v \<Rightarrow> ('k, 'v) std_map \<Rightarrow> ('k, 'v) std_map" where
  "assign_key k v [] = [(k, v)]"
| "assign_key k v ((k', v') # m) =
     (if k < k' then (k, v) # (k', v') # m
      else if k = k' then (k, v) # m
      else (k', v') # assign_key k v m)"

text \<open>\<open>m.erase(k)\<close>.\<close>

fun erase_key :: "'k \<Rightarrow> ('k, 'v) std_map \<Rightarrow> ('k, 'v) std_map" where
  "erase_key k [] = []"
| "erase_key k ((k', v') # m) = (if k = k' then m else (k', v') # erase_key k m)"

text \<open>\<open>m.insert({k, v})\<close>: leaves an existing entry as it is.\<close>

definition insert_key :: "('k::linorder) \<Rightarrow> 'v \<Rightarrow> ('k, 'v) std_map \<Rightarrow> ('k, 'v) std_map" where
  "insert_key k v m = (case find_key m k of None \<Rightarrow> assign_key k v m | Some _ \<Rightarrow> m)"

text \<open>\<open>m[k]\<close> as an expression: creates a default value when the key is missing.\<close>

definition subscript_key ::
  "'v \<Rightarrow> ('k::linorder) \<Rightarrow> ('k, 'v) std_map \<Rightarrow> 'v \<times> ('k, 'v) std_map" where
  "subscript_key dflt k m =
     (case find_key m k of Some v \<Rightarrow> (v, m) | None \<Rightarrow> (dflt, assign_key k dflt m))"

definition map_ordered :: "('k::linorder, 'v) std_map \<Rightarrow> bool" where
  "map_ordered m \<longleftrightarrow> sorted_wrt (<) (map fst m)"

section \<open>The interface\<close>

text \<open>
  What a client may assume of a keyed store: a lookup after an insertion or a removal, that both
  keep the store well formed, and that the entries a loop visits are exactly the ones a lookup
  finds.
\<close>

locale key_store =
  fixes lookup :: "'m \<Rightarrow> 'k \<Rightarrow> 'v option"
    and put :: "'k \<Rightarrow> 'v \<Rightarrow> 'm \<Rightarrow> 'm"
    and del :: "'k \<Rightarrow> 'm \<Rightarrow> 'm"
    and elems :: "'m \<Rightarrow> ('k \<times> 'v) list"
    and valid :: "'m \<Rightarrow> bool"
  assumes lookup_put: "lookup (put k v m) j = (if j = k then Some v else lookup m j)"
    and lookup_del: "valid m \<Longrightarrow> lookup (del k m) j = (if j = k then None else lookup m j)"
    and valid_put: "valid m \<Longrightarrow> valid (put k v m)"
    and valid_del: "valid m \<Longrightarrow> valid (del k m)"
    and elems_lookup: "valid m \<Longrightarrow> (k, v) \<in> set (elems m) \<longleftrightarrow> lookup m k = Some v"
begin

text \<open>An invariant of all entries survives insertion of a good entry and any removal.\<close>

lemma ks_all_put:
  assumes "valid m" "\<forall>(k, v) \<in> set (elems m). P k v" "P k v"
  shows "\<forall>(k, v) \<in> set (elems (put k v m)). P k v"
  using assms by (auto simp: elems_lookup valid_put lookup_put split: if_splits)

lemma ks_all_del:
  assumes "valid m" "\<forall>(k, v) \<in> set (elems m). P k v"
  shows "\<forall>(k, v) \<in> set (elems (del k m)). P k v"
  using assms by (auto simp: elems_lookup valid_del lookup_del split: if_splits)

lemma ks_all_lookup:
  "valid m \<Longrightarrow> \<forall>(k, v) \<in> set (elems m). P k v \<Longrightarrow> lookup m k = Some v \<Longrightarrow> P k v"
  by (auto simp: elems_lookup[symmetric])

lemma ks_put_del: "valid m \<Longrightarrow> lookup (put k v (del k m)) = lookup (put k v m)"
  by (auto simp: lookup_put lookup_del)

lemma ks_del_put: "valid m \<Longrightarrow> lookup m k = None \<Longrightarrow> lookup (del k (put k v m)) = lookup m"
  by (auto simp: lookup_put lookup_del valid_put fun_eq_iff)

end

section \<open>The ordered association list provides it\<close>

lemma find_assign_key: "find_key (assign_key k v m) j = (if j = k then Some v else find_key m j)"
  by (induction k v m rule: assign_key.induct) auto

lemma fst_set_assign_key: "fst ` set (assign_key k v m) = insert k (fst ` set m)"
  by (induction k v m rule: assign_key.induct) auto

lemma set_erase_key: "set (erase_key k m) \<subseteq> set m"
  by (induction k m rule: erase_key.induct) auto

lemma map_ordered_Cons:
  "map_ordered ((k, v) # m) \<longleftrightarrow> (\<forall>k' \<in> fst ` set m. k < k') \<and> map_ordered m"
  by (auto simp: map_ordered_def)

lemma map_ordered_Nil [simp]: "map_ordered []"
  by (simp add: map_ordered_def)

lemma map_ordered_distinct: "map_ordered m \<Longrightarrow> distinct (map fst m)"
  by (induction m) (force simp: map_ordered_Cons)+

lemma map_ordered_assign: "map_ordered m \<Longrightarrow> map_ordered (assign_key k v m)"
  by (induction k v m rule: assign_key.induct)
    (auto simp: map_ordered_Cons fst_set_assign_key)

lemma map_ordered_erase: "map_ordered m \<Longrightarrow> map_ordered (erase_key k m)"
  by (induction k m rule: erase_key.induct)
    (auto simp: map_ordered_Cons dest: set_erase_key[THEN subsetD])

lemma find_key_below: "\<forall>k' \<in> fst ` set m. k < k' \<Longrightarrow> find_key m (k :: 'k::linorder) = None"
  by (induction m) auto

lemma find_erase_key:
  "map_ordered m \<Longrightarrow> find_key (erase_key k m) j = (if j = k then None else find_key m j)"
  by (induction k m rule: erase_key.induct) (auto simp: map_ordered_Cons find_key_below)

lemma set_find_key: "map_ordered m \<Longrightarrow> (k, v) \<in> set m \<longleftrightarrow> find_key m k = Some v"
  by (simp add: map_ordered_distinct)

interpretation std_map: key_store find_key assign_key erase_key "\<lambda>m. m" map_ordered
  by unfold_locales
    (auto simp: find_assign_key find_erase_key map_ordered_assign map_ordered_erase set_find_key)

lemma find_insert_key:
  "find_key (insert_key k v m) j =
     (if j = k \<and> find_key m k = None then Some v else find_key m j)"
  by (auto simp: insert_key_def std_map.lookup_put split: option.splits)

lemma map_ordered_insert: "map_ordered m \<Longrightarrow> map_ordered (insert_key k v m)"
  by (auto simp: insert_key_def std_map.valid_put split: option.splits)

lemma map_ordered_map_values: "map_ordered (map (\<lambda>(k, v). (k, f k v)) m) \<longleftrightarrow> map_ordered m"
  by (simp add: map_ordered_def case_prod_beta' comp_def)

lemma find_key_map_values:
  "find_key (map (\<lambda>(k, v). (k, f k v)) m) j = map_option (f j) (find_key m j)"
  by (induction m) auto

lemma erase_assigned:
  "map_ordered m \<Longrightarrow> find_key m k = None \<Longrightarrow> erase_key k (assign_key k v m) = m"
  by (induction k v m rule: assign_key.induct) (auto simp: map_ordered_Cons split: if_splits)

lemma map_values_assign:
  "map (\<lambda>(k, v). (k, f k v)) (assign_key k v m) = assign_key k (f k v) (map (\<lambda>(k, v). (k, f k v)) m)"
  by (induction k v m rule: assign_key.induct) auto

end
