(* ===== verification/External_Spinner.thy ===== *)
theory External_Spinner
  imports Prelude
begin

text \<open>
  The boot spinner as an external process (\<open>src/external_spinner.{h,cpp}\<close>). The operating
  system's answers (the result of \<open>fork\<close>, whether \<open>execlp\<close> succeeds) are an argument; the system
  calls made are recorded in order. The contract the session switcher relies on is the interface
  \<open>spinner_service\<close>, and the ledger invariant accounts for every process ever forked.
\<close>

section \<open>State and operations\<close>

text \<open>\<open>OsFork\<close> carries the result of \<open>fork\<close>: 0 in the child, -1 on failure, else the child's
  process id in the parent. \<open>OsKill\<close> sends \<open>SIGTERM\<close>.\<close>

datatype os_call = OsFork int | OsSetenv string string | OsExec string | OsKill int

record spinner_os =
  fork_result :: int
  exec_succeeds :: bool

record external_spinner =
  executable :: string
  mir_socket :: string
  spinner_pid :: int
  os_calls :: "os_call list"

definition new_external_spinner :: "string \<Rightarrow> string \<Rightarrow> external_spinner" where
  "new_external_spinner exe sock =
     \<lparr>executable = exe, mir_socket = sock, spinner_pid = 0, os_calls = []\<rparr>"

definition log_os_call :: "os_call \<Rightarrow> external_spinner \<Rightarrow> external_spinner" where
  "log_os_call c sp = sp\<lparr>os_calls := os_calls sp @ [c]\<rparr>"

text \<open>In the child a failed \<open>execlp\<close> falls through: the child returns to the caller.\<close>

definition ensure_running :: "spinner_os \<Rightarrow> external_spinner \<Rightarrow> external_spinner res" where
  "ensure_running os sp =
     (if executable sp = '''' \<or> spinner_pid sp \<noteq> 0 then Inr sp
      else
        let pid = fork_result os;
            sp1 = log_os_call (OsFork pid) sp
        in if pid = 0 then
             (let sp2 = log_os_call (OsExec (executable sp1))
                              (log_os_call (OsSetenv ''MIR_SOCKET'' (mir_socket sp1)) sp1)
              in if exec_succeeds os then Inl ProcessReplaced else Inr sp2)
           else Inr (sp1\<lparr>spinner_pid := pid\<rparr>))"

definition kill :: "external_spinner \<Rightarrow> external_spinner" where
  "kill sp =
     (if spinner_pid sp \<noteq> 0 then (log_os_call (OsKill (spinner_pid sp)) sp)\<lparr>spinner_pid := 0\<rparr>
      else sp)"

definition pid_of_spinner :: "external_spinner \<Rightarrow> int" where
  "pid_of_spinner sp = spinner_pid sp"

text \<open>\<open>~ExternalSpinner\<close>.\<close>

definition destroy_external_spinner :: "external_spinner \<Rightarrow> external_spinner" where
  "destroy_external_spinner sp = kill sp"

text \<open>The \<open>SIGCHLD\<close> handler: reaps while \<open>waitpid\<close> reports a child. The argument lists the
  kernel's answers; the result is what is left unread of them.\<close>

fun wait_for_child :: "int list \<Rightarrow> int list" where
  "wait_for_child [] = []"
| "wait_for_child (r # rs) = (if r > 0 then wait_for_child rs else rs)"

section \<open>The interface of a spinner\<close>

text \<open>
  \<open>Spinner\<close> in \<open>src/spinner.h\<close>. \<open>parent\<close> says that the caller is not the child of a
  \<open>fork\<close>, \<open>startable\<close> that there is something to run.
\<close>

locale spinner_service =
  fixes ensure :: "'os \<Rightarrow> 'p \<Rightarrow> 'p res"
    and stop :: "'p \<Rightarrow> 'p"
    and proc :: "'p \<Rightarrow> int"
    and startable :: "'p \<Rightarrow> bool"
    and parent :: "'os \<Rightarrow> bool"
  assumes ensure_keeps: "proc p \<noteq> 0 \<or> \<not> startable p \<Longrightarrow> ensure os p = Inr p"
    and ensure_starts: "proc p = 0 \<Longrightarrow> startable p \<Longrightarrow> parent os \<Longrightarrow>
      \<exists>p'. ensure os p = Inr p' \<and> proc p' \<noteq> 0 \<and> startable p'"
    and stop_proc: "proc (stop p) = 0"
    and stop_startable: "startable (stop p) = startable p"
begin

lemma sp_ensure_returns:
  assumes "parent os"
  obtains p' where "ensure os p = Inr p'" and "startable p' = startable p"
    and "proc p' \<noteq> 0 \<longleftrightarrow> proc p \<noteq> 0 \<or> startable p"
  using assms ensure_keeps[of p os] ensure_starts[of p os] by (metis (full_types))

text \<open>Asking twice runs it once, whatever the system answers the second time.\<close>

lemma sp_ensure_twice:
  assumes "parent os"
  shows "bind_res (ensure os p) (ensure os') = ensure os p"
proof -
  obtain p' where p': "ensure os p = Inr p'" "startable p' = startable p"
    "proc p' \<noteq> 0 \<longleftrightarrow> proc p \<noteq> 0 \<or> startable p"
    using sp_ensure_returns[OF assms] .
  then have "proc p' \<noteq> 0 \<or> \<not> startable p'" by auto
  then show ?thesis using p'(1) ensure_keeps[of p' os'] by simp
qed

text \<open>It can be started again after it was stopped.\<close>

lemma sp_restart:
  assumes "parent os" "startable p"
  shows "\<exists>p'. ensure os (stop p) = Inr p' \<and> proc p' \<noteq> 0"
  using assms ensure_starts[of "stop p" os] stop_proc stop_startable by blast

end

lemmas spinner_defs = ensure_running_def kill_def pid_of_spinner_def log_os_call_def
  destroy_external_spinner_def Let_def

interpretation ext_spinner:
  spinner_service ensure_running kill pid_of_spinner
    "\<lambda>sp. executable sp \<noteq> ''''" "\<lambda>os. fork_result os \<noteq> 0"
  by unfold_locales (auto simp: spinner_defs)

section \<open>The ledger of forked processes\<close>

datatype spinner_op = EnsureRunning spinner_os | KillSpinner

fun spinner_step :: "spinner_op \<Rightarrow> external_spinner \<Rightarrow> external_spinner res" where
  "spinner_step (EnsureRunning os) sp = ensure_running os sp"
| "spinner_step KillSpinner sp = Inr (kill sp)"

fun in_parent :: "spinner_op \<Rightarrow> bool" where
  "in_parent (EnsureRunning os) \<longleftrightarrow> fork_result os \<noteq> 0"
| "in_parent KillSpinner \<longleftrightarrow> True"

fun forked_pids :: "os_call list \<Rightarrow> int list" where
  "forked_pids [] = []"
| "forked_pids (OsFork p # cs) = p # forked_pids cs"
| "forked_pids (_ # cs) = forked_pids cs"

fun killed_pids :: "os_call list \<Rightarrow> int list" where
  "killed_pids [] = []"
| "killed_pids (OsKill p # cs) = p # killed_pids cs"
| "killed_pids (_ # cs) = killed_pids cs"

lemma forked_pids_append [simp]: "forked_pids (cs @ ds) = forked_pids cs @ forked_pids ds"
  by (induction cs rule: forked_pids.induct) auto

lemma killed_pids_append [simp]: "killed_pids (cs @ ds) = killed_pids cs @ killed_pids ds"
  by (induction cs rule: killed_pids.induct) auto

text \<open>Every process forked was sent \<open>SIGTERM\<close> once, in order, but for the current one.\<close>

definition spinner_ledger :: "external_spinner \<Rightarrow> bool" where
  "spinner_ledger sp \<longleftrightarrow>
     forked_pids (os_calls sp) =
       killed_pids (os_calls sp) @ (if spinner_pid sp = 0 then [] else [spinner_pid sp])"

lemma spinner_ledger_new: "spinner_ledger (new_external_spinner exe sock)"
  by (simp add: spinner_ledger_def new_external_spinner_def)

interpretation spinner_component: guarded_component spinner_step spinner_ledger in_parent
proof unfold_locales
  fix sp op
  assume "spinner_ledger sp" "in_parent op"
  then show "\<exists>sp'. spinner_step op sp = Inr sp' \<and> spinner_ledger sp'"
    by (cases op) (auto simp: spinner_ledger_def spinner_defs)
qed

lemma kill_spinner_pid [simp]: "spinner_pid (kill sp) = 0"
  using ext_spinner.stop_proc[of sp] by (simp add: pid_of_spinner_def)

lemma spinner_ledger_kill:
  "spinner_ledger sp \<Longrightarrow>
     forked_pids (os_calls (kill sp)) = killed_pids (os_calls (kill sp))"
  by (auto simp: spinner_ledger_def spinner_defs)

end
