(* ===== verification/Screen_Types.thy ===== *)
theory Screen_Types
  imports Prelude
begin

text \<open>
  The vocabulary of \<open>src/screen.h\<close>: counts of active outputs and output filters. Counts are C
  \<open>int\<close>s; they stay far below the range of an \<open>int\<close> (a count never exceeds the number of
  outputs), so they are unbounded integers here.
\<close>

record active_outputs =
  internal :: int
  external :: int

definition no_active_outputs :: active_outputs where
  "no_active_outputs = \<lparr>internal = 0, external = 0\<rparr>"

datatype output_filter = AllOutputs | InternalOutputs | ExternalOutputs

text \<open>\<open>internal + external != 0\<close>, as the session switcher's handler tests it.\<close>

definition any_active :: "active_outputs \<Rightarrow> bool" where
  "any_active ao \<longleftrightarrow> internal ao + external ao \<noteq> 0"

end
