(* ===== verification/Usc_Session.thy ===== *)
theory Usc_Session
  imports Prelude
begin

text \<open>
  Sessions as the compositor sees them: Mir's scene session (an address, a name and a process id,
  all fixed by Mir) and \<open>UscSession\<close> of \<open>src/window_manager.cpp\<close>, the wrapper that implements the
  interface \<open>usc::Session\<close> of \<open>src/session_monitor.h\<close> by calls into Mir.
\<close>

record scene_session =
  scene_id :: nat
  scene_name :: string
  process_id :: int

record usc_session =
  scene_session :: scene_session

text \<open>Calls into Mir; a surface is the address of Mir's surface object, none if null.\<close>

datatype mir_call =
    SceneShow nat
  | SceneHide nat
  | FocusRaise "nat option"
  | SetFocusTo nat "nat option"

definition session_name :: "usc_session \<Rightarrow> string" where
  "session_name us = scene_name (scene_session us)"

definition session_show :: "usc_session \<Rightarrow> mir_call list" where
  "session_show us = [SceneShow (scene_id (scene_session us))]"

definition session_hide :: "usc_session \<Rightarrow> mir_call list" where
  "session_hide us = [SceneHide (scene_id (scene_session us))]"

text \<open>\<open>default_surface\<close> is Mir's.\<close>

definition session_raise_and_focus :: "(nat \<Rightarrow> nat option) \<Rightarrow> usc_session \<Rightarrow> mir_call list" where
  "session_raise_and_focus default_surface us =
     (let surface = default_surface (scene_id (scene_session us))
      in [FocusRaise surface, SetFocusTo (scene_id (scene_session us)) surface])"

definition corresponds_to :: "usc_session \<Rightarrow> nat \<Rightarrow> bool" where
  "corresponds_to us s \<longleftrightarrow> scene_id (scene_session us) = s"

end
