(* ===== verification/Session_Switcher.thy ===== *)
theory Session_Switcher
  imports Std_Map External_Spinner Screen_Types Usc_Session
begin

text \<open>
  \<open>SessionSwitcher\<close> (\<open>src/session_switcher.{h,cpp}\<close>): which sessions are displayed, given the
  display manager's choice of an active and a next session, the sessions Mir reports, their
  readiness and whether any output is active. The record holds the class's fields and the calls
  made on sessions so far; the spinner process is the state of \<open>External_Spinner\<close>. The operating
  system's answers are an argument of every operation that may start the spinner.
\<close>

section \<open>State\<close>

record session_info =
  session :: "usc_session option"
  ready :: bool

definition session_info_of :: "usc_session \<Rightarrow> session_info" where
  "session_info_of us = \<lparr>session = Some us, ready = False\<rparr>"

definition default_session_info :: session_info where
  "default_session_info = \<lparr>session = None, ready = False\<rparr>"

datatype session_call = Show usc_session | Hide usc_session | RaiseAndFocus usc_session

datatype show_mode = AsActive | AsNext

record switcher =
  spinner_process :: external_spinner
  sessions :: "(string, session_info) std_map"
  active_name :: string
  next_name :: string
  spinner_name :: string
  booting :: bool
  has_active_outputs :: bool
  calls :: "session_call list"

definition new_switcher :: "external_spinner \<Rightarrow> switcher" where
  "new_switcher sp =
     \<lparr>spinner_process = sp, sessions = [], active_name = '''', next_name = '''',
      spinner_name = '''', booting = True, has_active_outputs = True, calls = []\<rparr>"

definition log_call :: "session_call \<Rightarrow> switcher \<Rightarrow> switcher" where
  "log_call c s = s\<lparr>calls := calls s @ [c]\<rparr>"

section \<open>Operations\<close>

definition hide_uninteresting_sessions :: "switcher \<Rightarrow> switcher res" where
  "hide_uninteresting_sessions s =
     for_each (\<lambda>(k, info) t.
       bind_res (deref (session info)) (\<lambda>us.
         if session_name us \<noteq> active_name t \<and> session_name us \<noteq> next_name t
         then Inr (log_call (Hide us) t) else Inr t)) (sessions s) s"

definition hide_all_sessions :: "switcher \<Rightarrow> switcher res" where
  "hide_all_sessions s =
     for_each (\<lambda>(k, info) t.
       bind_res (deref (session info)) (\<lambda>us. Inr (log_call (Hide us) t))) (sessions s) s"

definition is_session_ready_for_display :: "string \<Rightarrow> switcher \<Rightarrow> bool" where
  "is_session_ready_for_display name s =
     (case find_key (sessions s) name of
        None \<Rightarrow> False
      | Some info \<Rightarrow> session info \<noteq> None \<and> ready info)"

definition is_session_expected_to_become_ready :: "string \<Rightarrow> bool" where
  "is_session_expected_to_become_ready name \<longleftrightarrow> name \<noteq> ''''"

text \<open>\<open>sessions[name]\<close> creates a null entry when the name is not tracked.\<close>

definition show_session :: "string \<Rightarrow> show_mode \<Rightarrow> switcher \<Rightarrow> switcher res" where
  "show_session name mode s =
     (let (info, m) = subscript_key default_session_info name (sessions s);
          s1 = s\<lparr>sessions := m\<rparr>
      in bind_res (deref (session info)) (\<lambda>us.
           Inr (log_call (Show us)
             (if mode = AsActive then log_call (RaiseAndFocus us) s1 else s1))))"

definition hide_session :: "string \<Rightarrow> switcher \<Rightarrow> switcher res" where
  "hide_session name s =
     (let (info, m) = subscript_key default_session_info name (sessions s);
          s1 = s\<lparr>sessions := m\<rparr>
      in bind_res (deref (session info)) (\<lambda>us. Inr (log_call (Hide us) s1)))"

definition ensure_spinner_will_be_shown ::
  "spinner_os \<Rightarrow> show_mode \<Rightarrow> switcher \<Rightarrow> switcher res" where
  "ensure_spinner_will_be_shown os mode s =
     (case find_key (sessions s) (spinner_name s) of
        None \<Rightarrow>
          bind_res (ensure_running os (spinner_process s)) (\<lambda>sp.
            Inr (s\<lparr>spinner_process := sp\<rparr>))
      | Some info \<Rightarrow>
          bind_res (deref (session info)) (\<lambda>us.
            Inr (log_call (Show us)
              (if mode = AsActive then log_call (RaiseAndFocus us) s else s))))"

definition ensure_spinner_is_not_running :: "switcher \<Rightarrow> switcher" where
  "ensure_spinner_is_not_running s = s\<lparr>spinner_process := kill (spinner_process s)\<rparr>"

text \<open>
  First what \<open>update_displayed_sessions\<close> does after its test of \<open>has_active_outputs\<close>. The tuples
  carry the function's locals: the state, \<open>show_active\<close>, \<open>show_spinner\<close> and \<open>show_spinner_mode\<close>.
\<close>

definition update_with_outputs :: "spinner_os \<Rightarrow> switcher \<Rightarrow> switcher res" where
  "update_with_outputs os s0 =
     bind_res (hide_uninteresting_sessions s0) (\<lambda>s1.
     let allowed_to_display_active =
           is_session_ready_for_display (next_name s1) s1 \<or>
           \<not> is_session_expected_to_become_ready (next_name s1) \<or>
           \<not> booting s1
     in bind_res
       (if allowed_to_display_active \<and> is_session_ready_for_display (active_name s1) s1 then
          bind_res (show_session (active_name s1) AsActive s1) (\<lambda>s.
            Inr (s\<lparr>booting := False\<rparr>, True, False, AsNext))
        else if is_session_expected_to_become_ready (active_name s1) then
          Inr (s1, False, True, AsActive)
        else Inr (s1, False, False, AsNext))
       (\<lambda>(s2, show_active, show_spinner, show_spinner_mode).
     let allowed_to_display_next = (\<not> show_spinner \<and> show_active)
     in bind_res
       (if allowed_to_display_next then
          if is_session_ready_for_display (next_name s2) s2 then
            bind_res (show_session (next_name s2) AsNext s2) (\<lambda>s.
              Inr (s, show_spinner, show_spinner_mode))
          else if is_session_expected_to_become_ready (next_name s2) then
            Inr (s2, True, AsNext)
          else Inr (s2, show_spinner, show_spinner_mode)
        else if is_session_ready_for_display (next_name s2) s2 then
          bind_res (hide_session (next_name s2) s2) (\<lambda>s.
            Inr (s, show_spinner, show_spinner_mode))
        else Inr (s2, show_spinner, show_spinner_mode))
       (\<lambda>(s3, show_spinner, show_spinner_mode).
     if show_spinner then ensure_spinner_will_be_shown os show_spinner_mode s3
     else Inr (ensure_spinner_is_not_running s3))))"

definition update_displayed_sessions :: "spinner_os \<Rightarrow> switcher \<Rightarrow> switcher res" where
  "update_displayed_sessions os s0 =
     (if \<not> has_active_outputs s0 then hide_all_sessions s0 else update_with_outputs os s0)"

definition add :: "spinner_os \<Rightarrow> usc_session \<Rightarrow> int \<Rightarrow> switcher \<Rightarrow> switcher res" where
  "add os us pid s =
     (let s1 = (if pid = pid_of_spinner (spinner_process s)
                then s\<lparr>spinner_name := session_name us\<rparr> else s);
          s2 = s1\<lparr>sessions := assign_key (session_name us) (session_info_of us) (sessions s1)\<rparr>
      in update_displayed_sessions os s2)"

definition remove :: "spinner_os \<Rightarrow> scene_session \<Rightarrow> switcher \<Rightarrow> switcher res" where
  "remove os sc s =
     (let name = scene_name sc
      in case find_key (sessions s) name of
           None \<Rightarrow> Inr s
         | Some info \<Rightarrow>
             (case session info of
                None \<Rightarrow> Inr s
              | Some us \<Rightarrow>
                  if \<not> corresponds_to us (scene_id sc) then Inr s
                  else
                    let s1 = (if name = spinner_name s then s\<lparr>spinner_name := ''''\<rparr> else s);
                        s2 = log_call (Hide us) s1;
                        s3 = s2\<lparr>sessions := erase_key name (sessions s2)\<rparr>
                    in update_displayed_sessions os s3))"

definition set_active_session :: "spinner_os \<Rightarrow> string \<Rightarrow> switcher \<Rightarrow> switcher res" where
  "set_active_session os name s = update_displayed_sessions os (s\<lparr>active_name := name\<rparr>)"

definition set_next_session :: "spinner_os \<Rightarrow> string \<Rightarrow> switcher \<Rightarrow> switcher res" where
  "set_next_session os name s = update_displayed_sessions os (s\<lparr>next_name := name\<rparr>)"

definition mark_ready :: "spinner_os \<Rightarrow> nat \<Rightarrow> switcher \<Rightarrow> switcher res" where
  "mark_ready os sc s =
     update_displayed_sessions os
       (s\<lparr>sessions := map (\<lambda>(k, info).
          (k, case session info of
                Some us \<Rightarrow> if corresponds_to us sc then info\<lparr>ready := True\<rparr> else info
              | None \<Rightarrow> info)) (sessions s)\<rparr>)"

text \<open>The handler \<open>set_screen\<close> registers with the screen.\<close>

definition active_outputs_handler ::
  "spinner_os \<Rightarrow> active_outputs \<Rightarrow> switcher \<Rightarrow> switcher res" where
  "active_outputs_handler os ao s =
     update_displayed_sessions os (s\<lparr>has_active_outputs := any_active ao\<rparr>)"

section \<open>All entry points as one step function\<close>

datatype switcher_op =
    Add usc_session int
  | Remove scene_session
  | SetActiveSession string
  | SetNextSession string
  | MarkReady nat
  | ActiveOutputsChanged active_outputs

fun switcher_step :: "spinner_os \<times> switcher_op \<Rightarrow> switcher \<Rightarrow> switcher res" where
  "switcher_step (os, Add us pid) s = add os us pid s"
| "switcher_step (os, Remove sc) s = remove os sc s"
| "switcher_step (os, SetActiveSession n) s = set_active_session os n s"
| "switcher_step (os, SetNextSession n) s = set_next_session os n s"
| "switcher_step (os, MarkReady sc) s = mark_ready os sc s"
| "switcher_step (os, ActiveOutputsChanged ao) s = active_outputs_handler os ao s"

end
