(* ===== verification/Switcher_Spec.thy ===== *)
theory Switcher_Spec
  imports Session_Switcher
begin

text \<open>
  What \<open>Session_Switcher\<close> promises. \<open>switcher_wf\<close> is the invariant its null checks leave implicit;
  \<open>display_plan\<close> is the decision \<open>update_displayed_sessions\<close> takes, stated without its control
  flow; \<open>update_refines_plan\<close> shows the code implements the plan. Visibility is read off the
  recorded calls as a scene would: the last \<open>show\<close> or \<open>hide\<close> of a session decides.
\<close>

section \<open>The invariant\<close>

definition tracked_ok :: "string \<Rightarrow> session_info \<Rightarrow> bool" where
  "tracked_ok k info \<longleftrightarrow> (\<exists>us. session info = Some us \<and> session_name us = k)"

definition switcher_wf :: "switcher \<Rightarrow> bool" where
  "switcher_wf s \<longleftrightarrow>
     map_ordered (sessions s) \<and> (\<forall>(k, info) \<in> set (sessions s). tracked_ok k info)"

definition tracked :: "switcher \<Rightarrow> string \<Rightarrow> usc_session option" where
  "tracked s n = Option.bind (find_key (sessions s) n) session"

lemma wf_find:
  assumes "switcher_wf s" "find_key (sessions s) n = Some info"
  obtains us where "session info = Some us" and "session_name us = n"
  using std_map.ks_all_lookup[of "sessions s" tracked_ok n info] assms
  by (auto simp: switcher_wf_def tracked_ok_def)

lemma wf_tracked: "switcher_wf s \<Longrightarrow> tracked s n = Some us \<Longrightarrow> session_name us = n"
  by (auto simp: tracked_def bind_eq_Some_conv elim: wf_find)

lemma wf_entry: "switcher_wf s \<Longrightarrow> (k, info) \<in> set (sessions s) \<Longrightarrow> tracked s k = session info"
  by (auto simp: switcher_wf_def tracked_def set_find_key)

section \<open>The decision, without control flow\<close>

text \<open>
  \<open>active_shown\<close>: the active session is ready and either booting is over, or no next session is
  expected, or the next one is ready too. \<open>spinner_mode\<close>: the spinner stands in for an expected
  session that is not displayed, in front when it is the active one, behind it when it is the next.
\<close>

definition active_shown :: "switcher \<Rightarrow> bool" where
  "active_shown s \<longleftrightarrow>
     is_session_ready_for_display (active_name s) s \<and>
     (is_session_ready_for_display (next_name s) s \<or> next_name s = '''' \<or> \<not> booting s)"

definition spinner_mode :: "switcher \<Rightarrow> show_mode option" where
  "spinner_mode s =
     (if active_shown s then
        (if \<not> is_session_ready_for_display (next_name s) s \<and> next_name s \<noteq> ''''
         then Some AsNext else None)
      else if active_name s \<noteq> '''' then Some AsActive else None)"

definition hides :: "(string \<Rightarrow> bool) \<Rightarrow> switcher \<Rightarrow> session_call list" where
  "hides p s = map (\<lambda>(k, info). Hide (the (session info)))
                 (filter (\<lambda>(k, _). p k) (sessions s))"

definition active_calls :: "switcher \<Rightarrow> session_call list" where
  "active_calls s =
     (if active_shown s then
        (let us = the (tracked s (active_name s)) in [RaiseAndFocus us, Show us])
      else [])"

definition next_calls :: "switcher \<Rightarrow> session_call list" where
  "next_calls s =
     (if is_session_ready_for_display (next_name s) s then
        (let us = the (tracked s (next_name s))
         in if active_shown s then [Show us] else [Hide us])
      else [])"

definition spinner_calls :: "switcher \<Rightarrow> session_call list" where
  "spinner_calls s =
     (case (spinner_mode s, tracked s (spinner_name s)) of
        (Some AsActive, Some us) \<Rightarrow> [RaiseAndFocus us, Show us]
      | (Some AsNext, Some us) \<Rightarrow> [Show us]
      | _ \<Rightarrow> [])"

definition display_plan :: "switcher \<Rightarrow> session_call list" where
  "display_plan s =
     (if has_active_outputs s then
        hides (\<lambda>k. k \<noteq> active_name s \<and> k \<noteq> next_name s) s
        @ active_calls s @ next_calls s @ spinner_calls s
      else hides (\<lambda>_. True) s)"

definition spinner_update :: "spinner_os \<Rightarrow> switcher \<Rightarrow> external_spinner res" where
  "spinner_update os s =
     (if \<not> has_active_outputs s then Inr (spinner_process s)
      else if spinner_mode s = None then Inr (kill (spinner_process s))
      else if tracked s (spinner_name s) = None then ensure_running os (spinner_process s)
      else Inr (spinner_process s))"

definition planned_state :: "external_spinner \<Rightarrow> switcher \<Rightarrow> switcher" where
  "planned_state sp s =
     s\<lparr>calls := calls s @ display_plan s,
       booting := (booting s \<and> \<not> (has_active_outputs s \<and> active_shown s)),
       spinner_process := sp\<rparr>"

section \<open>The code implements it\<close>

lemma for_each_hides:
  assumes "\<forall>(k, info) \<in> set xs. tracked_ok k info"
    and "\<And>k info t. body (k, info) t =
           bind_res (deref (session info)) (\<lambda>us.
             if p (session_name us) t then Inr (log_call (Hide us) t) else Inr t)"
    and "\<And>n c t. p n (log_call c t) = p n t"
  shows "for_each body xs s =
    Inr (s\<lparr>calls := calls s @ map (\<lambda>(k, info). Hide (the (session info)))
                                (filter (\<lambda>(k, _). p k s) xs)\<rparr>)"
  using assms(1)
proof (induction xs arbitrary: s)
  case Nil
  then show ?case by simp
next
  case (Cons x xs)
  obtain k info where x: "x = (k, info)" by force
  with Cons.prems obtain us where us: "session info = Some us" "session_name us = k"
    by (auto simp: tracked_ok_def)
  note same = assms(3)[unfolded log_call_def, simp]
  from us show ?case
    using Cons.IH[of s] Cons.IH[of "log_call (Hide us) s"] Cons.prems
    by (auto simp: x assms(2) log_call_def)
qed

lemma hide_uninteresting_eq:
  "switcher_wf s \<Longrightarrow> hide_uninteresting_sessions s =
     Inr (s\<lparr>calls := calls s @ hides (\<lambda>k. k \<noteq> active_name s \<and> k \<noteq> next_name s) s\<rparr>)"
  unfolding hide_uninteresting_sessions_def hides_def
  by (subst for_each_hides[where p = "\<lambda>n t. n \<noteq> active_name t \<and> n \<noteq> next_name t"])
    (auto simp: switcher_wf_def log_call_def)

lemma hide_all_eq:
  "switcher_wf s \<Longrightarrow> hide_all_sessions s = Inr (s\<lparr>calls := calls s @ hides (\<lambda>_. True) s\<rparr>)"
  unfolding hide_all_sessions_def hides_def
  by (subst for_each_hides[where p = "\<lambda>n t. True"]) (auto simp: switcher_wf_def)

lemma ready_calls_update [simp]:
  "is_session_ready_for_display n (s\<lparr>calls := cs\<rparr>) = is_session_ready_for_display n s"
  "is_session_ready_for_display n (s\<lparr>booting := b\<rparr>) = is_session_ready_for_display n s"
  by (simp_all add: is_session_ready_for_display_def)

lemma ready_tracked:
  assumes "is_session_ready_for_display n s"
  obtains info us where "find_key (sessions s) n = Some info" and "session info = Some us"
    and "tracked s n = Some us" and "ready info"
  using assms by (auto simp: is_session_ready_for_display_def tracked_def split: option.splits)

lemma show_session_eq:
  assumes "is_session_ready_for_display n s"
  shows "show_session n mode s =
    Inr (s\<lparr>calls := calls s @
      (if mode = AsActive then [RaiseAndFocus (the (tracked s n)), Show (the (tracked s n))]
       else [Show (the (tracked s n))])\<rparr>)"
proof -
  obtain info us where "find_key (sessions s) n = Some info" "session info = Some us"
    "tracked s n = Some us" using ready_tracked[OF assms] by blast
  then show ?thesis by (simp add: show_session_def subscript_key_def log_call_def)
qed

lemma hide_session_eq:
  assumes "is_session_ready_for_display n s"
  shows "hide_session n s = Inr (s\<lparr>calls := calls s @ [Hide (the (tracked s n))]\<rparr>)"
proof -
  obtain info us where "find_key (sessions s) n = Some info" "session info = Some us"
    "tracked s n = Some us" using ready_tracked[OF assms] by blast
  then show ?thesis by (simp add: hide_session_def subscript_key_def log_call_def)
qed

lemma ensure_shown_eq:
  assumes "switcher_wf s"
  shows "ensure_spinner_will_be_shown os mode s =
    bind_res (if tracked s (spinner_name s) = None then ensure_running os (spinner_process s)
              else Inr (spinner_process s))
      (\<lambda>sp. Inr (s\<lparr>spinner_process := sp, calls := calls s @
        (case tracked s (spinner_name s) of
           None \<Rightarrow> []
         | Some us \<Rightarrow> (if mode = AsActive then [RaiseAndFocus us] else []) @ [Show us])\<rparr>))"
proof (cases "find_key (sessions s) (spinner_name s)")
  case None
  then show ?thesis by (simp add: ensure_spinner_will_be_shown_def tracked_def)
next
  case (Some info)
  then obtain us where "session info = Some us" using wf_find[OF assms] by blast
  with Some show ?thesis
    by (simp add: ensure_spinner_will_be_shown_def tracked_def log_call_def)
qed

lemma tracked_update [simp]:
  "tracked (s\<lparr>calls := cs\<rparr>) n = tracked s n"
  "tracked (s\<lparr>booting := b\<rparr>) n = tracked s n"
  by (simp_all add: tracked_def)

lemma switcher_wf_update [simp]:
  "switcher_wf (s\<lparr>calls := cs\<rparr>) = switcher_wf s"
  "switcher_wf (s\<lparr>booting := b\<rparr>) = switcher_wf s"
  "switcher_wf (s\<lparr>spinner_process := sp\<rparr>) = switcher_wf s"
  "switcher_wf (s\<lparr>active_name := n\<rparr>) = switcher_wf s"
  "switcher_wf (s\<lparr>next_name := n\<rparr>) = switcher_wf s"
  "switcher_wf (s\<lparr>spinner_name := n\<rparr>) = switcher_wf s"
  "switcher_wf (s\<lparr>has_active_outputs := b\<rparr>) = switcher_wf s"
  by (simp_all add: switcher_wf_def)

lemmas plan_defs = planned_state_def display_plan_def active_calls_def next_calls_def
  spinner_calls_def spinner_mode_def active_shown_def spinner_update_def

text \<open>What follows the test of the flag does what the plan says of a state with outputs active,
  whatever the flag has become.\<close>

lemma with_outputs_eq:
  assumes wf: "switcher_wf s"
  shows "update_with_outputs os s =
    bind_res (spinner_update os (s\<lparr>has_active_outputs := True\<rparr>)) (\<lambda>sp.
      Inr ((planned_state sp (s\<lparr>has_active_outputs := True\<rparr>))\<lparr>has_active_outputs := has_active_outputs s\<rparr>))"
proof -
  have same [simp]: "is_session_ready_for_display n (s\<lparr>has_active_outputs := b\<rparr>) =
      is_session_ready_for_display n s" "tracked (s\<lparr>has_active_outputs := b\<rparr>) n = tracked s n"
    "hides q (s\<lparr>has_active_outputs := b\<rparr>) = hides q s" for n b q
    by (simp_all add: is_session_ready_for_display_def tracked_def hides_def)
  note simps = update_with_outputs_def hide_uninteresting_eq[OF wf] Let_def
    show_session_eq hide_session_eq ensure_shown_eq wf is_session_expected_to_become_ready_def
    ensure_spinner_is_not_running_def plan_defs
  show ?thesis
  proof (cases "is_session_ready_for_display (active_name s) s")
    case active: True
    show ?thesis
      by (cases "is_session_ready_for_display (next_name s) s"; cases "next_name s = ''''";
          cases "booting s"; cases "active_name s = ''''"; cases "tracked s (spinner_name s)";
          cases "ensure_running os (spinner_process s)")
        (use active in \<open>simp_all add: simps switcher.equality del: bind_res_eq_Inr\<close>)
  next
    case active: False
    show ?thesis
      by (cases "is_session_ready_for_display (next_name s) s"; cases "active_name s = ''''";
          cases "tracked s (spinner_name s)";
          cases "ensure_running os (spinner_process s)")
        (use active in \<open>simp_all add: simps switcher.equality del: bind_res_eq_Inr\<close>)
  qed
qed

lemma update_refines_plan:
  assumes wf: "switcher_wf s"
  shows "update_displayed_sessions os s =
           bind_res (spinner_update os s) (\<lambda>sp. Inr (planned_state sp s))"
proof (cases "has_active_outputs s")
  case False
  then show ?thesis
    by (simp add: update_displayed_sessions_def hide_all_eq[OF wf] planned_state_def
        display_plan_def spinner_update_def)
next
  case True
  then have same: "s\<lparr>has_active_outputs := True\<rparr> = s"
    "(planned_state sp s)\<lparr>has_active_outputs := True\<rparr> = planned_state sp s" for sp
    by (simp_all add: planned_state_def)
  have "update_with_outputs os s = bind_res (spinner_update os s) (\<lambda>sp. Inr (planned_state sp s))"
    using with_outputs_eq[OF wf, of os] unfolding same(1) by (simp only: True same(2))
  then show ?thesis using True by (simp add: update_displayed_sessions_def)
qed

end
