(* ===== verification/Switcher_Runs.thy ===== *)
theory Switcher_Runs
  imports Switcher_Spec
begin

text \<open>
  Runs of the session switcher. Every operation either ignores its argument or prepares the state
  and updates the display; the contract \<open>guarded_component\<close> then holds, and what an update
  displays becomes an invariant of all runs.
\<close>

section \<open>Operations as a preparation and an update\<close>

fun prepared :: "switcher_op \<Rightarrow> switcher \<Rightarrow> switcher option" where
  "prepared (Add us pid) s =
     (let s1 = (if pid = spinner_pid (spinner_process s)
                then s\<lparr>spinner_name := session_name us\<rparr> else s)
      in Some (s1\<lparr>sessions := assign_key (session_name us) (session_info_of us) (sessions s)\<rparr>))"
| "prepared (Remove sc) s =
     (case tracked s (scene_name sc) of
        None \<Rightarrow> None
      | Some us \<Rightarrow>
          if corresponds_to us (scene_id sc) then
            Some (s\<lparr>spinner_name := (if scene_name sc = spinner_name s then '''' else spinner_name s),
                    calls := calls s @ [Hide us],
                    sessions := erase_key (scene_name sc) (sessions s)\<rparr>)
          else None)"
| "prepared (SetActiveSession n) s = Some (s\<lparr>active_name := n\<rparr>)"
| "prepared (SetNextSession n) s = Some (s\<lparr>next_name := n\<rparr>)"
| "prepared (MarkReady sc) s =
     Some (s\<lparr>sessions := map (\<lambda>(k, info).
          (k, case session info of
                Some us \<Rightarrow> if corresponds_to us sc then info\<lparr>ready := True\<rparr> else info
              | None \<Rightarrow> info)) (sessions s)\<rparr>)"
| "prepared (ActiveOutputsChanged ao) s = Some (s\<lparr>has_active_outputs := any_active ao\<rparr>)"

lemma step_prepared:
  "switcher_step (os, op) s =
     (case prepared op s of None \<Rightarrow> Inr s | Some t \<Rightarrow> update_displayed_sessions os t)"
  by (cases op)
    (auto simp: add_def remove_def set_active_session_def set_next_session_def mark_ready_def
      active_outputs_handler_def Let_def tracked_def log_call_def pid_of_spinner_def
      split: option.splits)

lemma tracked_ok_of [simp]: "tracked_ok (session_name us) (session_info_of us)"
  by (simp add: tracked_ok_def session_info_of_def)

lemma switcher_wf_map_values:
  assumes "switcher_wf s" and "\<And>k info. session (f k info) = session info"
  shows "switcher_wf (s\<lparr>sessions := map (\<lambda>(k, info). (k, f k info)) (sessions s)\<rparr>)"
  using assms by (auto simp: switcher_wf_def map_ordered_map_values tracked_ok_def)

lemma prepared_wf:
  assumes "switcher_wf s" "prepared op s = Some t"
  shows "switcher_wf t"
proof (cases op)
  case (Add us pid)
  with assms show ?thesis
    using std_map.ks_all_put[of "sessions s" tracked_ok "session_name us" "session_info_of us"]
      std_map.valid_put
    by (auto simp: switcher_wf_def Let_def)
next
  case (Remove sc)
  with assms show ?thesis
    using std_map.ks_all_del[of "sessions s" tracked_ok "scene_name sc"] std_map.valid_del
    by (auto simp: switcher_wf_def split: option.splits if_splits)
next
  case (MarkReady sc)
  with assms show ?thesis
    by (auto intro!: switcher_wf_map_values split: option.splits)
qed (use assms in auto)

lemma planned_wf [simp]: "switcher_wf (planned_state sp s) = switcher_wf s"
  by (simp add: planned_state_def)

lemma spinner_update_returns:
  assumes "fork_result os \<noteq> 0"
  obtains sp where "spinner_update os s = Inr sp"
proof -
  obtain sp where "ensure_running os (spinner_process s) = Inr sp"
    using ext_spinner.sp_ensure_returns[of os "spinner_process s"] assms by blast
  then have "\<exists>sp. spinner_update os s = Inr sp" by (simp add: spinner_update_def)
  then show ?thesis using that by blast
qed

lemma update_returns:
  assumes "switcher_wf s" "fork_result os \<noteq> 0"
  obtains sp where "spinner_update os s = Inr sp"
    and "update_displayed_sessions os s = Inr (planned_state sp s)"
  using spinner_update_returns[OF assms(2), of s] update_refines_plan[OF assms(1), of os] by force

abbreviation parent_side :: "spinner_os \<times> switcher_op \<Rightarrow> bool" where
  "parent_side \<equiv> \<lambda>(os, op). fork_result os \<noteq> 0"

interpretation switcher: guarded_component switcher_step switcher_wf parent_side
proof unfold_locales
  fix s and x :: "spinner_os \<times> switcher_op"
  assume wf: "switcher_wf s" and adm: "parent_side x"
  obtain os op where x: "x = (os, op)" by force
  show "\<exists>s'. switcher_step x s = Inr s' \<and> switcher_wf s'"
  proof (cases "prepared op s")
    case None
    with wf show ?thesis by (simp add: x step_prepared)
  next
    case (Some t)
    then have "switcher_wf t" using prepared_wf wf by blast
    moreover obtain sp where "update_displayed_sessions os t = Inr (planned_state sp t)"
      using update_returns[of t os] \<open>switcher_wf t\<close> adm x by auto
    ultimately show ?thesis using Some by (simp add: x step_prepared)
  qed
qed

lemma switcher_wf_new [simp]: "switcher_wf (new_switcher sp)"
  by (simp add: switcher_wf_def new_switcher_def)

text \<open>What an update establishes, and ignored operations keep, holds after every run.\<close>

lemma run_establishes:
  assumes init: "switcher_wf s" "Q s"
    and update: "\<And>os t sp. switcher_wf t \<Longrightarrow> spinner_update os t = Inr sp \<Longrightarrow>
                   fork_result os \<noteq> 0 \<Longrightarrow> Q (planned_state sp t)"
    and ops: "list_all parent_side ops" and run: "for_each switcher_step ops s = Inr s'"
  shows "Q s'"
proof (rule switcher.gc_run_preserves[where P = Q, OF _ init ops run])
  fix x and u u' :: switcher
  assume wf: "switcher_wf u" and adm: "parent_side x" and q: "Q u"
    and step: "switcher_step x u = Inr u'"
  obtain os op where x: "x = (os, op)" by force
  show "Q u'"
  proof (cases "prepared op u")
    case None
    with q step show ?thesis by (simp add: x step_prepared)
  next
    case (Some t)
    then have "switcher_wf t" using prepared_wf wf by blast
    moreover have os: "fork_result os \<noteq> 0" using adm x by simp
    ultimately obtain sp where "spinner_update os t = Inr sp"
      and "update_displayed_sessions os t = Inr (planned_state sp t)"
      by (rule update_returns)
    moreover from this(2) have "u' = planned_state sp t"
      using step Some by (simp add: x step_prepared)
    ultimately show ?thesis using update \<open>switcher_wf t\<close> adm by (simp add: x)
  qed
qed

section \<open>What is visible\<close>

fun call_visibility :: "usc_session \<Rightarrow> session_call \<Rightarrow> bool \<Rightarrow> bool" where
  "call_visibility us (Show u) v \<longleftrightarrow> u = us \<or> v"
| "call_visibility us (Hide u) v \<longleftrightarrow> u \<noteq> us \<and> v"
| "call_visibility us (RaiseAndFocus u) v \<longleftrightarrow> v"

text \<open>A session starts invisible.\<close>

definition visible :: "session_call list \<Rightarrow> usc_session \<Rightarrow> bool" where
  "visible cs us = fold (call_visibility us) cs False"

fun call_focus :: "session_call \<Rightarrow> usc_session option \<Rightarrow> usc_session option" where
  "call_focus (RaiseAndFocus u) f = Some u"
| "call_focus (Show u) f = f"
| "call_focus (Hide u) f = f"

text \<open>The session raised and focused last.\<close>

definition focused :: "session_call list \<Rightarrow> usc_session option" where
  "focused cs = fold call_focus cs None"

lemma visible_append: "visible (cs @ ds) us = fold (call_visibility us) ds (visible cs us)"
  by (simp add: visible_def)

lemma focused_append: "focused (cs @ ds) = fold call_focus ds (focused cs)"
  by (simp add: focused_def)

lemma fold_hides_visibility:
  "fold (call_visibility us) (map (\<lambda>(k, info). Hide (the (session info))) xs) v \<longleftrightarrow>
     v \<and> us \<notin> (\<lambda>(k, info). the (session info)) ` set xs"
  by (induction xs arbitrary: v) auto

lemma hides_visibility:
  assumes wf: "switcher_wf s" and us: "tracked s n = Some us"
  shows "fold (call_visibility us) (hides p s) v \<longleftrightarrow> v \<and> \<not> p n"
proof -
  obtain info where info: "find_key (sessions s) n = Some info" "session info = Some us"
    using us by (auto simp: tracked_def bind_eq_Some_conv)
  have mem: "(n, info) \<in> set (sessions s)" using info(1) by (rule map_of_SomeD)
  have uniq: "k = n" if "(k, i) \<in> set (sessions s)" "the (session i) = us" for k i
  proof -
    have "tracked_ok k i" using wf that(1) by (auto simp: switcher_wf_def)
    then have "session_name us = k" using that(2) by (auto simp: tracked_ok_def)
    then show ?thesis using wf_tracked[OF wf us] by simp
  qed
  have "us \<in> (\<lambda>(k, info). the (session info)) ` set (filter (\<lambda>(k, _). p k) (sessions s))
      \<longleftrightarrow> p n" (is "us \<in> ?hidden \<longleftrightarrow> _")
  proof
    assume "us \<in> ?hidden"
    then obtain k i where "(k, i) \<in> set (sessions s)" "p k" "the (session i) = us" by auto
    with uniq show "p n" by blast
  next
    assume "p n"
    with mem info(2) show "us \<in> ?hidden" by (intro image_eqI[where x = "(n, info)"]) auto
  qed
  then show ?thesis by (simp add: hides_def fold_hides_visibility)
qed

lemma fold_hides_focus [simp]: "fold call_focus (hides p s) f = f"
proof -
  have "fold call_focus (map (\<lambda>(k, info). Hide (the (session info))) xs) f = f" for xs
    by (induction xs) auto
  then show ?thesis by (simp add: hides_def)
qed

lemma tracked_inj:
  "switcher_wf s \<Longrightarrow> tracked s n = Some us \<Longrightarrow> tracked s m = Some us \<Longrightarrow> n = m"
  using wf_tracked by blast

lemma active_shown_tracked:
  "active_shown s \<Longrightarrow> \<exists>us. tracked s (active_name s) = Some us"
  by (auto simp: active_shown_def elim: ready_tracked)

text \<open>Visibility after an update, for every tracked session.\<close>

definition should_be_visible :: "switcher \<Rightarrow> string \<Rightarrow> bool \<Rightarrow> bool" where
  "should_be_visible s n before \<longleftrightarrow>
     has_active_outputs s \<and>
     (if spinner_mode s \<noteq> None \<and> n = spinner_name s then True
      else if n = next_name s \<and> is_session_ready_for_display n s then active_shown s
      else if n = active_name s then active_shown s \<or> before
      else n = next_name s \<and> before)"

lemma active_calls_visibility:
  assumes "switcher_wf s" "tracked s n = Some us"
  shows "fold (call_visibility us) (active_calls s) v \<longleftrightarrow> v \<or> active_shown s \<and> n = active_name s"
  using assms active_shown_tracked[of s] tracked_inj[OF assms(1), of n us "active_name s"]
  by (auto simp: active_calls_def Let_def)

lemma next_calls_visibility:
  assumes "switcher_wf s" "tracked s n = Some us"
  shows "fold (call_visibility us) (next_calls s) v \<longleftrightarrow>
    (if n = next_name s \<and> is_session_ready_for_display n s then active_shown s else v)"
proof (cases "is_session_ready_for_display (next_name s) s")
  case True
  then obtain u where "tracked s (next_name s) = Some u" by (auto elim: ready_tracked)
  with True show ?thesis
    using assms tracked_inj[OF assms(1), of n us "next_name s"]
    by (auto simp: next_calls_def Let_def)
next
  case False
  then show ?thesis by (auto simp: next_calls_def)
qed

lemma spinner_calls_visibility:
  assumes "switcher_wf s" "tracked s n = Some us"
  shows "fold (call_visibility us) (spinner_calls s) v \<longleftrightarrow>
    v \<or> spinner_mode s \<noteq> None \<and> n = spinner_name s"
  using assms tracked_inj[OF assms(1), of n us "spinner_name s"]
  by (auto simp: spinner_calls_def split: option.splits show_mode.splits)

lemma plan_visibility:
  assumes "switcher_wf s" "tracked s n = Some us"
  shows "visible (calls (planned_state sp s)) us \<longleftrightarrow>
    should_be_visible s n (visible (calls s) us)"
  using assms
  by (auto simp: planned_state_def display_plan_def visible_append hides_visibility
      active_calls_visibility next_calls_visibility spinner_calls_visibility should_be_visible_def)

lemma plan_focus:
  "focused (calls (planned_state sp s)) =
     (if has_active_outputs s \<and> active_shown s then tracked s (active_name s)
      else if has_active_outputs s \<and> spinner_mode s = Some AsActive \<and>
              tracked s (spinner_name s) \<noteq> None
      then tracked s (spinner_name s)
      else focused (calls s))"
  using active_shown_tracked[of s]
  by (auto simp: planned_state_def display_plan_def focused_append active_calls_def next_calls_def
      spinner_calls_def spinner_mode_def Let_def split: option.splits show_mode.splits if_splits)

end
