(* ===== verification/Switcher_History.thy ===== *)
theory Switcher_History
  imports Switcher_Runs
begin

text \<open>
  What a run of the session switcher leaves behind: a session stays visible only if the update has
  a reason to show it. The exceptions come from the code's bookkeeping by name: a session that had
  the spinner's name once may have been shown without being ready, and a session whose entry was
  overwritten by another of its name is no longer known to the switcher. Both are collected along
  the run.
\<close>

section \<open>An update leaves the sessions it does not know alone\<close>

lemma plan_mentions_tracked:
  assumes "switcher_wf s" "c \<in> set (display_plan s)"
  shows "\<exists>us. c \<in> {Show us, Hide us, RaiseAndFocus us} \<and> tracked s (session_name us) = Some us"
proof -
  have h: "\<exists>us. c = Hide us \<and> tracked s (session_name us) = Some us"
    if "c \<in> set (hides p s)" for p
  proof -
    from that obtain k info where ki: "(k, info) \<in> set (sessions s)"
      and c: "c = Hide (the (session info))" by (auto simp: hides_def)
    moreover obtain us where "session info = Some us" "session_name us = k"
      using ki assms(1) by (auto simp: switcher_wf_def tracked_ok_def)
    ultimately show ?thesis using wf_entry[OF assms(1) ki] by auto
  qed
  have t: "tracked s (session_name us) = Some us" if "tracked s n = Some us" for n us
    using that wf_tracked[OF assms(1) that] by simp
  obtain a where a: "active_shown s \<Longrightarrow> tracked s (active_name s) = Some a"
    using active_shown_tracked by blast
  obtain b where b: "is_session_ready_for_display (next_name s) s \<Longrightarrow> tracked s (next_name s) = Some b"
    using ready_tracked by blast
  show ?thesis
    using assms(2) h t a b
    by (auto simp: display_plan_def active_calls_def next_calls_def spinner_calls_def Let_def
        split: if_splits option.splits show_mode.splits) (metis show_mode.exhaust)+
qed

lemma untracked_visibility_kept:
  assumes "switcher_wf s" "tracked s (session_name us) \<noteq> Some us"
  shows "visible (calls (planned_state sp s)) us = visible (calls s) us"
proof -
  have "fold (call_visibility us) cs v = v"
    if "\<And>c. c \<in> set cs \<Longrightarrow> \<exists>u. c \<in> {Show u, Hide u, RaiseAndFocus u} \<and> u \<noteq> us" for cs v
    using that by (induction cs arbitrary: v) (fastforce+)
  then show ?thesis
    using plan_mentions_tracked[OF assms(1)] assms(2)
    by (fastforce simp: planned_state_def visible_append)
qed

text \<open>What \<open>should_be_visible\<close> says, case by case.\<close>

lemma should_be_visible_meaning:
  assumes "w \<longleftrightarrow> should_be_visible s n v"
  shows "(w \<longrightarrow> has_active_outputs s \<and>
      (n = active_name s \<or> n = next_name s \<or> n = spinner_name s \<and> spinner_mode s \<noteq> None)) \<and>
    (w \<longrightarrow> n = next_name s \<longrightarrow> is_session_ready_for_display n s \<longrightarrow> n \<noteq> spinner_name s \<longrightarrow> active_shown s) \<and>
    (has_active_outputs s \<and> active_shown s \<and> is_session_ready_for_display n s \<and>
      (n = active_name s \<or> n = next_name s) \<longrightarrow> w) \<and>
    (has_active_outputs s \<and> n = spinner_name s \<and> spinner_mode s \<noteq> None \<longrightarrow> w)"
  using assms unfolding should_be_visible_def by argo

section \<open>Names and sessions collected along a run\<close>

text \<open>The names the spinner's session had, the initial empty one included.\<close>

fun spinner_names :: "(spinner_os \<times> switcher_op) list \<Rightarrow> switcher \<Rightarrow> string list" where
  "spinner_names [] s = [spinner_name s]"
| "spinner_names (x # xs) s =
     spinner_name s # (case switcher_step x s of Inl e \<Rightarrow> [] | Inr t \<Rightarrow> spinner_names xs t)"

text \<open>The tracked sessions whose entry an added session took over.\<close>

fun replaced_by :: "switcher_op \<Rightarrow> switcher \<Rightarrow> usc_session list" where
  "replaced_by (Add us pid) s = (case tracked s (session_name us) of None \<Rightarrow> [] | Some u \<Rightarrow> [u])"
| "replaced_by op s = []"

fun replaced_sessions :: "(spinner_os \<times> switcher_op) list \<Rightarrow> switcher \<Rightarrow> usc_session list" where
  "replaced_sessions [] s = []"
| "replaced_sessions ((os, op) # xs) s =
     replaced_by op s @
       (case switcher_step (os, op) s of Inl e \<Rightarrow> [] | Inr t \<Rightarrow> replaced_sessions xs t)"

section \<open>Why a session is visible\<close>

text \<open>\<open>ns\<close> and \<open>rs\<close> are the names and the sessions collected so far.\<close>

definition visible_for_reason :: "string set \<Rightarrow> usc_session set \<Rightarrow> switcher \<Rightarrow> bool" where
  "visible_for_reason ns rs s \<longleftrightarrow>
     spinner_name s \<in> ns \<and>
     (\<forall>us. visible (calls s) us \<longrightarrow> us \<notin> rs \<longrightarrow>
        tracked s (session_name us) = Some us \<and>
        (session_name us \<notin> ns \<longrightarrow>
           is_session_ready_for_display (session_name us) s \<and> \<not> booting s))"

lemma reason_more:
  "visible_for_reason ns rs s \<Longrightarrow> ns \<subseteq> ns' \<Longrightarrow> rs \<subseteq> rs' \<Longrightarrow> visible_for_reason ns' rs' s"
  by (auto simp: visible_for_reason_def)

lemma ready_lookup:
  "is_session_ready_for_display n s \<longleftrightarrow> (\<exists>i. find_key (sessions s) n = Some i \<and> session i \<noteq> None \<and> ready i)"
  by (auto simp: is_session_ready_for_display_def split: option.splits)

text \<open>Before the update the operation itself keeps the reasons.\<close>

lemma prepared_reason:
  assumes wf: "switcher_wf s" and "prepared op s = Some t" and inv: "visible_for_reason ns rs s"
  shows "visible_for_reason (insert (spinner_name t) ns) (rs \<union> set (replaced_by op s)) t"
proof (cases op)
  case (Add us pid)
  have t: "calls t = calls s" "booting t = booting s"
    "sessions t = assign_key (session_name us) (session_info_of us) (sessions s)"
    using assms(2) by (auto simp: Add Let_def split: if_splits)
  have look: "find_key (sessions t) n =
      (if n = session_name us then Some (session_info_of us) else find_key (sessions s) n)" for n
    by (simp add: t(3) std_map.lookup_put)
  then have same: "tracked t n = tracked s n"
      "is_session_ready_for_display n t = is_session_ready_for_display n s" if "n \<noteq> session_name us" for n
    using that by (simp_all add: tracked_def is_session_ready_for_display_def)
  show ?thesis
    unfolding visible_for_reason_def
  proof (intro conjI allI impI)
    fix u
    assume u: "visible (calls t) u" "u \<notin> rs \<union> set (replaced_by op s)"
    then have old: "tracked s (session_name u) = Some u"
      using inv by (auto simp: visible_for_reason_def t(1))
    have other: "session_name u \<noteq> session_name us" using old u(2) by (auto simp: Add)
    from u old other inv show "tracked t (session_name u) = Some u"
      by (simp add: same)
    assume "session_name u \<notin> insert (spinner_name t) ns"
    with u inv show "is_session_ready_for_display (session_name u) t" "\<not> booting t"
      by (auto simp: visible_for_reason_def same[OF other] t)
  qed simp
next
  case (Remove sc)
  obtain us where us: "tracked s (scene_name sc) = Some us"
    and t: "calls t = calls s @ [Hide us]" "booting t = booting s"
      "sessions t = erase_key (scene_name sc) (sessions s)"
    using assms(2) by (auto simp: Remove split: option.splits if_splits)
  have look: "find_key (sessions t) n = (if n = scene_name sc then None else find_key (sessions s) n)" for n
    using std_map.lookup_del[of "sessions s" "scene_name sc"] wf
    by (auto simp: t(3) switcher_wf_def fun_eq_iff)
  then have same: "tracked t n = tracked s n"
      "is_session_ready_for_display n t = is_session_ready_for_display n s" if "n \<noteq> scene_name sc" for n
    using that by (simp_all add: tracked_def is_session_ready_for_display_def)
  show ?thesis
    unfolding visible_for_reason_def
  proof (intro conjI allI impI)
    fix u
    assume u: "visible (calls t) u" "u \<notin> rs \<union> set (replaced_by op s)"
    then have v: "visible (calls s) u" "u \<noteq> us" by (auto simp: t visible_append)
    then have old: "tracked s (session_name u) = Some u"
      using inv u(2) by (auto simp: visible_for_reason_def)
    have other: "session_name u \<noteq> scene_name sc" using old us v(2) by auto
    from old show "tracked t (session_name u) = Some u" by (simp add: same[OF other])
    assume "session_name u \<notin> insert (spinner_name t) ns"
    with u v inv show "is_session_ready_for_display (session_name u) t" "\<not> booting t"
      by (auto simp: visible_for_reason_def same[OF other] t)
  qed simp
next
  case (MarkReady sc)
  obtain f :: "session_info \<Rightarrow> session_info" where f_def: "f = (\<lambda>info. case session info of
      Some us \<Rightarrow> if corresponds_to us sc then info\<lparr>ready := True\<rparr> else info | None \<Rightarrow> info)" by blast
  have t: "t = s\<lparr>sessions := map (\<lambda>(k, i). (k, f i)) (sessions s)\<rparr>"
    using assms(2) by (simp add: MarkReady f_def)
  have f: "session (f i) = session i" "ready i \<Longrightarrow> ready (f i)" for i
    by (auto simp: f_def split: option.splits)
  have look: "find_key (sessions t) n = map_option f (find_key (sessions s) n)" for n
    using find_key_map_values[of "\<lambda>k. f" "sessions s" n] by (simp add: t)
  have "tracked t n = tracked s n" for n
    by (cases "find_key (sessions s) n") (simp_all add: tracked_def look f(1))
  moreover have "is_session_ready_for_display n t" if "is_session_ready_for_display n s" for n
    using that f by (auto simp: ready_lookup look)
  ultimately show ?thesis using inv by (auto simp: visible_for_reason_def t)
qed (use assms in \<open>auto simp: visible_for_reason_def tracked_def is_session_ready_for_display_def\<close>)

text \<open>The update shows nothing without a reason, and hides none of the sessions it ought to show.\<close>

lemma planned_same:
  "spinner_name (planned_state sp s) = spinner_name s"
  "tracked (planned_state sp s) n = tracked s n"
  "is_session_ready_for_display n (planned_state sp s) = is_session_ready_for_display n s"
  "booting (planned_state sp s) \<longleftrightarrow> booting s \<and> \<not> (has_active_outputs s \<and> active_shown s)"
  by (auto simp: planned_state_def tracked_def is_session_ready_for_display_def)

lemma shown_reason:
  assumes "should_be_visible s n v" "n \<noteq> spinner_name s"
    and "v \<Longrightarrow> is_session_ready_for_display n s \<and> \<not> booting s"
  shows "has_active_outputs s \<and> is_session_ready_for_display n s \<and> (active_shown s \<or> \<not> booting s)"
proof -
  have "has_active_outputs s" "n = next_name s \<and> is_session_ready_for_display n s \<and> active_shown s \<or>
      n = active_name s \<and> active_shown s \<or> v"
    using assms(1,2) unfolding should_be_visible_def by argo+
  moreover have "active_shown s \<Longrightarrow> is_session_ready_for_display (active_name s) s"
    by (simp add: active_shown_def)
  ultimately show ?thesis using assms(3) by blast
qed

lemma planned_reason:
  assumes wf: "switcher_wf s" and inv: "visible_for_reason ns rs s"
  shows "visible_for_reason ns rs (planned_state sp s)"
  unfolding visible_for_reason_def planned_same
proof (intro conjI allI impI)
  show "spinner_name s \<in> ns" using inv by (simp add: visible_for_reason_def)
next
  fix us
  assume us: "visible (calls (planned_state sp s)) us" "us \<notin> rs"
  have why: "tracked s (session_name us) = Some us \<and> (session_name us \<notin> ns \<longrightarrow>
      is_session_ready_for_display (session_name us) s \<and> \<not> booting s)" if "visible (calls s) us"
    using inv us(2) that by (simp add: visible_for_reason_def)
  then show tr: "tracked s (session_name us) = Some us"
    using untracked_visibility_kept[OF wf, of us sp] us(1) by blast
  assume "session_name us \<notin> ns"
  moreover from this have "session_name us \<noteq> spinner_name s"
    using inv by (auto simp: visible_for_reason_def)
  moreover have "should_be_visible s (session_name us) (visible (calls s) us)"
    using plan_visibility[OF wf tr] us(1) by blast
  ultimately have "has_active_outputs s \<and> is_session_ready_for_display (session_name us) s \<and>
      (active_shown s \<or> \<not> booting s)"
    using why by (intro shown_reason[where v = "visible (calls s) us"]) blast+
  then show "is_session_ready_for_display (session_name us) s"
    and "\<not> (booting s \<and> \<not> (has_active_outputs s \<and> active_shown s))" by blast+
qed

lemma step_reason:
  assumes wf: "switcher_wf s" and inv: "visible_for_reason ns rs s" and os: "fork_result os \<noteq> 0"
    and step: "switcher_step (os, op) s = Inr s'"
  shows "visible_for_reason (insert (spinner_name s') ns) (rs \<union> set (replaced_by op s)) s'"
proof (cases "prepared op s")
  case None
  then have "s' = s" using step by (simp add: step_prepared)
  with inv show ?thesis by (auto intro: reason_more)
next
  case (Some t)
  have t: "switcher_wf t" using prepared_wf[OF wf Some] .
  obtain sp where "s' = planned_state sp t"
    using update_returns[OF t os] step Some by (auto simp: step_prepared)
  with planned_reason[OF t prepared_reason[OF wf Some inv]] show ?thesis
    by (simp add: planned_same)
qed

lemma run_reason:
  assumes "switcher_wf s" "visible_for_reason ns rs s" "list_all parent_side ops"
    and "for_each switcher_step ops s = Inr s'"
  shows "visible_for_reason (ns \<union> set (spinner_names ops s)) (rs \<union> set (replaced_sessions ops s)) s'"
  using assms
proof (induction ops arbitrary: s ns rs)
  case Nil
  then show ?case by (auto intro: reason_more)
next
  case (Cons x ops)
  obtain os op where x: "x = (os, op)" by force
  obtain s1 where s1: "switcher_step (os, op) s = Inr s1" "for_each switcher_step ops s1 = Inr s'"
    using Cons.prems(4) by (auto simp: x)
  have os: "fork_result os \<noteq> 0" "list_all parent_side ops" using Cons.prems(3) by (simp_all add: x)
  have "switcher_wf s1"
    using switcher.gc_step_wf[OF Cons.prems(1) _ s1(1)] os(1) by simp
  from Cons.IH[OF this step_reason[OF Cons.prems(1,2) os(1) s1(1)] os(2) s1(2)] show ?case
    by (rule reason_more) (cases ops; auto simp: x s1(1))+
qed

lemma new_reason: "visible_for_reason {''''} {} (new_switcher sp)"
  by (simp add: visible_for_reason_def new_switcher_def visible_def)

end
