(* ===== verification/Switcher_Props.thy ===== *)
theory Switcher_Props
  imports Switcher_History
begin

text \<open>
  The properties of the session switcher, over the runs of \<open>Switcher_Runs\<close>: no operation faults,
  what is displayed and focused after any run, when booting ends and when the spinner runs.
\<close>

section \<open>An example run\<close>

text \<open>A boot: the greeter and a user session appear, are chosen and become ready; the spinner
  runs until the active session is displayed.\<close>

definition demo_greeter :: usc_session where
  "demo_greeter = \<lparr>scene_session = \<lparr>scene_id = 1, scene_name = ''greeter'', process_id = 1000\<rparr>\<rparr>"

definition demo_user :: usc_session where
  "demo_user = \<lparr>scene_session = \<lparr>scene_id = 2, scene_name = ''user'', process_id = 1001\<rparr>\<rparr>"

definition demo_spinner_session :: usc_session where
  "demo_spinner_session =
     \<lparr>scene_session = \<lparr>scene_id = 3, scene_name = ''spinner'', process_id = 77\<rparr>\<rparr>"

definition demo_os :: spinner_os where
  "demo_os = \<lparr>fork_result = 77, exec_succeeds = True\<rparr>"

definition demo_start :: switcher where
  "demo_start = new_switcher (new_external_spinner ''/usr/bin/spinner'' ''/tmp/mir_socket'')"

definition demo_boot :: "(spinner_os \<times> switcher_op) list" where
  "demo_boot =
     [(demo_os, SetActiveSession ''greeter''), (demo_os, SetNextSession ''user''),
      (demo_os, Add demo_spinner_session 77), (demo_os, Add demo_greeter 1000),
      (demo_os, Add demo_user 1001), (demo_os, MarkReady 1)]"

definition demo_booting :: switcher where
  "demo_booting = projr (for_each switcher_step demo_boot demo_start)"

definition demo_booted :: switcher where
  "demo_booted = projr (switcher_step (demo_os, MarkReady 2) demo_booting)"

lemma demo_boot_parent: "list_all parent_side demo_boot"
  by (simp add: demo_boot_def demo_os_def)

lemma demo_boot_run: "for_each switcher_step demo_boot demo_start = Inr demo_booting"
  by code_simp

lemma demo_boot_run2:
  "for_each switcher_step (demo_boot @ [(demo_os, MarkReady 2)]) demo_start = Inr demo_booted"
  by code_simp

section \<open>No operation faults\<close>

text \<open>
  C1. In the parent process, any sequence of the switcher's operations, with any sessions, names,
  readiness marks and output counts in any order, returns normally: no call goes through a null
  session pointer (the entries \<open>sessions[name]\<close> would create are never reached), and the map of
  tracked sessions stays ordered with every entry filed under its session's own name.
\<close>

theorem switcher_never_faults:
  assumes "list_all (\<lambda>(os, op). fork_result os \<noteq> 0) ops"
  shows "\<exists>s'. for_each switcher_step ops (new_switcher sp) = Inr s' \<and> switcher_wf s'"
  using switcher.gc_run_returns assms by simp

theorem switcher_never_faults_witness:
  "\<exists>s'. for_each switcher_step demo_boot demo_start = Inr s' \<and> switcher_wf s'"
  unfolding demo_start_def by (rule switcher_never_faults) (rule demo_boot_parent)

section \<open>The update implements its plan\<close>

text \<open>
  C2. From every well-formed state \<open>update_displayed_sessions\<close>, with its loops, its two guarded
  branches and its local flags, makes exactly the calls of \<open>display_plan\<close> in that order, ends
  booting exactly when the active session is shown, and starts, keeps or kills the spinner process
  as \<open>spinner_update\<close> says; a failed start is the only way it does not return.
\<close>

theorem update_displayed_sessions_refines:
  assumes "switcher_wf s"
  shows "update_displayed_sessions os s =
           bind_res (spinner_update os s) (\<lambda>sp. Inr (planned_state sp s))"
  using assms by (rule update_refines_plan)

theorem update_displayed_sessions_refines_witness:
  "update_displayed_sessions demo_os demo_start =
     bind_res (spinner_update demo_os demo_start) (\<lambda>sp. Inr (planned_state sp demo_start))"
  by (rule update_displayed_sessions_refines) (simp add: demo_start_def)

section \<open>What is displayed after any run\<close>

lemma planned_fields [simp]:
  "has_active_outputs (planned_state sp s) = has_active_outputs s"
  "active_name (planned_state sp s) = active_name s"
  "next_name (planned_state sp s) = next_name s"
  "spinner_name (planned_state sp s) = spinner_name s"
  "spinner_process (planned_state sp s) = sp"
  "tracked (planned_state sp s) = tracked s"
  "is_session_ready_for_display n (planned_state sp s) = is_session_ready_for_display n s"
  "booting (planned_state sp s) \<longleftrightarrow> booting s \<and> \<not> (has_active_outputs s \<and> active_shown s)"
  by (auto simp: planned_state_def tracked_def is_session_ready_for_display_def)

lemma planned_active_shown [simp]:
  "has_active_outputs s \<Longrightarrow> active_shown (planned_state sp s) = active_shown s"
  by (auto simp: active_shown_def)

lemma planned_spinner_mode [simp]:
  "has_active_outputs s \<Longrightarrow> spinner_mode (planned_state sp s) = spinner_mode s"
  by (simp add: spinner_mode_def)

lemma tracked_new [simp]: "tracked (new_switcher sp) n = None"
  by (simp add: tracked_def new_switcher_def)

lemma update_displays:
  assumes ops: "list_all parent_side ops" and run: "for_each switcher_step ops (new_switcher sp) = Inr s"
  shows "\<forall>n us. tracked s n = Some us \<longrightarrow>
    (visible (calls s) us \<longrightarrow> has_active_outputs s \<and>
      (n = active_name s \<or> n = next_name s \<or> n = spinner_name s \<and> spinner_mode s \<noteq> None)) \<and>
    (visible (calls s) us \<longrightarrow> n = next_name s \<longrightarrow> is_session_ready_for_display n s \<longrightarrow>
      n \<noteq> spinner_name s \<longrightarrow> active_shown s) \<and>
    (has_active_outputs s \<and> active_shown s \<and> is_session_ready_for_display n s \<and>
      (n = active_name s \<or> n = next_name s) \<longrightarrow> visible (calls s) us) \<and>
    (has_active_outputs s \<and> n = spinner_name s \<and> spinner_mode s \<noteq> None \<longrightarrow> visible (calls s) us)"
    (is "?Q s")
proof (rule run_establishes[where Q = ?Q, OF _ _ _ ops run])
  fix os t sp'
  assume wf: "switcher_wf t"
  show "?Q (planned_state sp' t)"
  proof (intro allI impI)
    fix n us
    assume "tracked (planned_state sp' t) n = Some us"
    then have "visible (calls (planned_state sp' t)) us \<longleftrightarrow> should_be_visible t n (visible (calls t) us)"
      using plan_visibility[OF wf] by simp
    from should_be_visible_meaning[OF this]
    show "(visible (calls (planned_state sp' t)) us \<longrightarrow> has_active_outputs (planned_state sp' t) \<and>
      (n = active_name (planned_state sp' t) \<or> n = next_name (planned_state sp' t) \<or>
       n = spinner_name (planned_state sp' t) \<and> spinner_mode (planned_state sp' t) \<noteq> None)) \<and>
    (visible (calls (planned_state sp' t)) us \<longrightarrow> n = next_name (planned_state sp' t) \<longrightarrow>
      is_session_ready_for_display n (planned_state sp' t) \<longrightarrow>
      n \<noteq> spinner_name (planned_state sp' t) \<longrightarrow> active_shown (planned_state sp' t)) \<and>
    (has_active_outputs (planned_state sp' t) \<and> active_shown (planned_state sp' t) \<and>
      is_session_ready_for_display n (planned_state sp' t) \<and>
      (n = active_name (planned_state sp' t) \<or> n = next_name (planned_state sp' t)) \<longrightarrow>
      visible (calls (planned_state sp' t)) us) \<and>
    (has_active_outputs (planned_state sp' t) \<and> n = spinner_name (planned_state sp' t) \<and>
      spinner_mode (planned_state sp' t) \<noteq> None \<longrightarrow> visible (calls (planned_state sp' t)) us)"
      by (cases "has_active_outputs t") simp_all
  qed
qed simp_all

text \<open>
  C9. After any run, a tracked session is visible only with an output active and only if it is the
  active one, the next one, or the spinner's while the spinner stands in for an expected session.
  More exactly, a session whose name never was the spinner's, and that is none of the sessions whose
  entry another of the same name took over, is visible if and only if an output is active, it is the
  active or the next session, it is ready, and the active session may be shown (it is ready, and
  booting is over or the next session is ready or none is expected). The spinner's session is
  visible whenever it stands in. A visible session the switcher no longer tracks is one of those
  taken over (which the code never hides).
\<close>

theorem only_wanted_sessions_displayed:
  assumes "list_all (\<lambda>(os, op). fork_result os \<noteq> 0) ops"
    and "for_each switcher_step ops (new_switcher sp) = Inr s"
  shows "(\<forall>n us. tracked s n = Some us \<longrightarrow>
      (visible (calls s) us \<longrightarrow> has_active_outputs s \<and>
         (n = active_name s \<or> n = next_name s \<or> n = spinner_name s \<and> spinner_mode s \<noteq> None)) \<and>
      (n \<notin> set (spinner_names ops (new_switcher sp)) \<and> us \<notin> set (replaced_sessions ops (new_switcher sp)) \<longrightarrow>
         (visible (calls s) us \<longleftrightarrow> has_active_outputs s \<and> (n = active_name s \<or> n = next_name s) \<and>
            is_session_ready_for_display n s \<and> active_shown s)) \<and>
      (has_active_outputs s \<and> n = spinner_name s \<and> spinner_mode s \<noteq> None \<longrightarrow> visible (calls s) us)) \<and>
    (\<forall>us. visible (calls s) us \<and> tracked s (session_name us) \<noteq> Some us \<longrightarrow>
       us \<in> set (replaced_sessions ops (new_switcher sp)))"
proof -
  have wf: "switcher_wf s" by (rule switcher.gc_run_wf[OF switcher_wf_new assms])
  have "visible_for_reason ({''''} \<union> set (spinner_names ops (new_switcher sp)))
      ({} \<union> set (replaced_sessions ops (new_switcher sp))) s"
    by (rule run_reason[OF switcher_wf_new new_reason assms])
  moreover have "'''' \<in> set (spinner_names ops (new_switcher sp))"
    by (cases ops) (simp_all add: new_switcher_def)
  ultimately have reason: "visible_for_reason (set (spinner_names ops (new_switcher sp)))
      (set (replaced_sessions ops (new_switcher sp))) s"
    by (simp add: insert_absorb)
  note shown = update_displays[OF assms, rule_format]
  have exact: "visible (calls s) us \<longleftrightarrow> has_active_outputs s \<and> (n = active_name s \<or> n = next_name s) \<and>
      is_session_ready_for_display n s \<and> active_shown s"
    if "tracked s n = Some us" "n \<notin> set (spinner_names ops (new_switcher sp))"
      "us \<notin> set (replaced_sessions ops (new_switcher sp))" for n us
  proof
    assume v: "visible (calls s) us"
    have "session_name us = n" using wf_tracked[OF wf that(1)] .
    with reason v that have "is_session_ready_for_display n s" "\<not> booting s" "n \<noteq> spinner_name s"
      by (auto simp: visible_for_reason_def)
    with shown[OF that(1)] v show "has_active_outputs s \<and> (n = active_name s \<or> n = next_name s) \<and>
      is_session_ready_for_display n s \<and> active_shown s"
      by (auto simp: active_shown_def)
  qed (use shown[OF that(1)] in blast)
  have "us \<in> set (replaced_sessions ops (new_switcher sp))"
    if "visible (calls s) us" "tracked s (session_name us) \<noteq> Some us" for us
    using reason that by (auto simp: visible_for_reason_def)
  with shown exact show ?thesis by blast
qed

text \<open>At the end of the demonstration's boot the user's session is visible behind the greeter's.\<close>

theorem only_wanted_sessions_displayed_witness:
  "visible (calls demo_booted) demo_user \<and> \<not> visible (calls demo_booted) demo_spinner_session \<and>
   ''user'' \<notin> set (spinner_names (demo_boot @ [(demo_os, MarkReady 2)]) demo_start)"
proof -
  have ops: "list_all parent_side (demo_boot @ [(demo_os, MarkReady 2)])"
    using demo_boot_parent by (simp add: demo_os_def)
  note shown = only_wanted_sessions_displayed[OF ops demo_boot_run2[unfolded demo_start_def], folded demo_start_def]
  have tr: "tracked demo_booted ''user'' = Some demo_user"
    "tracked demo_booted ''spinner'' = Some demo_spinner_session" by code_simp+
  have names: "''user'' \<notin> set (spinner_names (demo_boot @ [(demo_os, MarkReady 2)]) demo_start)"
    "demo_user \<notin> set (replaced_sessions (demo_boot @ [(demo_os, MarkReady 2)]) demo_start)" by code_simp+
  have "has_active_outputs demo_booted" "next_name demo_booted = ''user''" "active_name demo_booted = ''greeter''"
    "is_session_ready_for_display ''user'' demo_booted" "active_shown demo_booted"
    "spinner_mode demo_booted = None" by code_simp+
  with shown tr names show ?thesis by auto
qed

lemma run_active_displayed:
  assumes "list_all parent_side ops" and "for_each switcher_step ops (new_switcher sp) = Inr s"
    and "has_active_outputs s" "active_shown s"
  obtains a where "tracked s (active_name s) = Some a" and "visible (calls s) a"
proof -
  let ?Q = "\<lambda>s. has_active_outputs s \<longrightarrow> active_shown s \<longrightarrow>
    (\<exists>a. tracked s (active_name s) = Some a \<and> visible (calls s) a)"
  have "?Q s"
  proof (rule run_establishes[where Q = ?Q, OF _ _ _ assms(1,2)])
    show "?Q (new_switcher sp)"
      by (simp add: active_shown_def is_session_ready_for_display_def new_switcher_def)
  next
    fix os t sp'
    assume wf: "switcher_wf t"
    show "?Q (planned_state sp' t)"
    proof (intro impI)
      assume "has_active_outputs (planned_state sp' t)" "active_shown (planned_state sp' t)"
      then have on: "has_active_outputs t" "active_shown t" by simp_all
      then obtain a where a: "tracked t (active_name t) = Some a"
        using active_shown_tracked by blast
      have "visible (calls (planned_state sp' t)) a"
        using on plan_visibility[OF wf a, of sp'] by (simp add: should_be_visible_def)
      with a show "\<exists>a. tracked (planned_state sp' t) (active_name (planned_state sp' t)) = Some a \<and>
        visible (calls (planned_state sp' t)) a" by auto
    qed
  qed simp_all
  with assms(3,4) that show ?thesis by blast
qed

text \<open>
  After any run, a ready next session is displayed exactly when the active session is ready and
  allowed to show, and then the active session is displayed too: the next session never appears on
  its own and never lags behind. (A next session that is also the spinner's follows the spinner's
  rule instead.)
\<close>

theorem next_displayed_iff_active_displayed:
  assumes "list_all (\<lambda>(os, op). fork_result os \<noteq> 0) ops"
    and "for_each switcher_step ops (new_switcher sp) = Inr s"
    and "has_active_outputs s" and "next_name s \<noteq> spinner_name s"
    and "is_session_ready_for_display (next_name s) s" and "tracked s (next_name s) = Some us"
  shows "(visible (calls s) us \<longleftrightarrow> active_shown s) \<and>
    (visible (calls s) us \<longrightarrow> (\<exists>a. tracked s (active_name s) = Some a \<and> visible (calls s) a))"
proof -
  let ?Q = "\<lambda>s. \<forall>us. has_active_outputs s \<longrightarrow> next_name s \<noteq> spinner_name s \<longrightarrow>
    is_session_ready_for_display (next_name s) s \<longrightarrow> tracked s (next_name s) = Some us \<longrightarrow>
    (visible (calls s) us \<longleftrightarrow> active_shown s)"
  have "?Q s"
  proof (rule run_establishes[where Q = ?Q, OF _ _ _ assms(1,2)])
    fix os t sp'
    assume wf: "switcher_wf t"
    show "?Q (planned_state sp' t)"
    proof (intro allI impI)
      fix us
      assume "has_active_outputs (planned_state sp' t)"
        and "next_name (planned_state sp' t) \<noteq> spinner_name (planned_state sp' t)"
        and "is_session_ready_for_display (next_name (planned_state sp' t)) (planned_state sp' t)"
        and "tracked (planned_state sp' t) (next_name (planned_state sp' t)) = Some us"
      then show "visible (calls (planned_state sp' t)) us \<longleftrightarrow> active_shown (planned_state sp' t)"
        using plan_visibility[OF wf, of "next_name t" us sp'] by (simp add: should_be_visible_def)
    qed
  qed simp_all
  then have "visible (calls s) us \<longleftrightarrow> active_shown s" using assms(3-6) by blast
  with run_active_displayed[OF assms(1-3)] show ?thesis by blast
qed

theorem next_displayed_iff_active_displayed_witness:
  "tracked demo_booted ''user'' = Some demo_user \<and> visible (calls demo_booted) demo_user \<and>
   (\<exists>a. tracked demo_booted (active_name demo_booted) = Some a \<and> visible (calls demo_booted) a)"
proof -
  have ops: "list_all parent_side (demo_boot @ [(demo_os, MarkReady 2)])"
    using demo_boot_parent by (simp add: demo_os_def)
  have tr: "tracked demo_booted (next_name demo_booted) = Some demo_user" by code_simp
  have "has_active_outputs demo_booted" "next_name demo_booted \<noteq> spinner_name demo_booted"
    "is_session_ready_for_display (next_name demo_booted) demo_booted"
    "visible (calls demo_booted) demo_user" by code_simp+
  moreover have "tracked demo_booted ''user'' = Some demo_user" by code_simp
  ultimately show ?thesis
    using next_displayed_iff_active_displayed[OF ops demo_boot_run2[unfolded demo_start_def] _ _ _ tr]
    by blast
qed

section \<open>The spinner process\<close>

text \<open>What an update leaves recorded of the process.\<close>

lemma spinner_update_effect:
  assumes "spinner_update os s = Inr sp" "fork_result os \<noteq> 0"
  shows "executable sp = executable (spinner_process s)"
    and "(if \<not> has_active_outputs s then sp = spinner_process s
      else if spinner_mode s = None then spinner_pid sp = 0
      else if tracked s (spinner_name s) = None then
        spinner_pid sp \<noteq> 0 \<longleftrightarrow> spinner_pid (spinner_process s) \<noteq> 0 \<or> executable sp \<noteq> ''''
      else sp = spinner_process s)"
  using assms by (auto simp: spinner_update_def ensure_running_def log_os_call_def kill_def Let_def split: if_splits)

lemma prepared_process: "prepared op s = Some t \<Longrightarrow> spinner_process t = spinner_process s"
  by (cases op) (auto simp: Let_def split: option.splits if_splits)

text \<open>A property of the process that an update keeps is kept by every run of the switcher.\<close>

lemma run_process:
  assumes update: "\<And>os t p. spinner_update os t = Inr p \<Longrightarrow> fork_result os \<noteq> 0 \<Longrightarrow>
      P (spinner_process t) \<Longrightarrow> P p"
    and init: "switcher_wf s" "P (spinner_process s)"
    and ops: "list_all parent_side ops" and run: "for_each switcher_step ops s = Inr s'"
  shows "P (spinner_process s')"
proof (rule switcher.gc_run_preserves[where P = "\<lambda>s. P (spinner_process s)", OF _ init ops run])
  fix x and u u' :: switcher
  assume u: "switcher_wf u" "parent_side x" "P (spinner_process u)" "switcher_step x u = Inr u'"
  obtain os op where x: "x = (os, op)" by force
  show "P (spinner_process u')"
  proof (cases "prepared op u")
    case None
    with u show ?thesis by (simp add: x step_prepared)
  next
    case (Some t)
    have t: "switcher_wf t" using prepared_wf[OF u(1) Some] .
    moreover have os: "fork_result os \<noteq> 0" using u(2) x by simp
    ultimately obtain p where "spinner_update os t = Inr p" "u' = planned_state p t"
      using update_returns[of t os] u(4) Some by (auto simp: x step_prepared)
    with update[OF this(1) os] u(3) prepared_process[OF Some] show ?thesis by simp
  qed
qed

text \<open>
  C10. After any run with an active output: if the spinner is not to stand in for a session, the
  switcher has no spinner process (none was started, or it was sent SIGTERM). If it is to stand in,
  its session is visible when it has one; and when it has none, a process has been started, and not
  yet been sent SIGTERM, exactly if a spinner program is configured. (A spinner whose session is
  still there is not started again; whether a process that was started has since died the switcher
  does not know.)
\<close>

theorem spinner_started_when_needed:
  assumes "list_all (\<lambda>(os, op). fork_result os \<noteq> 0) ops"
    and "for_each switcher_step ops (new_switcher sp) = Inr s"
    and "spinner_pid sp = 0" and "has_active_outputs s"
  shows "if spinner_mode s = None then spinner_pid (spinner_process s) = 0
    else case tracked s (spinner_name s) of
        None \<Rightarrow> spinner_pid (spinner_process s) \<noteq> 0 \<longleftrightarrow> executable sp \<noteq> ''''
      | Some us \<Rightarrow> visible (calls s) us"
proof -
  let ?P = "\<lambda>p. executable p = executable sp \<and> (executable sp = '''' \<longrightarrow> spinner_pid p = 0)"
  have P: "?P (spinner_process s)"
  proof (rule run_process[where P = ?P, OF _ switcher_wf_new _ assms(1,2)])
    fix os t p
    assume "spinner_update os t = Inr p" "fork_result os \<noteq> 0" "?P (spinner_process t)"
    with spinner_update_effect[OF this(1,2)] show "?P p" by (auto split: if_splits)
  qed (use assms(3) in \<open>simp add: new_switcher_def\<close>)
  let ?Q = "\<lambda>s. has_active_outputs s \<longrightarrow>
    (spinner_mode s = None \<longrightarrow> spinner_pid (spinner_process s) = 0) \<and>
    (spinner_mode s \<noteq> None \<and> tracked s (spinner_name s) = None \<and> executable (spinner_process s) \<noteq> '''' \<longrightarrow>
      spinner_pid (spinner_process s) \<noteq> 0)"
  have "?Q s"
  proof (rule run_establishes[where Q = ?Q, OF _ _ _ assms(1,2)])
    show "?Q (new_switcher sp)"
      using assms(3) by (simp add: spinner_mode_def active_shown_def new_switcher_def
          is_session_ready_for_display_def)
  next
    fix os t sp'
    assume "switcher_wf t" and upd: "spinner_update os t = Inr sp'" "fork_result os \<noteq> 0"
    show "?Q (planned_state sp' t)" using spinner_update_effect[OF upd] by (auto split: if_splits)
  qed simp_all
  with P assms(4) update_displays[OF assms(1,2)] show ?thesis by (auto split: option.splits)
qed

text \<open>Before any session is there the spinner is started, and at the end of the boot it is stopped.\<close>

theorem spinner_started_when_needed_witness:
  "(\<exists>s. for_each switcher_step [(demo_os, SetActiveSession ''greeter'')] demo_start = Inr s \<and>
     spinner_pid (spinner_process s) \<noteq> 0) \<and>
   spinner_pid (spinner_process demo_booted) = 0"
proof -
  have ops: "list_all parent_side (demo_boot @ [(demo_os, MarkReady 2)])"
    "list_all parent_side [(demo_os, SetActiveSession ''greeter'')]"
    using demo_boot_parent by (simp_all add: demo_os_def)
  have no: "spinner_pid (new_external_spinner ''/usr/bin/spinner'' ''/tmp/mir_socket'') = 0"
    "executable (new_external_spinner ''/usr/bin/spinner'' ''/tmp/mir_socket'') \<noteq> ''''"
    by (simp_all add: new_external_spinner_def)
  obtain s where s: "s = projr (for_each switcher_step [(demo_os, SetActiveSession ''greeter'')] demo_start)"
    by blast
  have run: "for_each switcher_step [(demo_os, SetActiveSession ''greeter'')] demo_start = Inr s"
    unfolding s by code_simp
  have "has_active_outputs s" "spinner_mode s \<noteq> None" "tracked s (spinner_name s) = None"
    unfolding s by code_simp+
  with spinner_started_when_needed[OF ops(2) run[unfolded demo_start_def] no(1)] no(2)
  have "spinner_pid (spinner_process s) \<noteq> 0" by simp
  moreover have "has_active_outputs demo_booted" "spinner_mode demo_booted = None" by code_simp+
  ultimately show ?thesis
    using spinner_started_when_needed[OF ops(1) demo_boot_run2[unfolded demo_start_def] no(1)] run by auto
qed

section \<open>The end of boot\<close>

lemma step_planned:
  assumes "switcher_wf s" "switcher_step (os, op) s = Inr s'"
  shows "s' = s \<or> (\<exists>t sp. prepared op s = Some t \<and> switcher_wf t \<and> s' = planned_state sp t)"
proof (cases "prepared op s")
  case None
  then show ?thesis using assms by (simp add: step_prepared)
next
  case (Some t)
  with assms have "switcher_wf t" using prepared_wf by blast
  with Some assms(2) show ?thesis
    by (auto simp: step_prepared update_refines_plan)
qed

lemma prepared_booting: "prepared op s = Some t \<Longrightarrow> booting t = booting s"
  by (cases op) (auto simp: Let_def split: option.splits if_splits)

text \<open>
  Booting never restarts, and the operation that ends it displays the active session, which is
  then ready, together with a ready next session or with no next session expected: until then
  nothing is shown in its place but the spinner.
\<close>

theorem boot_ends_with_active_displayed:
  assumes "switcher_wf s" and "switcher_step (os, op) s = Inr s'"
  shows "(booting s' \<longrightarrow> booting s) \<and>
    (booting s \<and> \<not> booting s' \<longrightarrow>
      (\<exists>a. tracked s' (active_name s') = Some a \<and> visible (calls s') a) \<and>
      is_session_ready_for_display (active_name s') s' \<and>
      (is_session_ready_for_display (next_name s') s' \<or> next_name s' = ''''))"
proof -
  consider "s' = s" | t sp where "prepared op s = Some t" "switcher_wf t" "s' = planned_state sp t"
    using step_planned[OF assms] by blast
  then show ?thesis
  proof cases
    case 1
    then show ?thesis by simp
  next
    case 2
    have b: "booting t = booting s" using prepared_booting[OF 2(1)] .
    show ?thesis
    proof (cases "booting s \<and> \<not> booting s'")
      case True
      then have on: "has_active_outputs t" "active_shown t" using b 2(3) by auto
      obtain a where a: "tracked t (active_name t) = Some a"
        using active_shown_tracked on(2) by blast
      have "visible (calls (planned_state sp t)) a"
        using on plan_visibility[OF 2(2) a] by (simp add: should_be_visible_def)
      with a on True show ?thesis using b 2(3) by (auto simp: active_shown_def)
    qed (use b 2(3) in auto)
  qed
qed

theorem boot_ends_with_active_displayed_witness:
  "booting demo_booting \<and> \<not> booting demo_booted \<and>
   (\<exists>a. tracked demo_booted (active_name demo_booted) = Some a \<and> visible (calls demo_booted) a)"
proof -
  have "switcher_wf demo_booting"
    using switcher.gc_run_wf[OF _ demo_boot_parent demo_boot_run] by (simp add: demo_start_def)
  moreover have "switcher_step (demo_os, MarkReady 2) demo_booting = Inr demo_booted" by code_simp
  moreover have "booting demo_booting" "\<not> booting demo_booted" by code_simp+
  ultimately show ?thesis using boot_ends_with_active_displayed by blast
qed

section \<open>Input focus\<close>

text \<open>
  C28. After any run with an active output, the session raised and focused last is the active one
  when it is shown, and the spinner's when the spinner stands in for the active session and has a
  session of its own: the next session never takes the focus.
\<close>

theorem focus_follows_active:
  assumes "list_all (\<lambda>(os, op). fork_result os \<noteq> 0) ops"
    and "for_each switcher_step ops (new_switcher sp) = Inr s" and "has_active_outputs s"
  shows "(active_shown s \<longrightarrow> focused (calls s) = tracked s (active_name s)) \<and>
    (spinner_mode s = Some AsActive \<and> tracked s (spinner_name s) \<noteq> None \<longrightarrow>
       focused (calls s) = tracked s (spinner_name s))"
proof -
  let ?Q = "\<lambda>s. has_active_outputs s \<longrightarrow>
    (active_shown s \<longrightarrow> focused (calls s) = tracked s (active_name s)) \<and>
    (spinner_mode s = Some AsActive \<and> tracked s (spinner_name s) \<noteq> None \<longrightarrow>
       focused (calls s) = tracked s (spinner_name s))"
  have "?Q s"
  proof (rule run_establishes[where Q = ?Q, OF _ _ _ assms(1,2)])
    show "?Q (new_switcher sp)"
      by (simp add: active_shown_def is_session_ready_for_display_def new_switcher_def
          spinner_mode_def)
  next
    fix os t sp'
    show "?Q (planned_state sp' t)"
      by (simp add: plan_focus) (simp add: spinner_mode_def)
  qed simp_all
  then show ?thesis using assms(3) by blast
qed

theorem focus_follows_active_witness:
  "focused (calls demo_booted) = Some demo_greeter"
proof -
  have ops: "list_all parent_side (demo_boot @ [(demo_os, MarkReady 2)])"
    using demo_boot_parent by (simp add: demo_os_def)
  have "has_active_outputs demo_booted" "active_shown demo_booted"
    "tracked demo_booted (active_name demo_booted) = Some demo_greeter" by code_simp+
  then show ?thesis
    using focus_follows_active[OF ops demo_boot_run2[unfolded demo_start_def]] by simp
qed

section \<open>Removing a session\<close>

text \<open>
  Removing the tracked session of a name untracks it and leaves it hidden whatever the display
  update that follows shows, and touches no other tracked session; removing a session that is not
  the tracked one under its name, even one with the same name, does nothing.
\<close>

theorem remove_hides_and_untracks:
  assumes "switcher_wf s" and "remove os sc s = Inr s'"
  shows "(case tracked s (scene_name sc) of
      Some us \<Rightarrow>
        if corresponds_to us (scene_id sc) then
          tracked s' = (tracked s)(scene_name sc := None) \<and> \<not> visible (calls s') us
        else s' = s
    | None \<Rightarrow> s' = s)"
proof (cases "prepared (Remove sc) s")
  case None
  then show ?thesis
    using assms(2) step_prepared[of os "Remove sc" s] by (auto split: option.splits if_splits)
next
  case (Some t)
  then obtain us where us: "tracked s (scene_name sc) = Some us" "corresponds_to us (scene_id sc)"
    and t: "t = s\<lparr>spinner_name := (if scene_name sc = spinner_name s then '''' else spinner_name s),
                  calls := calls s @ [Hide us],
                  sessions := erase_key (scene_name sc) (sessions s)\<rparr>"
    by (auto split: option.splits if_splits)
  have wf: "switcher_wf t" using prepared_wf[OF assms(1) Some] .
  have "remove os sc s = update_displayed_sessions os t"
    using step_prepared[of os "Remove sc" s] Some by simp
  then have "bind_res (spinner_update os t) (\<lambda>sp. Inr (planned_state sp t)) = Inr s'"
    using assms(2) update_refines_plan[OF wf, of os] by simp
  then obtain sp where s': "s' = planned_state sp t" by auto
  have tr: "tracked t = (tracked s)(scene_name sc := None)"
    using assms(1) std_map.lookup_del[of "sessions s" "scene_name sc"]
    by (auto simp: t tracked_def switcher_wf_def fun_eq_iff)
  have "session_name us = scene_name sc" using wf_tracked[OF assms(1) us(1)] .
  then have "visible (calls s') us = visible (calls t) us"
    using untracked_visibility_kept[OF wf, of us sp] tr by (simp add: s')
  moreover have "\<not> visible (calls t) us" by (simp add: t visible_append)
  ultimately show ?thesis using us tr by (simp add: s')
qed

theorem remove_hides_and_untracks_witness:
  "tracked demo_booted ''greeter'' = Some demo_greeter \<and> visible (calls demo_booted) demo_greeter \<and>
   \<not> visible (calls (projr (remove demo_os (scene_session demo_greeter) demo_booted))) demo_greeter"
proof -
  let ?s' = "projr (remove demo_os (scene_session demo_greeter) demo_booted)"
  have ops: "list_all parent_side (demo_boot @ [(demo_os, MarkReady 2)])"
    using demo_boot_parent by (simp add: demo_os_def)
  have wf: "switcher_wf demo_booted"
    using switcher.gc_run_wf[OF _ ops demo_boot_run2] by (simp add: demo_start_def)
  have step: "remove demo_os (scene_session demo_greeter) demo_booted = Inr ?s'" by code_simp
  have "scene_name (scene_session demo_greeter) = ''greeter''"
    "corresponds_to demo_greeter (scene_id (scene_session demo_greeter))" by code_simp+
  moreover have "tracked demo_booted ''greeter'' = Some demo_greeter"
    "visible (calls demo_booted) demo_greeter" by code_simp+
  ultimately show ?thesis using remove_hides_and_untracks[OF wf step] by simp
qed

section \<open>The spinner as a process\<close>

lemma spinner_update_ledger:
  assumes "spinner_update os s = Inr sp" "fork_result os \<noteq> 0" "spinner_ledger (spinner_process s)"
  shows "spinner_ledger sp"
proof -
  have "sp = spinner_process s \<or> spinner_step KillSpinner (spinner_process s) = Inr sp \<or>
      spinner_step (EnsureRunning os) (spinner_process s) = Inr sp"
    using assms(1) by (auto simp: spinner_update_def split: if_splits)
  then show ?thesis
    using assms(2,3) spinner_component.gc_step_wf[OF assms(3), of KillSpinner sp]
      spinner_component.gc_step_wf[OF assms(3), of "EnsureRunning os" sp] by auto
qed

text \<open>
  C17. However the spinner service was used before (\<open>xs\<close>), and after any run of the switcher (\<open>ops\<close>):
  every process the service ever forked was sent SIGTERM exactly once and in order, except the one
  it has recorded, if any; and once the destructor has run there is no exception. No process is
  leaked and none is signalled twice. (What \<open>fork\<close> returned counts as a process, its -1 too, see C40.)
\<close>

theorem spinner_processes_accounted:
  assumes "list_all in_parent xs" and "list_all (\<lambda>(os, op). fork_result os \<noteq> 0) ops"
  shows "\<exists>sp s. for_each spinner_step xs (new_external_spinner exe sock) = Inr sp \<and>
    for_each switcher_step ops (new_switcher sp) = Inr s \<and>
    forked_pids (os_calls (spinner_process s)) = killed_pids (os_calls (spinner_process s)) @
      (if spinner_pid (spinner_process s) = 0 then [] else [spinner_pid (spinner_process s)]) \<and>
    forked_pids (os_calls (destroy_external_spinner (spinner_process s))) =
      killed_pids (os_calls (destroy_external_spinner (spinner_process s)))"
proof -
  obtain sp where sp: "for_each spinner_step xs (new_external_spinner exe sock) = Inr sp" "spinner_ledger sp"
    using spinner_component.gc_run_returns[OF spinner_ledger_new assms(1)] by blast
  obtain s where s: "for_each switcher_step ops (new_switcher sp) = Inr s"
    using switcher.gc_run_returns[OF switcher_wf_new assms(2)] by blast
  have init: "spinner_ledger (spinner_process (new_switcher sp))" using sp(2) by (simp add: new_switcher_def)
  have "spinner_ledger (spinner_process s)"
    by (rule run_process[where P = spinner_ledger, OF _ switcher_wf_new init assms(2) s])
      (rule spinner_update_ledger)
  with spinner_ledger_kill[OF this] sp(1) s show ?thesis
    by (simp add: spinner_ledger_def destroy_external_spinner_def)
qed

theorem spinner_processes_accounted_witness:
  "\<exists>sp s. for_each spinner_step [EnsureRunning demo_os, KillSpinner] (new_external_spinner ''spinner'' ''sock'') = Inr sp \<and>
    for_each switcher_step demo_boot (new_switcher sp) = Inr s \<and>
    forked_pids (os_calls (destroy_external_spinner (spinner_process s))) =
      killed_pids (os_calls (destroy_external_spinner (spinner_process s)))"
proof -
  have "list_all in_parent [EnsureRunning demo_os, KillSpinner]" by (simp add: demo_os_def)
  from spinner_processes_accounted[OF this demo_boot_parent, of "''spinner''" "''sock''"] show ?thesis by blast
qed

text \<open>
  C40. A failed \<open>fork\<close> (result -1) is taken for a running process: the next \<open>kill\<close> sends SIGTERM
  to process id -1, that is, to every process the compositor may signal.
\<close>

theorem failed_fork_signals_everyone:
  assumes "executable sp \<noteq> ''''" and "spinner_pid sp = 0" and "fork_result os = - 1"
  shows "\<exists>sp'. ensure_running os sp = Inr sp' \<and>
    os_calls (kill sp') = os_calls sp @ [OsFork (- 1), OsKill (- 1)]"
  using assms by (simp add: spinner_defs)

theorem failed_fork_signals_everyone_witness:
  "\<exists>sp'. ensure_running \<lparr>fork_result = - 1, exec_succeeds = True\<rparr>
      (new_external_spinner ''spinner'' ''sock'') = Inr sp' \<and>
    os_calls (kill sp') = [OsFork (- 1), OsKill (- 1)]"
  using failed_fork_signals_everyone[of "new_external_spinner ''spinner'' ''sock''"
      "\<lparr>fork_result = - 1, exec_succeeds = True\<rparr>"]
  by (simp add: new_external_spinner_def)

end
