(* ===== verification/Mir_Screen.thy ===== *)
theory Mir_Screen
  imports Std_Map Screen_Types
begin

text \<open>
  \<open>MirScreen\<close> (\<open>src/mir_screen.{h,cpp}\<close>): switching outputs on and off and telling the registered
  handlers how many outputs are active. Mir's display and compositor are an argument, the record
  \<open>mir_env\<close> of their answers during one call; calls into them are recorded in order. A handler is a
  function on the state of whatever it captures, the type variable of the record.
\<close>

section \<open>Outputs\<close>

text \<open>The enumerators of Mir's output type the source names; \<open>OtherOutput\<close> stands for the rest.\<close>

datatype output_type =
    Vga | Dvii | Dvid | Dvia | Composite | Svideo | Component | Ninepindin
  | Displayport | Hdmia | Hdmib | Tv | OtherOutput nat

datatype power_mode = PowerOn | PowerOff | OtherPower nat

record display_output =
  output_type :: output_type
  connected :: bool
  used :: bool
  power_mode :: power_mode

definition is_external :: "output_type \<Rightarrow> bool" where
  "is_external t \<longleftrightarrow>
     t = Vga \<or> t = Dvii \<or> t = Dvid \<or> t = Dvia \<or> t = Composite \<or> t = Svideo \<or> t = Component \<or>
     t = Ninepindin \<or> t = Displayport \<or> t = Hdmia \<or> t = Hdmib \<or> t = Tv"

definition count_output :: "display_output \<Rightarrow> active_outputs \<Rightarrow> active_outputs" where
  "count_output out ao =
     (if connected out \<and> used out \<and> power_mode out = PowerOn then
        if is_external (output_type out) then ao\<lparr>external := external ao + 1\<rparr>
        else ao\<lparr>internal := internal ao + 1\<rparr>
      else ao)"

definition count_active_outputs :: "display_output list \<Rightarrow> active_outputs" where
  "count_active_outputs cfg = fold count_output cfg no_active_outputs"

definition config_has_active_outputs :: "display_output list \<Rightarrow> bool" where
  "config_has_active_outputs cfg \<longleftrightarrow>
     (let ao = count_active_outputs cfg in internal ao + external ao > 0)"

fun get_power_mode_filter_for_output_filter :: "output_filter \<Rightarrow> display_output \<Rightarrow> bool" where
  "get_power_mode_filter_for_output_filter AllOutputs out \<longleftrightarrow> True"
| "get_power_mode_filter_for_output_filter InternalOutputs out \<longleftrightarrow> \<not> is_external (output_type out)"
| "get_power_mode_filter_for_output_filter ExternalOutputs out \<longleftrightarrow> is_external (output_type out)"

section \<open>State\<close>

type_synonym 'w ao_handler = "active_outputs \<Rightarrow> 'w \<Rightarrow> 'w outcome"

datatype screen_call =
    CompositorStart
  | CompositorStop
  | DisplayConfigure "display_output list"
  | LogException string

record 'w mir_screen =
  active_outputs_handlers :: "(nat, 'w ao_handler) std_map"
  active_outputs :: active_outputs
  listeners :: 'w
  screen_calls :: "screen_call list"

text \<open>Mir's answers: the configuration (none if the call throws) and whether each call returns.\<close>

record mir_env =
  configuration :: "display_output list option"
  stop_returns :: bool
  configure_returns :: bool
  start_returns :: bool

definition call_mir :: "screen_call \<Rightarrow> bool \<Rightarrow> 'w mir_screen \<Rightarrow> 'w mir_screen outcome" where
  "call_mir c ok s =
     (s\<lparr>screen_calls := screen_calls s @ [c]\<rparr>, if ok then None else Some ExternalException)"

definition log_exception_in :: "string \<Rightarrow> 'w mir_screen \<Rightarrow> 'w mir_screen" where
  "log_exception_in func s = s\<lparr>screen_calls := screen_calls s @ [LogException func]\<rparr>"

section \<open>Operations\<close>

definition call_handler :: "active_outputs \<Rightarrow> 'w ao_handler \<Rightarrow> 'w mir_screen \<Rightarrow> 'w mir_screen outcome"
  where
  "call_handler ao h s = (let (w, f) = h ao (listeners s) in (s\<lparr>listeners := w\<rparr>, f))"

definition configuration_applied :: "display_output list \<Rightarrow> 'w mir_screen \<Rightarrow> 'w mir_screen outcome"
  where
  "configuration_applied cfg s =
     (let s1 = s\<lparr>active_outputs := count_active_outputs cfg\<rparr>
      in each_do (\<lambda>(k, h). call_handler (active_outputs s1) h) (active_outputs_handlers s1) s1)"

definition initial_configuration :: "display_output list \<Rightarrow> 'w mir_screen \<Rightarrow> 'w mir_screen outcome"
  where
  "initial_configuration cfg s =
     (let s1 = s\<lparr>active_outputs := count_active_outputs cfg\<rparr>
      in each_do (\<lambda>(k, h). call_handler (active_outputs s1) h) (active_outputs_handlers s1) s1)"

text \<open>What Mir tells its observers of the display configuration; a session is a number and an error
  its message. The screen takes notice of two of the events.\<close>

datatype observer_event =
    InitialConfiguration "display_output list"
  | ConfigurationApplied "display_output list"
  | BaseConfigurationUpdated "display_output list"
  | SessionConfigurationApplied nat "display_output list"
  | SessionConfigurationRemoved nat
  | ConfigurationFailed "display_output list" string
  | CatastrophicConfigurationError "display_output list" string
  | ConfigurationUpdatedForSession nat "display_output list"

fun observe :: "observer_event \<Rightarrow> 'w mir_screen \<Rightarrow> 'w mir_screen outcome" where
  "observe (InitialConfiguration cfg) s = initial_configuration cfg s"
| "observe (ConfigurationApplied cfg) s = configuration_applied cfg s"
| "observe (BaseConfigurationUpdated cfg) s = (s, None)"
| "observe (SessionConfigurationApplied n cfg) s = (s, None)"
| "observe (SessionConfigurationRemoved n) s = (s, None)"
| "observe (ConfigurationFailed cfg msg) s = (s, None)"
| "observe (CatastrophicConfigurationError cfg msg) s = (s, None)"
| "observe (ConfigurationUpdatedForSession n cfg) s = (s, None)"

lemma observe_cases:
  "(\<exists>cfg. observe ev s = configuration_applied cfg s) \<or> observe ev s = (s, None)"
  by (cases ev) (auto simp: initial_configuration_def configuration_applied_def)

text \<open>The constructor. A compositor that does not start is logged and the exception goes on; a
  configuration that is not available yet is logged and ignored.\<close>

definition new_mir_screen :: "mir_env \<Rightarrow> 'w \<Rightarrow> 'w mir_screen outcome" where
  "new_mir_screen env w =
     (let s0 = \<lparr>active_outputs_handlers = [], active_outputs = no_active_outputs, listeners = w,
                screen_calls = []\<rparr>;
          (s1, f) = call_mir CompositorStart (start_returns env) s0
      in case f of
           Some e \<Rightarrow> (log_exception_in ''MirScreen'' s1, Some e)
         | None \<Rightarrow>
             (case configuration env of
                Some cfg \<Rightarrow> (s1\<lparr>active_outputs := count_active_outputs cfg\<rparr>, None)
              | None \<Rightarrow> (log_exception_in ''MirScreen'' s1, None)))"

definition register_active_outputs_handler ::
  "nat \<Rightarrow> 'w ao_handler \<Rightarrow> 'w mir_screen \<Rightarrow> 'w mir_screen outcome" where
  "register_active_outputs_handler ownerKey handler s =
     (let s1 = s\<lparr>active_outputs_handlers :=
                   assign_key ownerKey handler (active_outputs_handlers s)\<rparr>
      in call_handler (active_outputs s1) handler s1)"

definition unregister_active_outputs_handler :: "nat \<Rightarrow> 'w mir_screen \<Rightarrow> 'w mir_screen" where
  "unregister_active_outputs_handler ownerKey s =
     s\<lparr>active_outputs_handlers := erase_key ownerKey (active_outputs_handlers s)\<rparr>"

definition apply_power_mode ::
  "power_mode \<Rightarrow> (display_output \<Rightarrow> bool) \<Rightarrow> display_output list \<Rightarrow> display_output list" where
  "apply_power_mode mode filt cfg =
     map (\<lambda>out. if connected out \<and> used out \<and> filt out then out\<lparr>power_mode := mode\<rparr> else out) cfg"

definition set_power_mode ::
  "mir_env \<Rightarrow> power_mode \<Rightarrow> (display_output \<Rightarrow> bool) \<Rightarrow> 'w mir_screen \<Rightarrow> 'w mir_screen outcome" where
  "set_power_mode env mode filt s =
     catch_std (log_exception_in ''set_power_mode'')
       (case configuration env of
          None \<Rightarrow> (s, Some ExternalException)
        | Some cfg0 \<Rightarrow>
            (let cfg = apply_power_mode mode filt cfg0
             in then_do (call_mir CompositorStop (stop_returns env) s) (\<lambda>s1.
                then_do (call_mir (DisplayConfigure cfg) (configure_returns env) s1) (\<lambda>s2.
                then_do (if config_has_active_outputs cfg
                         then call_mir CompositorStart (start_returns env) s2
                         else (s2, None))
                  (configuration_applied cfg)))))"

definition turn_on :: "mir_env \<Rightarrow> output_filter \<Rightarrow> 'w mir_screen \<Rightarrow> 'w mir_screen outcome" where
  "turn_on env filt s =
     set_power_mode env PowerOn (get_power_mode_filter_for_output_filter filt) s"

definition turn_off :: "mir_env \<Rightarrow> output_filter \<Rightarrow> 'w mir_screen \<Rightarrow> 'w mir_screen outcome" where
  "turn_off env filt s =
     set_power_mode env PowerOff (get_power_mode_filter_for_output_filter filt) s"

section \<open>Counting\<close>

definition output_active :: "display_output \<Rightarrow> bool" where
  "output_active out \<longleftrightarrow> connected out \<and> used out \<and> power_mode out = PowerOn"

lemma count_fold:
  "fold count_output cfg ao =
     \<lparr>internal = internal ao +
        int (length (filter (\<lambda>out. output_active out \<and> \<not> is_external (output_type out)) cfg)),
      external = external ao +
        int (length (filter (\<lambda>out. output_active out \<and> is_external (output_type out)) cfg))\<rparr>"
  by (induction cfg arbitrary: ao) (auto simp: count_output_def output_active_def)

lemma count_active_outputs_eq:
  "internal (count_active_outputs cfg) =
     int (length (filter (\<lambda>out. output_active out \<and> \<not> is_external (output_type out)) cfg))"
  "external (count_active_outputs cfg) =
     int (length (filter (\<lambda>out. output_active out \<and> is_external (output_type out)) cfg))"
  by (simp_all add: count_active_outputs_def count_fold no_active_outputs_def)

lemma total_active:
  "internal (count_active_outputs cfg) + external (count_active_outputs cfg) =
     int (length (filter output_active cfg))"
  unfolding count_active_outputs_eq by (induction cfg) auto

lemma any_active_count: "any_active (count_active_outputs cfg) \<longleftrightarrow> (\<exists>out \<in> set cfg. output_active out)"
  by (auto simp: any_active_def count_active_outputs_eq filter_empty_conv add_nonneg_eq_0_iff)

lemma config_has_active_outputs_iff:
  "config_has_active_outputs cfg \<longleftrightarrow> any_active (count_active_outputs cfg)"
  by (auto simp: config_has_active_outputs_def any_active_def Let_def count_active_outputs_eq)

lemma configuration_applied_fields:
  "screen_calls (fst (configuration_applied cfg s)) = screen_calls s \<and>
   active_outputs (fst (configuration_applied cfg s)) = count_active_outputs cfg \<and>
   active_outputs_handlers (fst (configuration_applied cfg s)) = active_outputs_handlers s"
  unfolding configuration_applied_def Let_def
  by (rule each_do_inv) (auto simp: call_handler_def split: prod.splits)

end
