(* ===== verification/Mir_Screen_Props.thy ===== *)
theory Mir_Screen_Props
  imports Mir_Screen
begin

text \<open>
  Properties of the screen: the counts it publishes, what switching outputs on or off leaves behind
  when Mir's calls return and when one of them throws, and who hears of a change.
\<close>

section \<open>The counts\<close>

text \<open>
  The counts published are the numbers of connected, used and powered-on outputs of each kind,
  every output is counted once, and their sum is non-zero (the session switcher's test) exactly when
  it is positive (the compositor restart's test) and when some output is active.
\<close>

theorem count_active_outputs_correct:
  "internal (count_active_outputs cfg) =
     int (length (filter (\<lambda>out. output_active out \<and> \<not> is_external (output_type out)) cfg)) \<and>
   external (count_active_outputs cfg) =
     int (length (filter (\<lambda>out. output_active out \<and> is_external (output_type out)) cfg)) \<and>
   internal (count_active_outputs cfg) + external (count_active_outputs cfg) =
     int (length (filter output_active cfg)) \<and>
   (any_active (count_active_outputs cfg) \<longleftrightarrow> config_has_active_outputs cfg) \<and>
   (config_has_active_outputs cfg \<longleftrightarrow> (\<exists>out \<in> set cfg. output_active out))"
  by (simp add: total_active[symmetric] config_has_active_outputs_iff any_active_count)
    (simp add: count_active_outputs_eq)

section \<open>Switching outputs\<close>

definition env_ok :: "display_output list \<Rightarrow> mir_env" where
  "env_ok cfg =
     \<lparr>configuration = Some cfg, stop_returns = True, configure_returns = True,
      start_returns = True\<rparr>"

lemmas set_power_defs = set_power_mode_def call_mir_def log_exception_in_def Let_def

lemma set_power_mode_ok:
  "set_power_mode (env_ok cfg) mode filt s =
     catch_std (log_exception_in ''set_power_mode'')
       (configuration_applied (apply_power_mode mode filt cfg)
         (s\<lparr>screen_calls := screen_calls s @ [CompositorStop,
              DisplayConfigure (apply_power_mode mode filt cfg)] @
              (if config_has_active_outputs (apply_power_mode mode filt cfg)
               then [CompositorStart] else [])\<rparr>))"
  by (simp add: set_power_defs env_ok_def)

text \<open>The handlers run with the new counts, in key order, when none of them throws.\<close>

lemma handlers_fold:
  assumes "\<forall>(k, h) \<in> set hs. \<forall>w. snd (h ao w) = None"
  shows "each_do (\<lambda>(k, h). call_handler ao h) hs (s :: 'w mir_screen) =
    (s\<lparr>listeners := fold (\<lambda>(k, h) w. fst (h ao w)) hs (listeners s)\<rparr>, None)"
  using assms
proof (induction hs arbitrary: s)
  case Nil
  then show ?case by simp
next
  case (Cons x hs)
  obtain k h where x: "x = (k, h)" by force
  obtain w f where hw: "h ao (listeners s) = (w, f)" by force
  moreover have "snd (h ao (listeners s)) = None" using Cons.prems x by auto
  ultimately have "call_handler ao h s = (s\<lparr>listeners := fst (h ao (listeners s))\<rparr>, None)"
    by (simp add: call_handler_def)
  then show ?case using Cons by (simp add: x)
qed

text \<open>Whether the compositor runs, read off the calls: it runs after the constructor.\<close>

fun call_running :: "screen_call \<Rightarrow> bool \<Rightarrow> bool" where
  "call_running CompositorStart r \<longleftrightarrow> True"
| "call_running CompositorStop r \<longleftrightarrow> False"
| "call_running (DisplayConfigure cfg) r \<longleftrightarrow> r"
| "call_running (LogException f) r \<longleftrightarrow> r"

definition compositor_running :: "screen_call list \<Rightarrow> bool" where
  "compositor_running cs = fold call_running cs True"

text \<open>
  C11. When Mir's calls return and no handler throws, turning outputs off stops the
  compositor, configures the display once with the mode set to off on exactly the connected, used outputs
  the filter selects and every other output untouched, restarts the compositor exactly when an
  output is still active, and then calls every registered handler once with the new counts.
\<close>

theorem turn_off_reconfigures:
  assumes "\<forall>(k, h) \<in> set (active_outputs_handlers s). \<forall>ao w. snd (h ao w) = None"
  shows "let cfg' = apply_power_mode PowerOff (get_power_mode_filter_for_output_filter filt) cfg;
             (s', f) = turn_off (env_ok cfg) filt s
    in f = None \<and>
       screen_calls s' = screen_calls s @ [CompositorStop, DisplayConfigure cfg'] @
         (if \<exists>out \<in> set cfg'. output_active out then [CompositorStart] else []) \<and>
       compositor_running (screen_calls s') = (\<exists>out \<in> set cfg'. output_active out) \<and>
       active_outputs s' = count_active_outputs cfg' \<and>
       listeners s' = fold (\<lambda>(k, h) w. fst (h (count_active_outputs cfg') w))
                        (active_outputs_handlers s) (listeners s)"
proof -
  let ?cfg' = "apply_power_mode PowerOff (get_power_mode_filter_for_output_filter filt) cfg"
  have "\<forall>(k, h) \<in> set (active_outputs_handlers s).
      \<forall>w. snd (h (count_active_outputs ?cfg') w) = None"
    using assms by fast
  note run = handlers_fold[OF this]
  show ?thesis
    by (simp add: turn_off_def set_power_mode_ok configuration_applied_def Let_def run
        config_has_active_outputs_iff any_active_count compositor_running_def)
qed

definition demo_outputs :: "display_output list" where
  "demo_outputs =
     [\<lparr>output_type = OtherOutput 7, connected = True, used = True, power_mode = PowerOn\<rparr>,
      \<lparr>output_type = Hdmia, connected = True, used = True, power_mode = PowerOn\<rparr>]"

text \<open>A screen with one handler, which keeps what it hears.\<close>

definition demo_screen :: "active_outputs list mir_screen" where
  "demo_screen =
     \<lparr>active_outputs_handlers = [(5, \<lambda>ao w. (w @ [ao], None))],
      active_outputs = no_active_outputs, listeners = [], screen_calls = []\<rparr>"

theorem turn_off_reconfigures_witness:
  "listeners (fst (turn_off (env_ok demo_outputs) InternalOutputs demo_screen)) =
     [\<lparr>internal = 0, external = 1\<rparr>]"
proof -
  have "\<forall>(k, h) \<in> set (active_outputs_handlers demo_screen). \<forall>ao w. snd (h ao w) = None"
    by (simp add: demo_screen_def)
  from turn_off_reconfigures[OF this, of InternalOutputs demo_outputs]
  have "listeners (fst (turn_off (env_ok demo_outputs) InternalOutputs demo_screen)) =
      fold (\<lambda>(k, h) w. fst (h (count_active_outputs (apply_power_mode PowerOff
        (get_power_mode_filter_for_output_filter InternalOutputs) demo_outputs)) w))
        (active_outputs_handlers demo_screen) (listeners demo_screen)"
    unfolding Let_def case_prod_beta' by blast
  then show ?thesis
    by (simp add: demo_screen_def demo_outputs_def apply_power_mode_def is_external_def
        count_active_outputs_def count_output_def no_active_outputs_def)
qed

section \<open>Power modes and counts\<close>

lemma count_applied:
  "length (filter (\<lambda>out. output_active out \<and> p (output_type out)) (apply_power_mode PowerOff filt cfg)) =
     length (filter (\<lambda>out. output_active out \<and> \<not> filt out \<and> p (output_type out)) cfg)"
  "length (filter output_active (apply_power_mode PowerOn (\<lambda>_. True) cfg)) =
     length (filter (\<lambda>out. connected out \<and> used out) cfg)"
  by (induction cfg) (auto simp: apply_power_mode_def output_active_def)

lemma filters_eq:
  "get_power_mode_filter_for_output_filter AllOutputs = (\<lambda>_. True)"
  "get_power_mode_filter_for_output_filter InternalOutputs = (\<lambda>out. \<not> is_external (output_type out))"
  "get_power_mode_filter_for_output_filter ExternalOutputs = (\<lambda>out. is_external (output_type out))"
  by auto

lemma power_off_counts:
  "count_active_outputs
     (apply_power_mode PowerOff (get_power_mode_filter_for_output_filter filt) cfg) =
   (case filt of
      AllOutputs \<Rightarrow> no_active_outputs
    | InternalOutputs \<Rightarrow> (count_active_outputs cfg)\<lparr>internal := 0\<rparr>
    | ExternalOutputs \<Rightarrow> (count_active_outputs cfg)\<lparr>external := 0\<rparr>)"
  by (cases filt)
    (auto intro!: active_outputs.equality arg_cong[where f = length] filter_cong
      simp: filters_eq count_active_outputs_eq count_applied(1)[where p = is_external]
        count_applied(1)[where p = "\<lambda>t. \<not> is_external t"] no_active_outputs_def filter_empty_conv
      simp del: get_power_mode_filter_for_output_filter.simps)

lemma power_on_counts:
  "let on = count_active_outputs
      (apply_power_mode PowerOn (get_power_mode_filter_for_output_filter AllOutputs) cfg)
   in internal on + external on = int (length (filter (\<lambda>out. connected out \<and> used out) cfg))"
  unfolding filters_eq Let_def total_active count_applied(2) ..

lemma set_power_mode_outputs:
  "active_outputs (fst (set_power_mode (env_ok cfg) mode filt s)) =
     count_active_outputs (apply_power_mode mode filt cfg)"
proof -
  have "active_outputs (fst (catch_std (log_exception_in ''set_power_mode'') r)) = active_outputs (fst r)"
    for r :: "'a mir_screen outcome"
    by (cases r; cases "snd r") (auto simp: log_exception_in_def)
  then show ?thesis by (simp add: set_power_mode_ok configuration_applied_fields)
qed

text \<open>
  Turning off all outputs leaves none active; turning off one kind leaves none of that kind
  active and the other kind's count as it was; turning all on makes every connected, used output
  active. Filters are respected by type alone, whatever the outputs' order and modes.
\<close>

theorem power_modes_and_counts:
  "count_active_outputs
     (apply_power_mode PowerOff (get_power_mode_filter_for_output_filter AllOutputs) cfg) =
     no_active_outputs \<and>
   count_active_outputs
     (apply_power_mode PowerOff (get_power_mode_filter_for_output_filter InternalOutputs) cfg) =
     (count_active_outputs cfg)\<lparr>internal := 0\<rparr> \<and>
   count_active_outputs
     (apply_power_mode PowerOff (get_power_mode_filter_for_output_filter ExternalOutputs) cfg) =
     (count_active_outputs cfg)\<lparr>external := 0\<rparr> \<and>
   (let on = count_active_outputs
      (apply_power_mode PowerOn (get_power_mode_filter_for_output_filter AllOutputs) cfg)
    in internal on + external on = int (length (filter (\<lambda>out. connected out \<and> used out) cfg)))"
  unfolding power_off_counts by (simp add: power_on_counts)

section \<open>Exceptions\<close>

text \<open>
  Whatever Mir's calls and the handlers do, turning outputs on or off lets no
  \<open>std::exception\<close> out: the D-Bus handler that called it always gets to send its reply.
\<close>

theorem turn_on_off_catch_exceptions:
  "(case snd (turn_on env filt s) of None \<Rightarrow> True | Some e \<Rightarrow> \<not> std_exception e) \<and>
   (case snd (turn_off env filt s) of None \<Rightarrow> True | Some e \<Rightarrow> \<not> std_exception e)"
  unfolding turn_on_def turn_off_def set_power_mode_def
  by (auto split: option.splits dest: catch_std_no_exception)

text \<open>
  C39. When Mir refuses the new configuration the exception is swallowed after the compositor was
  stopped: it stays stopped although the outputs are as they were, the published counts are not
  updated and no handler is called.
\<close>

theorem failed_configure_leaves_compositor_stopped:
  assumes "configuration env = Some cfg" and "stop_returns env" and "\<not> configure_returns env"
  shows "\<exists>s'. turn_off env filt s = (s', None) \<and> \<not> compositor_running (screen_calls s') \<and>
    active_outputs s' = active_outputs s \<and> listeners s' = listeners s"
  using assms by (simp add: turn_off_def set_power_defs compositor_running_def)

theorem failed_configure_leaves_compositor_stopped_witness:
  "\<exists>s'. turn_off \<lparr>configuration = Some [], stop_returns = True, configure_returns = False,
        start_returns = True\<rparr> AllOutputs
      \<lparr>active_outputs_handlers = [], active_outputs = no_active_outputs, listeners = (),
       screen_calls = []\<rparr> = (s', None) \<and> \<not> compositor_running (screen_calls s')"
  using failed_configure_leaves_compositor_stopped[of
      "\<lparr>configuration = Some [], stop_returns = True, configure_returns = False,
        start_returns = True\<rparr>" "[]" AllOutputs
      "\<lparr>active_outputs_handlers = [], active_outputs = no_active_outputs, listeners = (),
       screen_calls = []\<rparr>"]
  by auto

end
