(* ===== verification/Dm_Connection.thy ===== *)
theory Dm_Connection
  imports Prelude "HOL-Library.Word"
begin

text \<open>
  \<open>AsioDMConnection\<close> (\<open>src/asio_dm_connection.{h,cpp}\<close>): the framed messages exchanged with the
  display manager over two pipes. Boost.Asio is an argument: \<open>rd n p\<close> is \<open>async_read\<close> of exactly
  \<open>n\<close> bytes from the pipes \<open>p\<close> (success, the bytes transferred, the pipes after it) and \<open>wr bs p\<close>
  is \<open>write\<close>, which throws when it returns nothing. The handlers the reads complete with run one
  after the other, as \<open>io_service.run\<close> on the one thread runs them.
\<close>

unbundle bit_operations_syntax

section \<open>State\<close>

type_synonym byte = "8 word"

datatype usc_message_id =
    MsgPing | MsgPong | MsgReady | MsgSessionConnected | MsgSetActiveSession | MsgSetNextSession
  | MsgOther nat

fun message_id_value :: "usc_message_id \<Rightarrow> nat" where
  "message_id_value MsgPing = 0"
| "message_id_value MsgPong = 1"
| "message_id_value MsgReady = 2"
| "message_id_value MsgSessionConnected = 3"
| "message_id_value MsgSetActiveSession = 4"
| "message_id_value MsgSetNextSession = 5"
| "message_id_value (MsgOther n) = n"

definition message_id_of :: "nat \<Rightarrow> usc_message_id" where
  "message_id_of n =
     (if n = 0 then MsgPing else if n = 1 then MsgPong else if n = 2 then MsgReady
      else if n = 3 then MsgSessionConnected else if n = 4 then MsgSetActiveSession
      else if n = 5 then MsgSetNextSession else MsgOther n)"

text \<open>The two calls of the interface \<open>DMMessageHandler\<close>, in the order made.\<close>

datatype dm_call = CallSetActiveSession string | CallSetNextSession string

record 'p dm_connection =
  dm_pipes :: 'p
  message_header_bytes :: "byte list"
  message_payload_buffer :: "byte list"
  write_buffer :: "byte list"
  dm_calls :: "dm_call list"

type_synonym 'p reader = "nat \<Rightarrow> 'p \<Rightarrow> bool \<times> byte list \<times> 'p"
type_synonym 'p writer = "byte list \<Rightarrow> 'p \<Rightarrow> 'p option"

text \<open>The constructor leaves the header array uninitialised: its contents are an argument.\<close>

definition new_dm_connection :: "byte list \<Rightarrow> 'p \<Rightarrow> 'p dm_connection" where
  "new_dm_connection hdr p =
     \<lparr>dm_pipes = p, message_header_bytes = hdr, message_payload_buffer = [], write_buffer = [],
      dm_calls = []\<rparr>"

section \<open>Sending\<close>

definition header_bytes :: "usc_message_id \<Rightarrow> nat \<Rightarrow> byte list" where
  "header_bytes mid n =
     (let i = (of_nat (message_id_value mid) :: 16 word); size = (of_nat n :: 64 word)
      in [ucast (drop_bit 8 i AND 0xFF), ucast (drop_bit 0 i AND 0xFF),
          ucast (drop_bit 8 size AND 0xFF), ucast (drop_bit 0 size AND 0xFF)])"

definition send :: "'p writer \<Rightarrow> usc_message_id \<Rightarrow> byte list \<Rightarrow> 'p dm_connection \<Rightarrow> 'p dm_connection res"
  where
  "send wr mid body c =
     (let buf = header_bytes mid (length body) @ body;
          c1 = c\<lparr>write_buffer := buf\<rparr>
      in case wr buf (dm_pipes c1) of
           None \<Rightarrow> Inl ExternalException
         | Some p \<Rightarrow> Inr (c1\<lparr>dm_pipes := p\<rparr>))"

definition send_ready :: "'p writer \<Rightarrow> 'p dm_connection \<Rightarrow> 'p dm_connection res" where
  "send_ready wr c = send wr MsgReady [] c"

section \<open>Receiving\<close>

text \<open>Two bytes of the header as an integer: \<open>b1 << 8 | b0\<close>, computed in \<open>int\<close>.\<close>

definition be16 :: "byte \<Rightarrow> byte \<Rightarrow> nat" where
  "be16 b1 b0 = unat (push_bit 8 (ucast b1 :: 32 word) OR ucast b0)"

definition payload_length :: "'p dm_connection \<Rightarrow> nat" where
  "payload_length c = be16 (message_header_bytes c ! 2) (message_header_bytes c ! 3)"

definition message_id :: "'p dm_connection \<Rightarrow> usc_message_id" where
  "message_id c =
     message_id_of (be16 (message_header_bytes c ! 0) (message_header_bytes c ! 1))"

definition text_of :: "byte list \<Rightarrow> string" where
  "text_of bs = map (\<lambda>b. char_of (unat b)) bs"

text \<open>\<open>ss << &message_payload_buffer\<close> takes everything in the buffer, from this and from earlier
  messages. What follows a payload, read or not, is a new header.\<close>

definition on_read_payload :: "'p writer \<Rightarrow> bool \<Rightarrow> 'p dm_connection \<Rightarrow> 'p dm_connection res" where
  "on_read_payload wr ok c =
     (if ok then
        (case message_id c of
           MsgPing \<Rightarrow> send wr MsgPong [] c
         | MsgPong \<Rightarrow> Inr c
         | MsgSetActiveSession \<Rightarrow>
             (let client_name = text_of (message_payload_buffer c)
              in Inr (c\<lparr>message_payload_buffer := [],
                        dm_calls := dm_calls c @ [CallSetActiveSession client_name]\<rparr>))
         | MsgSetNextSession \<Rightarrow>
             (let client_name = text_of (message_payload_buffer c)
              in Inr (c\<lparr>message_payload_buffer := [],
                        dm_calls := dm_calls c @ [CallSetNextSession client_name]\<rparr>))
         | _ \<Rightarrow> Inr c)
      else Inr c)"

text \<open>The buffer of \<open>read_header\<close> is the fixed array, overwritten from its start.\<close>

definition read_header :: "'p reader \<Rightarrow> 'p dm_connection \<Rightarrow> bool \<times> 'p dm_connection" where
  "read_header rd c =
     (let (ok, bs, p) = rd 4 (dm_pipes c)
      in (ok, c\<lparr>dm_pipes := p,
                message_header_bytes := bs @ drop (length bs) (message_header_bytes c)\<rparr>))"

text \<open>\<open>on_read_header\<close> starts the read of the payload and \<open>on_read_payload\<close> that of the next
  header; the flag of the result says whether a header is awaited.\<close>

definition on_read_header ::
  "'p reader \<Rightarrow> 'p writer \<Rightarrow> bool \<Rightarrow> 'p dm_connection \<Rightarrow> (bool \<times> 'p dm_connection) res" where
  "on_read_header rd wr ok c =
     (if ok then
        (let (ok2, bs, p) = rd (payload_length c) (dm_pipes c);
             c1 = c\<lparr>dm_pipes := p, message_payload_buffer := message_payload_buffer c @ bs\<rparr>
         in bind_res (on_read_payload wr ok2 c1) (\<lambda>c2. Inr (True, c2)))
      else Inr (False, c))"

partial_function (option) io_service_run ::
  "'p reader \<Rightarrow> 'p writer \<Rightarrow> 'p dm_connection \<Rightarrow> 'p dm_connection res option" where
  "io_service_run rd wr c =
     (case (case read_header rd c of (ok, c1) \<Rightarrow> on_read_header rd wr ok c1) of
        Inl e \<Rightarrow> Some (Inl e)
      | Inr (awaiting, c2) \<Rightarrow> if awaiting then io_service_run rd wr c2 else Some (Inr c2))"

definition start ::
  "'p reader \<Rightarrow> 'p writer \<Rightarrow> 'p dm_connection \<Rightarrow> 'p dm_connection res option" where
  "start rd wr c =
     (case send_ready wr c of
        Inl e \<Rightarrow> Some (Inl e)
      | Inr c1 \<Rightarrow> io_service_run rd wr c1)"

section \<open>The header's arithmetic\<close>

lemma byte_less: "unat (b :: byte) < 256"
proof -
  have "unat b < 2 ^ LENGTH(8)" by (rule unsigned_less)
  then show ?thesis by simp
qed

lemma be16_eq: "be16 b1 b0 = 256 * unat b1 + unat b0"
proof -
  have "push_bit 8 (ucast b1 :: 32 word) AND ucast b0 = 0"
    by (rule bit_word_eqI) (auto simp: bit_simps dest: bit_imp_le_length)
  then have "push_bit 8 (ucast b1 :: 32 word) OR ucast b0 = push_bit 8 (ucast b1) + ucast b0"
    by (simp add: disjunctive_add_eq_or)
  moreover have "unat (push_bit 8 (ucast b1 :: 32 word) + ucast b0) = 256 * unat b1 + unat b0"
    using byte_less[of b1] byte_less[of b0]
    by (simp add: push_bit_eq_mult unat_word_ariths unsigned_ucast_eq take_bit_eq_mod)
  ultimately show ?thesis by (simp add: be16_def)
qed

lemma be16_less: "be16 b1 b0 < 65536"
  using byte_less[of b1] byte_less[of b0] by (simp add: be16_eq)

lemma low_byte:
  fixes w :: "'a::len word"
  assumes "8 < LENGTH('a)"
  shows "unat (ucast (w AND 0xFF) :: byte) = unat w mod 256"
proof -
  have m: "(0xFF :: 'a word) = mask 8" by (simp add: mask_eq_exp_minus_1)
  have "ucast (w AND mask 8) = (ucast w :: byte)"
    using assms by (intro bit_word_eqI) (simp add: bit_simps)
  then show ?thesis by (simp only: m) (simp add: unsigned_ucast_eq take_bit_eq_mod)
qed

lemma high_byte:
  fixes w :: "'a::len word"
  assumes "8 < LENGTH('a)"
  shows "unat (ucast (drop_bit 8 w AND 0xFF) :: byte) = unat w div 256 mod 256"
proof -
  have "unat (drop_bit 8 w) = drop_bit 8 (unat w)"
    by (rule bit_eqI) (auto simp: bit_simps dest: bit_imp_le_length)
  then show ?thesis by (simp add: low_byte[OF assms] drop_bit_eq_div[where a = "unat w"])
qed

text \<open>The header carries the identifier and the size, each modulo \<open>2 ^ 16\<close>.\<close>

lemma header_fields:
  obtains b0 b1 b2 b3 where "header_bytes mid n = [b0, b1, b2, b3]"
    and "be16 b0 b1 = message_id_value mid mod 65536" and "be16 b2 b3 = n mod 65536"
proof -
  have split: "256 * (k div 256 mod 256) + k mod 256 = k mod 65536" for k :: nat
    using mod_mult2_eq[of k 256 256] by simp
  have size: "n mod 18446744073709551616 mod 65536 = n mod 65536"
    by (rule mod_mod_cancel) simp
  show ?thesis
    by (rule that[OF header_bytes_def[unfolded Let_def]])
      (simp_all add: be16_eq high_byte, simp_all add: low_byte unat_of_nat split size)
qed

end
