(* ===== verification/Dm_Protocol.thy ===== *)
theory Dm_Protocol
  imports Dm_Connection
begin

text \<open>
  The display manager protocol as a specification (messages cut out of a byte stream, what each is
  to cause) and the proof that the connection's loop implements it on every byte stream. The
  framing is the interface \<open>framed_codec\<close>, interpreted on the bytes \<open>send\<close> writes and the parser.
\<close>

section \<open>Asio's documented behaviour\<close>

text \<open>An exact read succeeds if the pipe holds enough bytes and otherwise, the pipe having been
  closed, fails with what is left; a write appends to the other pipe.\<close>

definition exact_reader :: "'p reader \<Rightarrow> ('p \<Rightarrow> byte list) \<Rightarrow> ('p \<Rightarrow> byte list) \<Rightarrow> bool" where
  "exact_reader rd contents sent \<longleftrightarrow>
     (\<forall>n p. case rd n p of (ok, bs, p') \<Rightarrow>
        ok = (n \<le> length (contents p)) \<and> bs = take n (contents p) \<and>
        contents p' = drop n (contents p) \<and> sent p' = sent p)"

definition accepting_writer :: "'p writer \<Rightarrow> ('p \<Rightarrow> byte list) \<Rightarrow> ('p \<Rightarrow> byte list) \<Rightarrow> bool" where
  "accepting_writer wr contents sent \<longleftrightarrow>
     (\<forall>bs p. case wr bs p of None \<Rightarrow> False
        | Some p' \<Rightarrow> contents p' = contents p \<and> sent p' = sent p @ bs)"

text \<open>A pair of byte lists behaves so.\<close>

fun list_reader :: "(byte list \<times> byte list) reader" where
  "list_reader n (i, w) = (n \<le> length i, take n i, (drop n i, w))"

fun list_writer :: "(byte list \<times> byte list) writer" where
  "list_writer bs (i, w) = Some (i, w @ bs)"

lemma list_pipes: "exact_reader list_reader fst snd" "accepting_writer list_writer fst snd"
  by (auto simp: exact_reader_def accepting_writer_def)

section \<open>Messages\<close>

type_synonym message = "usc_message_id \<times> byte list"

definition valid_message :: "message \<Rightarrow> bool" where
  "valid_message msg \<longleftrightarrow>
     (case msg of (mid, body) \<Rightarrow>
        length body < 65536 \<and> message_id_value mid < 65536 \<and>
        message_id_of (message_id_value mid) = mid)"

fun message_bytes :: "message \<Rightarrow> byte list" where
  "message_bytes (mid, body) = header_bytes mid (length body) @ body"

fun parse_stream :: "byte list \<Rightarrow> message list" where
  "parse_stream (b0 # b1 # b2 # b3 # bs) =
     (if be16 b2 b3 \<le> length bs
      then (message_id_of (be16 b0 b1), take (be16 b2 b3) bs) #
           parse_stream (drop (be16 b2 b3) bs)
      else [])"
| "parse_stream _ = []"

lemma parse_short: "length bs < 4 \<Longrightarrow> parse_stream bs = []"
  by (induction bs rule: parse_stream.induct) auto

section \<open>Framing\<close>

locale framed_codec =
  fixes enc :: "'m \<Rightarrow> 'b list"
    and parse :: "'b list \<Rightarrow> 'm list"
    and valid :: "'m \<Rightarrow> bool"
  assumes parse_enc: "valid m \<Longrightarrow> parse (enc m @ rest) = m # parse rest"
    and parse_cut: "valid m \<Longrightarrow> n < length (enc m) \<Longrightarrow> parse (take n (enc m)) = []"
begin

lemma fc_parse_all: "list_all valid ms \<Longrightarrow> parse (concat (map enc ms) @ rest) = ms @ parse rest"
  by (induction ms) (auto simp: parse_enc)

lemma fc_parse_cut:
  "list_all valid ms \<Longrightarrow> valid m \<Longrightarrow> n < length (enc m) \<Longrightarrow>
   parse (concat (map enc ms) @ take n (enc m)) = ms"
  by (simp add: fc_parse_all parse_cut)

text \<open>Two message sequences with the same bytes are the same sequence.\<close>

lemma fc_unambiguous:
  assumes "list_all valid ms" "list_all valid ns" "concat (map enc ms) = concat (map enc ns)"
    and "parse [] = []"
  shows "ms = ns"
  using fc_parse_all[of ms "[]"] fc_parse_all[of ns "[]"] assms by simp

end

lemma parse_message:
  assumes "valid_message (mid, body)"
  shows "parse_stream (header_bytes mid (length body) @ body @ rest) =
    (mid, body) # parse_stream rest"
proof -
  obtain b0 b1 b2 b3 where "header_bytes mid (length body) = [b0, b1, b2, b3]"
    and "be16 b0 b1 = message_id_value mid mod 65536" and "be16 b2 b3 = length body mod 65536"
    using header_fields .
  then show ?thesis using assms by (simp add: valid_message_def)
qed

lemma parse_cut_message:
  assumes "valid_message (mid, body)" and "n < length (message_bytes (mid, body))"
  shows "parse_stream (take n (message_bytes (mid, body))) = []"
proof (cases "n < 4")
  case True
  then show ?thesis by (simp add: parse_short del: message_bytes.simps)
next
  case False
  obtain b0 b1 b2 b3 where h: "header_bytes mid (length body) = [b0, b1, b2, b3]"
    and "be16 b2 b3 = length body mod 65536"
    using header_fields .
  moreover obtain k where "n = 4 + k" using False le_Suc_ex[of 4 n] by auto
  then have "n = Suc (Suc (Suc (Suc k)))" by simp
  ultimately show ?thesis using assms by (simp add: valid_message_def)
qed

interpretation dm_codec: framed_codec message_bytes parse_stream valid_message
proof
  show "valid_message m \<Longrightarrow> parse_stream (message_bytes m @ rest) = m # parse_stream rest" for m rest
    by (cases m) (simp add: parse_message)
  show "valid_message m \<Longrightarrow> n < length (message_bytes m) \<Longrightarrow>
      parse_stream (take n (message_bytes m)) = []" for m n
    by (cases m) (simp only: parse_cut_message)
qed

section \<open>What each message causes\<close>

text \<open>The calls a sequence of messages causes, given what the payload buffer holds before it.\<close>

fun calls_for :: "message list \<Rightarrow> byte list \<Rightarrow> dm_call list" where
  "calls_for [] buf = []"
| "calls_for ((mid, body) # ms) buf =
     (case mid of
        MsgSetActiveSession \<Rightarrow> CallSetActiveSession (text_of (buf @ body)) # calls_for ms []
      | MsgSetNextSession \<Rightarrow> CallSetNextSession (text_of (buf @ body)) # calls_for ms []
      | _ \<Rightarrow> calls_for ms (buf @ body))"

definition replies_for :: "message list \<Rightarrow> byte list" where
  "replies_for ms = concat (map (\<lambda>(mid, body). if mid = MsgPing then header_bytes MsgPong 0 else []) ms)"

lemma replies_simps [simp]:
  "replies_for [] = []"
  "replies_for ((mid, body) # ms) =
     (if mid = MsgPing then header_bytes MsgPong 0 else []) @ replies_for ms"
  by (simp_all add: replies_for_def)

lemma readD:
  assumes "exact_reader rd contents sent"
  obtains p' where "rd n p = (n \<le> length (contents p), take n (contents p), p')"
    and "contents p' = drop n (contents p)" and "sent p' = sent p"
proof -
  obtain ok bs p' where "rd n p = (ok, bs, p')" by (cases "rd n p")
  moreover have "case rd n p of (ok, bs, p') \<Rightarrow>
      ok = (n \<le> length (contents p)) \<and> bs = take n (contents p) \<and>
      contents p' = drop n (contents p) \<and> sent p' = sent p"
    using assms unfolding exact_reader_def by (elim allE)
  ultimately show ?thesis using that by simp
qed

lemma send_effect:
  assumes "accepting_writer wr contents sent"
  shows "\<exists>p'. send wr mid body c =
      Inr (c\<lparr>write_buffer := message_bytes (mid, body), dm_pipes := p'\<rparr>) \<and>
    contents p' = contents (dm_pipes c) \<and>
    sent p' = sent (dm_pipes c) @ message_bytes (mid, body)"
proof -
  have "case wr (message_bytes (mid, body)) (dm_pipes c) of None \<Rightarrow> False
      | Some p' \<Rightarrow> contents p' = contents (dm_pipes c) \<and>
          sent p' = sent (dm_pipes c) @ message_bytes (mid, body)"
    using assms unfolding accepting_writer_def by (elim allE)
  then show ?thesis
    by (cases "wr (message_bytes (mid, body)) (dm_pipes c)") (auto simp: send_def)
qed

text \<open>One completed payload read: the calls and replies are those of the message read.\<close>

lemma on_read_payload_effect:
  assumes "accepting_writer wr contents sent"
  shows "\<exists>c'. on_read_payload wr True c = Inr c' \<and>
    contents (dm_pipes c') = contents (dm_pipes c) \<and>
    sent (dm_pipes c') = sent (dm_pipes c) @ replies_for [(message_id c, body)] \<and>
    length (message_header_bytes c') = length (message_header_bytes c) \<and>
    (\<forall>ms. dm_calls c' @ calls_for ms (message_payload_buffer c') =
          dm_calls c @ calls_for ((message_id c, []) # ms) (message_payload_buffer c))"
proof (cases "message_id c = MsgPing")
  case True
  obtain p' where "send wr MsgPong [] c = Inr (c\<lparr>write_buffer := message_bytes (MsgPong, []), dm_pipes := p'\<rparr>)"
    and "contents p' = contents (dm_pipes c)"
    and "sent p' = sent (dm_pipes c) @ message_bytes (MsgPong, [])"
    using send_effect[OF assms] by blast
  with True show ?thesis by (simp add: on_read_payload_def)
next
  case False
  then show ?thesis
    by (cases "message_id c") (simp_all add: on_read_payload_def Let_def)
qed

section \<open>The loop implements the protocol\<close>

lemma run_short:
  assumes "exact_reader rd contents sent" and "length (contents (dm_pipes c)) < 4"
  shows "\<exists>c'. io_service_run rd wr c = Some (Inr c') \<and> dm_calls c' = dm_calls c \<and>
    sent (dm_pipes c') = sent (dm_pipes c) \<and> contents (dm_pipes c') = []"
proof -
  obtain p' where "rd 4 (dm_pipes c) =
      (4 \<le> length (contents (dm_pipes c)), take 4 (contents (dm_pipes c)), p')"
    and "contents p' = drop 4 (contents (dm_pipes c))" and "sent p' = sent (dm_pipes c)"
    using readD[OF assms(1)] .
  with assms(2) show ?thesis
    by (subst io_service_run.simps) (simp add: read_header_def on_read_header_def)
qed

lemma read_whole_header:
  assumes "exact_reader rd contents sent" and "contents (dm_pipes c) = b0 # b1 # b2 # b3 # bs"
    and "length (message_header_bytes c) = 4"
  shows "\<exists>p'. read_header rd c =
      (True, c\<lparr>dm_pipes := p', message_header_bytes := [b0, b1, b2, b3]\<rparr>) \<and>
    contents p' = bs \<and> sent p' = sent (dm_pipes c)"
proof -
  obtain p' where "rd 4 (dm_pipes c) =
      (4 \<le> length (contents (dm_pipes c)), take 4 (contents (dm_pipes c)), p')"
    and "contents p' = drop 4 (contents (dm_pipes c))" and "sent p' = sent (dm_pipes c)"
    using readD[OF assms(1)] .
  with assms(2,3) show ?thesis by (intro exI[of _ p']) (simp add: read_header_def)
qed

lemma io_service_run_parses:
  assumes rd: "exact_reader rd contents sent" and wr: "accepting_writer wr contents sent"
    and "length (message_header_bytes c) = 4"
  shows "\<exists>c'. io_service_run rd wr c = Some (Inr c') \<and>
    dm_calls c' = dm_calls c @ calls_for (parse_stream (contents (dm_pipes c))) (message_payload_buffer c) \<and>
    sent (dm_pipes c') = sent (dm_pipes c) @ replies_for (parse_stream (contents (dm_pipes c))) \<and>
    contents (dm_pipes c') = []"
  using assms(3)
proof (induction "length (contents (dm_pipes c))" arbitrary: c rule: less_induct)
  case less
  show ?case
  proof (cases "length (contents (dm_pipes c)) < 4")
    case True
    then show ?thesis using run_short[OF rd True, of wr] by (simp add: parse_short)
  next
    case False
    then obtain b0 b1 b2 b3 bs where bs: "contents (dm_pipes c) = b0 # b1 # b2 # b3 # bs"
      by (cases "contents (dm_pipes c)" rule: parse_stream.cases) auto
    obtain p1 where p1: "read_header rd c =
        (True, c\<lparr>dm_pipes := p1, message_header_bytes := [b0, b1, b2, b3]\<rparr>)"
      "contents p1 = bs" "sent p1 = sent (dm_pipes c)"
      using read_whole_header[OF rd bs less.prems] by blast
    let ?n = "be16 b2 b3"
    obtain p2 where p2: "rd ?n p1 = (?n \<le> length bs, take ?n bs, p2)"
      "contents p2 = drop ?n bs" "sent p2 = sent (dm_pipes c)"
      using readD[OF rd, of ?n p1] p1(2,3) by metis
    let ?c2 = "c\<lparr>message_header_bytes := [b0, b1, b2, b3], dm_pipes := p2,
      message_payload_buffer := message_payload_buffer c @ take ?n bs\<rparr>"
    have step: "io_service_run rd wr c =
        (case on_read_payload wr (?n \<le> length bs) ?c2 of
           Inl e \<Rightarrow> Some (Inl e) | Inr c3 \<Rightarrow> io_service_run rd wr c3)"
      by (subst io_service_run.simps)
        (cases "on_read_payload wr (?n \<le> length bs) ?c2",
         simp_all add: p1(1) p2(1) on_read_header_def payload_length_def)
    show ?thesis
    proof (cases "?n \<le> length bs")
      case True
      obtain c3 where c3: "on_read_payload wr True ?c2 = Inr c3"
        "contents (dm_pipes c3) = drop ?n bs"
        "sent (dm_pipes c3) = sent (dm_pipes c) @ replies_for [(message_id ?c2, take ?n bs)]"
        "length (message_header_bytes c3) = 4"
        "\<And>ms. dm_calls c3 @ calls_for ms (message_payload_buffer c3) =
          dm_calls c @ calls_for ((message_id ?c2, []) # ms) (message_payload_buffer ?c2)"
        using on_read_payload_effect[OF wr, of ?c2 "take ?n bs"] p2(2,3) by auto
      have "length (contents (dm_pipes c3)) < length (contents (dm_pipes c))"
        by (simp add: c3(2) bs)
      from less.hyps[OF this c3(4)] obtain c' where c':
        "io_service_run rd wr c3 = Some (Inr c')"
        "dm_calls c' = dm_calls c3 @ calls_for (parse_stream (drop ?n bs)) (message_payload_buffer c3)"
        "sent (dm_pipes c') = sent (dm_pipes c3) @ replies_for (parse_stream (drop ?n bs))"
        "contents (dm_pipes c') = []"
        unfolding c3(2) by blast
      have "message_id ?c2 = message_id_of (be16 b0 b1)" by (simp add: message_id_def)
      with c' True show ?thesis
        by (simp add: step c3(1,3,5) bs cong: usc_message_id.case_cong)
    next
      case False
      then have "contents (dm_pipes ?c2) = []" by (simp add: p2(2))
      then have "length (contents (dm_pipes ?c2)) < 4" by simp
      from run_short[OF rd this, of wr] False show ?thesis
        by (simp add: step on_read_payload_def bs p2(3))
    qed
  qed
qed

end
