(* ===== verification/Dm_Props.thy ===== *)
theory Dm_Props
  imports Dm_Protocol
begin

text \<open>
  Properties of the display manager connection: it implements the protocol on every byte stream and
  always stops at its end, what one side sends the other side receives, and what happens to the
  payload of a message that is ignored.
\<close>

lemma send_effect_start:
  assumes "accepting_writer wr contents sent"
  shows "\<exists>c1. send_ready wr c = Inr c1 \<and> contents (dm_pipes c1) = contents (dm_pipes c) \<and>
    sent (dm_pipes c1) = sent (dm_pipes c) @ header_bytes MsgReady 0 \<and>
    dm_calls c1 = dm_calls c \<and> message_payload_buffer c1 = message_payload_buffer c \<and>
    message_header_bytes c1 = message_header_bytes c"
  using send_effect[OF assms, of MsgReady "[]" c] by (auto simp: send_ready_def)

lemma start_parses:
  assumes rd: "exact_reader rd contents sent" and wr: "accepting_writer wr contents sent"
    and "length (message_header_bytes c) = 4"
  shows "\<exists>c'. start rd wr c = Some (Inr c') \<and>
    dm_calls c' = dm_calls c @ calls_for (parse_stream (contents (dm_pipes c))) (message_payload_buffer c) \<and>
    sent (dm_pipes c') =
      sent (dm_pipes c) @ header_bytes MsgReady 0 @ replies_for (parse_stream (contents (dm_pipes c))) \<and>
    contents (dm_pipes c') = []"
proof -
  obtain c1 where c1: "send_ready wr c = Inr c1" "contents (dm_pipes c1) = contents (dm_pipes c)"
    "sent (dm_pipes c1) = sent (dm_pipes c) @ header_bytes MsgReady 0"
    "dm_calls c1 = dm_calls c" "message_payload_buffer c1 = message_payload_buffer c"
    "message_header_bytes c1 = message_header_bytes c"
    using send_effect_start[OF wr] by blast
  then have "length (message_header_bytes c1) = 4" using assms(3) by simp
  from io_service_run_parses[OF rd wr this] show ?thesis
    by (auto simp: start_def c1)
qed

lemma send_all:
  assumes "accepting_writer wr contents sent"
  shows "\<exists>c'. for_each (\<lambda>(mid, body). send wr mid body) msgs c = Inr c' \<and>
    sent (dm_pipes c') = sent (dm_pipes c) @ concat (map message_bytes msgs)"
proof (induction msgs arbitrary: c)
  case Nil
  then show ?case by simp
next
  case (Cons msg msgs)
  obtain mid body where msg: "msg = (mid, body)" by force
  obtain p' where p': "send wr mid body c =
      Inr (c\<lparr>write_buffer := message_bytes (mid, body), dm_pipes := p'\<rparr>)"
    "sent p' = sent (dm_pipes c) @ message_bytes (mid, body)"
    using send_effect[OF assms] by blast
  show ?case
    using Cons[of "c\<lparr>write_buffer := message_bytes (mid, body), dm_pipes := p'\<rparr>"]
    by (auto simp: msg p')
qed

section \<open>Every byte stream\<close>

text \<open>
  C7. Started on any finite byte stream, well formed or not, the connection announces itself,
  handles exactly the messages the framing cuts out of the stream, in order (each ping is answered
  by a pong, each session message calls the handler), consumes the stream and stops; nothing is
  handled beyond the last whole message.
\<close>

theorem dm_stream_implemented:
  assumes "exact_reader rd contents sent" and "accepting_writer wr contents sent"
    and "length hdr = 4"
  shows "\<exists>c'. start rd wr (new_dm_connection hdr p) = Some (Inr c') \<and>
    dm_calls c' = calls_for (parse_stream (contents p)) [] \<and>
    sent (dm_pipes c') = sent p @ header_bytes MsgReady 0 @ replies_for (parse_stream (contents p)) \<and>
    contents (dm_pipes c') = []"
  using start_parses[OF assms(1,2), of "new_dm_connection hdr p"] assms(3)
  by (simp add: new_dm_connection_def)

theorem dm_stream_implemented_witness:
  "\<exists>c'. start list_reader list_writer
      (new_dm_connection [0, 0, 0, 0] ([0, 0, 0, 0, 0, 5, 0, 1, 97, 0, 4, 0, 9, 98], [])) =
      Some (Inr c') \<and>
    dm_calls c' = [CallSetNextSession ''a''] \<and>
    snd (dm_pipes c') = [0, 2, 0, 0, 0, 1, 0, 0]"
proof -
  have "parse_stream [0, 0, 0, 0, 0, 5, 0, 1, 97, 0, 4, 0, 9, 98] =
      [(MsgPing, []), (MsgSetNextSession, [97])]"
    by (simp add: be16_eq message_id_of_def)
  moreover have "header_bytes MsgReady 0 = [0, 2, 0, 0]" "header_bytes MsgPong 0 = [0, 1, 0, 0]"
    by (simp_all add: header_bytes_def)
  moreover have "text_of [97] = ''a''" by code_simp
  ultimately show ?thesis
    using dm_stream_implemented[OF list_pipes, of "[0, 0, 0, 0]"
        "([0, 0, 0, 0, 0, 5, 0, 1, 97, 0, 4, 0, 9, 98], [])"]
    by (auto simp del: parse_stream.simps)
qed

section \<open>From one side to the other\<close>

definition sets_session :: "usc_message_id \<Rightarrow> bool" where
  "sets_session mid \<longleftrightarrow> mid = MsgSetActiveSession \<or> mid = MsgSetNextSession"

text \<open>The call a message asks for by itself.\<close>

fun own_call :: "message \<Rightarrow> dm_call option" where
  "own_call (MsgSetActiveSession, body) = Some (CallSetActiveSession (text_of body))"
| "own_call (MsgSetNextSession, body) = Some (CallSetNextSession (text_of body))"
| "own_call _ = None"

lemma calls_for_clean:
  "list_all (\<lambda>(mid, body). sets_session mid \<or> body = []) msgs \<Longrightarrow>
   calls_for msgs [] = List.map_filter own_call msgs"
proof (induction msgs)
  case Nil
  then show ?case by (simp add: map_filter_simps)
next
  case (Cons msg msgs)
  obtain mid body where "msg = (mid, body)" by force
  with Cons show ?case
    by (cases mid) (auto simp: map_filter_simps sets_session_def)
qed

text \<open>
  C27. What one side sends with \<open>send\<close> the other side handles: if every message fits its header and
  those other than session messages have no payload, the receiver makes exactly the calls the
  messages ask for, in the order sent, even when the last message sent was cut short by the pipe
  closing.
\<close>

theorem messages_survive_the_pipe:
  assumes rd: "exact_reader rd contents sent" and wr: "accepting_writer wr contents sent"
    and msgs: "list_all valid_message msgs" "valid_message msg"
      "list_all (\<lambda>(mid, body). sets_session mid \<or> body = []) msgs"
    and cut: "n < length (message_bytes msg)" and "sent p = []" and "length hdr' = 4"
  shows "\<exists>c'. for_each (\<lambda>(mid, body). send wr mid body) msgs (new_dm_connection hdr p) = Inr c' \<and>
    (contents q = sent (dm_pipes c') @ take n (message_bytes msg) \<longrightarrow>
      (\<exists>d. start rd wr (new_dm_connection hdr' q) = Some (Inr d) \<and>
        dm_calls d = List.map_filter own_call msgs))"
proof -
  obtain c' where c': "for_each (\<lambda>(mid, body). send wr mid body) msgs (new_dm_connection hdr p) = Inr c'"
      "sent (dm_pipes c') = concat (map message_bytes msgs)"
    using send_all[OF wr, of msgs "new_dm_connection hdr p"] assms(7)
    by (auto simp: new_dm_connection_def)
  have parse: "parse_stream (concat (map message_bytes msgs) @ take n (message_bytes msg)) = msgs"
    by (simp only: dm_codec.fc_parse_cut[OF msgs(1,2) cut])
  obtain d where "start rd wr (new_dm_connection hdr' q) = Some (Inr d)"
    and "dm_calls d = calls_for (parse_stream (contents q)) []"
    using start_parses[OF rd wr, of "new_dm_connection hdr' q"] assms(8)
    by (auto simp: new_dm_connection_def)
  then show ?thesis
    using parse calls_for_clean[OF msgs(3)] by (intro exI[of _ c']) (simp add: c')
qed

theorem messages_survive_the_pipe_witness:
  "\<exists>d. start list_reader list_writer (new_dm_connection [0, 0, 0, 0]
      (message_bytes (MsgSetActiveSession, [97]) @ message_bytes (MsgPing, []) @ [0, 4, 0], [])) =
      Some (Inr d) \<and> dm_calls d = [CallSetActiveSession (text_of [97])]"
proof -
  let ?msgs = "[(MsgSetActiveSession, [97]), (MsgPing, [])] :: message list"
  let ?q = "(message_bytes (MsgSetActiveSession, [97]) @ message_bytes (MsgPing, []) @ [0, 4, 0], [])"
  have cut: "take 3 (message_bytes (MsgSetActiveSession, [])) = [0, 4, 0]"
    by (simp add: header_bytes_def)
  obtain c' where c': "for_each (\<lambda>(mid, body). send list_writer mid body) ?msgs
        (new_dm_connection [] ([], [])) = Inr c'"
      "fst ?q = snd (dm_pipes c') @ take 3 (message_bytes (MsgSetActiveSession, [])) \<longrightarrow>
        (\<exists>d. start list_reader list_writer (new_dm_connection [0, 0, 0, 0] ?q) = Some (Inr d) \<and>
          dm_calls d = List.map_filter own_call ?msgs)"
    using messages_survive_the_pipe[OF list_pipes, of ?msgs "(MsgSetActiveSession, [])" 3 "([], [])"
        "[0, 0, 0, 0]" "[]" ?q]
    by (auto simp: valid_message_def message_id_of_def sets_session_def header_bytes_def)
  then have "snd (dm_pipes c') = message_bytes (MsgSetActiveSession, [97]) @ message_bytes (MsgPing, [])"
    by (auto simp: send_def new_dm_connection_def Let_def)
  then show ?thesis using c'(2) cut by (simp add: map_filter_simps)
qed

section \<open>Payload left in the buffer\<close>

text \<open>
  C38. The payload of a message that sets no session (a ping, a pong, an unknown one) is read but not
  taken out of the buffer: it becomes the beginning of the next session name.
\<close>

theorem ignored_payload_joins_next_name:
  assumes "exact_reader rd contents sent" and "accepting_writer wr contents sent"
    and "length hdr = 4" and "\<not> sets_session mid"
    and "valid_message (mid, junk)" and "valid_message (MsgSetActiveSession, name)"
    and "contents p = message_bytes (mid, junk) @ message_bytes (MsgSetActiveSession, name)"
  shows "\<exists>c'. start rd wr (new_dm_connection hdr p) = Some (Inr c') \<and>
    dm_calls c' = [CallSetActiveSession (text_of (junk @ name))]"
proof -
  have "parse_stream (contents p) = [(mid, junk), (MsgSetActiveSession, name)]"
    using dm_codec.fc_parse_all[of "[(mid, junk), (MsgSetActiveSession, name)]" "[]"] assms(5-7)
    by simp
  moreover have "calls_for [(mid, junk), (MsgSetActiveSession, name)] [] =
      [CallSetActiveSession (text_of (junk @ name))]"
    using assms(4) by (cases mid) (auto simp: sets_session_def)
  ultimately show ?thesis
    using start_parses[OF assms(1,2), of "new_dm_connection hdr p"] assms(3)
    by (auto simp: new_dm_connection_def)
qed

theorem ignored_payload_joins_next_name_witness:
  "\<exists>c'. start list_reader list_writer
      (new_dm_connection [0, 0, 0, 0] (message_bytes (MsgOther 9, [120]) @
        message_bytes (MsgSetActiveSession, [121]), [])) = Some (Inr c') \<and>
    dm_calls c' = [CallSetActiveSession ''xy'']"
proof -
  have "text_of [120, 121] = ''xy''" by code_simp
  then show ?thesis
    using ignored_payload_joins_next_name[OF list_pipes, of "[0, 0, 0, 0]" "MsgOther 9" "[120]"
        "[121]" "(message_bytes (MsgOther 9, [120]) @ message_bytes (MsgSetActiveSession, [121]), [])"]
    by (simp add: sets_session_def valid_message_def message_id_of_def)
qed

end
