(* ===== verification/Dm_Shutdown.thy ===== *)
theory Dm_Shutdown
  imports Dm_Props "HOL-Library.Sublist"
begin

text \<open>
  The display manager connection's thread, handler by handler, and its destructor
  (\<open>~AsioDMConnection\<close> of \<open>src/asio_dm_connection.cpp\<close>): \<open>io_service.stop\<close> lets the handler that
  runs finish and no other start. Each handler is a turn; running all turns is \<open>io_service_run\<close>.
\<close>

section \<open>Turns\<close>

text \<open>Which read the thread waits for.\<close>

datatype awaited = AwaitHeader | AwaitPayload | AwaitNothing

text \<open>One completed read and its handler, \<open>on_read_header\<close> or \<open>on_read_payload\<close>.\<close>

fun dm_turn ::
  "'p reader \<Rightarrow> 'p writer \<Rightarrow> awaited \<times> 'p dm_connection \<Rightarrow> (awaited \<times> 'p dm_connection) res" where
  "dm_turn rd wr (AwaitHeader, c) =
     (let (ok, c1) = read_header rd c in Inr (if ok then AwaitPayload else AwaitNothing, c1))"
| "dm_turn rd wr (AwaitPayload, c) =
     (let (ok, bs, p) = rd (payload_length c) (dm_pipes c);
          c1 = c\<lparr>dm_pipes := p, message_payload_buffer := message_payload_buffer c @ bs\<rparr>
      in bind_res (on_read_payload wr ok c1) (\<lambda>c2. Inr (AwaitHeader, c2)))"
| "dm_turn rd wr (AwaitNothing, c) = Inr (AwaitNothing, c)"

fun dm_turns ::
  "'p reader \<Rightarrow> 'p writer \<Rightarrow> nat \<Rightarrow> awaited \<times> 'p dm_connection \<Rightarrow> (awaited \<times> 'p dm_connection) res"
  where
  "dm_turns rd wr 0 x = Inr x"
| "dm_turns rd wr (Suc n) x = bind_res (dm_turn rd wr x) (dm_turns rd wr n)"

text \<open>\<open>start\<close>, and the destructor once \<open>n\<close> handlers have run: what the joined thread leaves. The
  bytes of a read that had not completed are lost with the connection.\<close>

definition start_and_destroy ::
  "'p reader \<Rightarrow> 'p writer \<Rightarrow> nat \<Rightarrow> 'p dm_connection \<Rightarrow> (awaited \<times> 'p dm_connection) res" where
  "start_and_destroy rd wr n c =
     bind_res (send_ready wr c) (\<lambda>c1. dm_turns rd wr n (AwaitHeader, c1))"

section \<open>Turns and runs\<close>

lemma turns_nothing [simp]: "dm_turns rd wr n (AwaitNothing, c) = Inr (AwaitNothing, c)"
  by (induction n) auto

text \<open>From a header on: either none is left and the thread has nothing to do, or a header and its
  payload are two turns, after which less is left to read.\<close>

lemma header_turns:
  assumes rd: "exact_reader rd contents sent" and wr: "accepting_writer wr contents sent"
    and hdr: "length (message_header_bytes c) = 4"
  shows "(\<exists>d. dm_turn rd wr (AwaitHeader, c) = Inr (AwaitNothing, d) \<and>
       io_service_run rd wr c = Some (Inr d) \<and> dm_calls d = dm_calls c) \<or>
    (\<exists>c1 c2. dm_turn rd wr (AwaitHeader, c) = Inr (AwaitPayload, c1) \<and>
       dm_turn rd wr (AwaitPayload, c1) = Inr (AwaitHeader, c2) \<and>
       dm_calls c1 = dm_calls c \<and> length (message_header_bytes c2) = 4 \<and>
       length (contents (dm_pipes c2)) < length (contents (dm_pipes c)) \<and>
       io_service_run rd wr c = io_service_run rd wr c2)"
proof (cases "length (contents (dm_pipes c)) < 4")
  case True
  then obtain p where "rd 4 (dm_pipes c) = (False, contents (dm_pipes c), p)"
    using readD[OF rd, of 4 "dm_pipes c"] by fastforce
  then have h: "read_header rd c = (False, c\<lparr>dm_pipes := p, message_header_bytes :=
      contents (dm_pipes c) @ drop (length (contents (dm_pipes c))) (message_header_bytes c)\<rparr>)"
    by (simp add: read_header_def)
  show ?thesis
    by (subst io_service_run.simps) (simp add: h on_read_header_def)
next
  case False
  then obtain b0 b1 b2 b3 bs where bs: "contents (dm_pipes c) = b0 # b1 # b2 # b3 # bs"
    by (cases "contents (dm_pipes c)" rule: parse_stream.cases) auto
  obtain p1 where p1: "read_header rd c =
      (True, c\<lparr>dm_pipes := p1, message_header_bytes := [b0, b1, b2, b3]\<rparr>)" "contents p1 = bs"
    using read_whole_header[OF rd bs hdr] by blast
  let ?n = "be16 b2 b3"
  obtain p2 where p2: "rd ?n p1 = (?n \<le> length bs, take ?n bs, p2)" "contents p2 = drop ?n bs"
    using readD[OF rd, of ?n p1] p1(2) by metis
  let ?c2 = "c\<lparr>message_header_bytes := [b0, b1, b2, b3], dm_pipes := p2,
    message_payload_buffer := message_payload_buffer c @ take ?n bs\<rparr>"
  have "\<exists>c3. on_read_payload wr (?n \<le> length bs) ?c2 = Inr c3 \<and>
      contents (dm_pipes c3) = drop ?n bs \<and> length (message_header_bytes c3) = 4"
  proof (cases "?n \<le> length bs")
    case True
    then show ?thesis using on_read_payload_effect[OF wr, of ?c2] p2(2) by fastforce
  next
    case False
    then show ?thesis by (simp add: on_read_payload_def p2(2))
  qed
  then obtain c3 where c3: "on_read_payload wr (?n \<le> length bs) ?c2 = Inr c3"
    "contents (dm_pipes c3) = drop ?n bs" "length (message_header_bytes c3) = 4" by blast
  have "io_service_run rd wr c = io_service_run rd wr c3"
    by (subst io_service_run.simps) (simp add: p1(1) p2(1) c3(1) on_read_header_def payload_length_def)
  then show ?thesis
    by (intro disjI2 exI[of _ "c\<lparr>dm_pipes := p1, message_header_bytes := [b0, b1, b2, b3]\<rparr>"]
        exI[of _ c3]) (simp add: p1(1) p2(1) c3 payload_length_def bs)
qed

lemma turns_reach_end:
  assumes rd: "exact_reader rd contents sent" and wr: "accepting_writer wr contents sent"
    and "length (message_header_bytes c) = 4" and "io_service_run rd wr c = Some (Inr d)"
  shows "\<exists>n. dm_turns rd wr n (AwaitHeader, c) = Inr (AwaitNothing, d)"
  using assms(3,4)
proof (induction "length (contents (dm_pipes c))" arbitrary: c rule: less_induct)
  case less
  from header_turns[OF rd wr less.prems(1)] show ?case
  proof (elim disjE exE conjE)
    fix d'
    assume "dm_turn rd wr (AwaitHeader, c) = Inr (AwaitNothing, d')" "io_service_run rd wr c = Some (Inr d')"
    with less.prems(2) show ?thesis by (intro exI[of _ 1]) (simp del: dm_turn.simps)
  next
    fix c1 c2
    assume t: "dm_turn rd wr (AwaitHeader, c) = Inr (AwaitPayload, c1)"
      "dm_turn rd wr (AwaitPayload, c1) = Inr (AwaitHeader, c2)" "length (message_header_bytes c2) = 4"
      "length (contents (dm_pipes c2)) < length (contents (dm_pipes c))"
      "io_service_run rd wr c = io_service_run rd wr c2"
    from less.hyps[OF t(4,3)] t(5) less.prems(2)
    obtain n where "dm_turns rd wr n (AwaitHeader, c2) = Inr (AwaitNothing, d)" by auto
    then show ?thesis by (intro exI[of _ "Suc (Suc n)"]) (simp add: t(1,2) del: dm_turn.simps)
  qed
qed

lemma turns_call_prefix:
  assumes rd: "exact_reader rd contents sent" and wr: "accepting_writer wr contents sent"
    and "length (message_header_bytes c) = 4" and "io_service_run rd wr c = Some (Inr d)"
  shows "\<exists>a c'. dm_turns rd wr n (AwaitHeader, c) = Inr (a, c') \<and> prefix (dm_calls c') (dm_calls d)"
  using assms(3,4)
proof (induction n arbitrary: c rule: less_induct)
  case (less n)
  have sofar: "prefix (dm_calls c) (dm_calls d)"
    using io_service_run_parses[OF rd wr less.prems(1)] less.prems(2) by auto
  show ?case
  proof (cases n)
    case 0
    then show ?thesis using sofar by simp
  next
    case (Suc m)
    from header_turns[OF rd wr less.prems(1)] show ?thesis
    proof (elim disjE exE conjE)
      fix d'
      assume "dm_turn rd wr (AwaitHeader, c) = Inr (AwaitNothing, d')" "dm_calls d' = dm_calls c"
      with sofar Suc show ?thesis by (simp del: dm_turn.simps)
    next
      fix c1 c2
      assume t: "dm_turn rd wr (AwaitHeader, c) = Inr (AwaitPayload, c1)"
        "dm_turn rd wr (AwaitPayload, c1) = Inr (AwaitHeader, c2)" "dm_calls c1 = dm_calls c"
        "length (message_header_bytes c2) = 4" "io_service_run rd wr c = io_service_run rd wr c2"
      show ?thesis
      proof (cases m)
        case 0
        then show ?thesis using Suc t(1,3) sofar by (simp del: dm_turn.simps)
      next
        case (Suc k)
        have "k < n" using \<open>n = Suc m\<close> Suc by simp
        from less.IH[OF this t(4)] t(5) less.prems(2) show ?thesis
          by (auto simp: \<open>n = Suc m\<close> Suc t(1,2) simp del: dm_turn.simps)
      qed
    qed
  qed
qed

text \<open>
  C21. Whenever the connection is destroyed, the calls its thread has made on the switcher are a
  prefix of those the whole byte stream asks for: none out of order, none of a message cut in two.
  No handler throws, and a connection left alone ends, with all of the calls made, in a state in
  which its thread waits for nothing, the very one the loop is proved to end in.
\<close>

theorem destroyed_connection_called_prefix:
  assumes "exact_reader rd contents sent" and "accepting_writer wr contents sent" and "length hdr = 4"
  shows "(\<exists>a c. start_and_destroy rd wr n (new_dm_connection hdr p) = Inr (a, c) \<and>
       prefix (dm_calls c) (calls_for (parse_stream (contents p)) [])) \<and>
    (\<exists>d m. start rd wr (new_dm_connection hdr p) = Some (Inr d) \<and>
       dm_calls d = calls_for (parse_stream (contents p)) [] \<and>
       start_and_destroy rd wr m (new_dm_connection hdr p) = Inr (AwaitNothing, d))"
proof -
  let ?c = "new_dm_connection hdr p"
  obtain d where d: "start rd wr ?c = Some (Inr d)"
    "dm_calls d = calls_for (parse_stream (contents p)) []"
    using start_parses[OF assms(1,2), of ?c] assms(3) by (auto simp: new_dm_connection_def)
  obtain c1 where c1: "send_ready wr ?c = Inr c1" "length (message_header_bytes c1) = 4"
    using send_effect[OF assms(2), of MsgReady "[]" ?c] assms(3)
    by (auto simp: send_ready_def new_dm_connection_def)
  have run: "io_service_run rd wr c1 = Some (Inr d)" using d(1) by (simp add: start_def c1(1))
  obtain m where "dm_turns rd wr m (AwaitHeader, c1) = Inr (AwaitNothing, d)"
    using turns_reach_end[OF assms(1,2) c1(2) run] by blast
  with turns_call_prefix[OF assms(1,2) c1(2) run, of n] d show ?thesis
    by (auto simp: start_and_destroy_def c1(1))
qed

theorem destroyed_connection_called_prefix_witness:
  "\<exists>a c. start_and_destroy list_reader list_writer 3 (new_dm_connection [0, 0, 0, 0]
        ([0, 4, 0, 1, 97, 0, 5, 0, 1, 98], [])) = Inr (a, c) \<and>
     prefix (dm_calls c) [CallSetActiveSession ''a'', CallSetNextSession ''b'']"
proof -
  let ?bs = "[0, 4, 0, 1, 97, 0, 5, 0, 1, 98] :: byte list"
  have "parse_stream ?bs = [(MsgSetActiveSession, [97]), (MsgSetNextSession, [98])]"
    by (simp add: be16_eq message_id_of_def)
  moreover have "text_of [97] = ''a''" "text_of [98] = ''b''" by code_simp+
  ultimately have "calls_for (parse_stream ?bs) [] = [CallSetActiveSession ''a'', CallSetNextSession ''b'']"
    by simp
  with destroyed_connection_called_prefix[OF list_pipes, of "[0, 0, 0, 0]" 3 "(?bs, [])"]
  show ?thesis by (simp del: parse_stream.simps)
qed

end
