(* ===== verification/Screen_Event_Handler.thy ===== *)
theory Screen_Event_Handler
  imports Prelude
begin

text \<open>
  \<open>ScreenEventHandler\<close> (\<open>src/screen_event_handler.{h,cpp}\<close>): an input event filter that reports the
  power key and, at most twice a second, user activity. Times are nanoseconds. The clock is an
  argument: \<open>clock n\<close> is the result of the \<open>n\<close>-th call of \<open>now\<close>, and the record counts the calls
  made. Each call on a sink is recorded with the number of clock readings made before it.
\<close>

section \<open>Events\<close>

datatype keyboard_action = KeyUp | KeyDown | KeyRepeat

datatype input_event = KeyEvent int keyboard_action | TouchEvent | PointerEvent | OtherInputEvent

datatype mir_event = InputEvent input_event | OtherMirEvent

text \<open>The scan codes of \<open>linux/input.h\<close>.\<close>

definition key_power :: int where "key_power = 116"
definition key_volume_down :: int where "key_volume_down = 114"
definition key_volume_up :: int where "key_volume_up = 115"

section \<open>State and operations\<close>

datatype sink_call = NotifyPress | NotifyRelease | NotifyChanging | NotifyExtending

type_synonym clock = "nat \<Rightarrow> int"

record screen_event_handler =
  last_activity_changing_power_state_event_time :: int
  last_activity_extending_power_state_event_time :: int
  clock_reads :: nat
  sink_calls :: "(sink_call \<times> nat) list"

definition event_period :: int where "event_period = 500 * 1000000"

definition new_screen_event_handler :: screen_event_handler where
  "new_screen_event_handler =
     \<lparr>last_activity_changing_power_state_event_time = - event_period,
      last_activity_extending_power_state_event_time = - event_period,
      clock_reads = 0, sink_calls = []\<rparr>"

definition now :: "clock \<Rightarrow> screen_event_handler \<Rightarrow> int \<times> screen_event_handler" where
  "now clock h = (clock (clock_reads h), h\<lparr>clock_reads := clock_reads h + 1\<rparr>)"

definition call_sink :: "sink_call \<Rightarrow> screen_event_handler \<Rightarrow> screen_event_handler" where
  "call_sink c h = h\<lparr>sink_calls := sink_calls h @ [(c, clock_reads h)]\<rparr>"

text \<open>The clock is read twice: before the sink is called and again for the time kept.\<close>

definition notify_activity_changing_power_state ::
  "clock \<Rightarrow> screen_event_handler \<Rightarrow> screen_event_handler" where
  "notify_activity_changing_power_state clock h =
     (let (t, h1) = now clock h
      in if t \<ge> last_activity_changing_power_state_event_time h1 + event_period then
           (let h2 = call_sink NotifyChanging h1; (t2, h3) = now clock h2
            in h3\<lparr>last_activity_changing_power_state_event_time := t2\<rparr>)
         else h1)"

definition notify_activity_extending_power_state ::
  "clock \<Rightarrow> screen_event_handler \<Rightarrow> screen_event_handler" where
  "notify_activity_extending_power_state clock h =
     (let (t, h1) = now clock h
      in if t \<ge> last_activity_extending_power_state_event_time h1 + event_period then
           (let h2 = call_sink NotifyExtending h1; (t2, h3) = now clock h2
            in h3\<lparr>last_activity_extending_power_state_event_time := t2\<rparr>)
         else h1)"

definition handle :: "clock \<Rightarrow> mir_event \<Rightarrow> screen_event_handler \<Rightarrow> bool \<times> screen_event_handler"
  where
  "handle clock event h =
     (case event of
        OtherMirEvent \<Rightarrow> (False, h)
      | InputEvent input \<Rightarrow>
          (False,
           case input of
             KeyEvent scan_code action \<Rightarrow>
               if scan_code = key_power then
                 (if action = KeyDown then call_sink NotifyPress h
                  else if action = KeyUp then call_sink NotifyRelease h
                  else h)
               else if scan_code = key_volume_down \<or> scan_code = key_volume_up then h
               else if action = KeyDown then notify_activity_changing_power_state clock h
               else notify_activity_extending_power_state clock h
           | TouchEvent \<Rightarrow> notify_activity_extending_power_state clock h
           | PointerEvent \<Rightarrow> notify_activity_changing_power_state clock h
           | OtherInputEvent \<Rightarrow> h))"

definition handle_all :: "clock \<Rightarrow> mir_event list \<Rightarrow> screen_event_handler \<Rightarrow> screen_event_handler"
  where
  "handle_all clock events h = fold (\<lambda>e h. snd (handle clock e h)) events h"

section \<open>Rate limiting\<close>

text \<open>
  The contract of a rate-limited notifier: it reads the clock, and if the period has passed since
  the time it kept it notifies and keeps a second reading. \<open>stamps\<close> are the positions of the
  readings kept, one for each notification.
\<close>

locale rate_limited =
  fixes notify :: "clock \<Rightarrow> 's \<Rightarrow> 's"
    and reads :: "'s \<Rightarrow> nat"
    and stamps :: "'s \<Rightarrow> nat list"
    and kept :: "'s \<Rightarrow> int"
    and period :: int
  assumes notify_due: "kept s + period \<le> clock (reads s) \<Longrightarrow>
      reads (notify clock s) = reads s + 2 \<and> stamps (notify clock s) = stamps s @ [reads s + 1] \<and>
      kept (notify clock s) = clock (reads s + 1)"
    and notify_early: "clock (reads s) < kept s + period \<Longrightarrow>
      reads (notify clock s) = reads s + 1 \<and> stamps (notify clock s) = stamps s \<and>
      kept (notify clock s) = kept s"
    and period_pos: "0 \<le> period"
begin

definition rl_inv :: "clock \<Rightarrow> 's \<Rightarrow> bool" where
  "rl_inv clock s \<longleftrightarrow>
     sorted_wrt (\<lambda>i j. i < j \<and> clock i + period \<le> clock (j - 1)) (stamps s) \<and>
     (\<forall>i \<in> set (stamps s). i < reads s) \<and>
     kept s = (if stamps s = [] then - period else clock (last (stamps s)))"

lemma rl_notify:
  assumes "rl_inv clock s" and "mono clock"
  shows "rl_inv clock (notify clock s)"
proof (cases "kept s + period \<le> clock (reads s)")
  case False
  then show ?thesis using assms(1) notify_early[of clock s] by (auto simp: rl_inv_def less_SucI)
next
  case True
  have "clock i + period \<le> clock (reads s)" if "i \<in> set (stamps s)" for i
  proof -
    have "i \<le> last (stamps s)"
    proof (cases "stamps s" rule: rev_cases)
      case (snoc ks j)
      then show ?thesis using that assms(1) by (auto simp: rl_inv_def sorted_wrt_append)
    qed (use that in simp)
    then have "clock i \<le> kept s"
      using that assms by (auto simp: rl_inv_def mono_def)
    with True show ?thesis by simp
  qed
  then show ?thesis
    using assms(1) notify_due[of s clock, OF True] by (auto simp: rl_inv_def sorted_wrt_append less_SucI)
qed

text \<open>Anything that only reads the clock keeps the invariant.\<close>

lemma rl_frame:
  assumes "rl_inv clock s" and "reads s \<le> reads s'" "stamps s' = stamps s" "kept s' = kept s"
  shows "rl_inv clock s'"
  using assms by (auto simp: rl_inv_def)

text \<open>Nothing is left unreported: after the notifier was asked, what it kept is at most one period
  older than the reading it was asked at.\<close>

lemma rl_recent:
  assumes "mono clock"
  shows "clock (reads s) < kept (notify clock s) + period \<or>
    stamps (notify clock s) = stamps s @ [reads s + 1]"
  using notify_due[of s clock] notify_early[of clock s] by (cases "kept s + period \<le> clock (reads s)") auto

end

definition stamps_of :: "sink_call \<Rightarrow> screen_event_handler \<Rightarrow> nat list" where
  "stamps_of c h = map snd (filter (\<lambda>(d, n). d = c) (sink_calls h))"

lemma stamps_of_call [simp]:
  "stamps_of c (call_sink d h) = stamps_of c h @ (if d = c then [clock_reads h] else [])"
  by (simp add: stamps_of_def call_sink_def)

lemmas event_handler_defs = now_def call_sink_def notify_activity_changing_power_state_def
  notify_activity_extending_power_state_def stamps_of_def Let_def

interpretation changing:
  rate_limited notify_activity_changing_power_state clock_reads "stamps_of NotifyChanging"
    last_activity_changing_power_state_event_time event_period
  by unfold_locales (auto simp: event_handler_defs event_period_def)

interpretation extending:
  rate_limited notify_activity_extending_power_state clock_reads "stamps_of NotifyExtending"
    last_activity_extending_power_state_event_time event_period
  by unfold_locales (auto simp: event_handler_defs event_period_def)

text \<open>Each notifier leaves the other's state alone.\<close>

lemma changing_frame:
  "clock_reads h \<le> clock_reads (notify_activity_changing_power_state clock h)"
  "stamps_of NotifyExtending (notify_activity_changing_power_state clock h) =
     stamps_of NotifyExtending h"
  "last_activity_extending_power_state_event_time (notify_activity_changing_power_state clock h) =
     last_activity_extending_power_state_event_time h"
  by (auto simp: event_handler_defs)

lemma extending_frame:
  "clock_reads h \<le> clock_reads (notify_activity_extending_power_state clock h)"
  "stamps_of NotifyChanging (notify_activity_extending_power_state clock h) =
     stamps_of NotifyChanging h"
  "last_activity_changing_power_state_event_time (notify_activity_extending_power_state clock h) =
     last_activity_changing_power_state_event_time h"
  by (auto simp: event_handler_defs)

lemma call_sink_frame:
  "clock_reads (call_sink c h) = clock_reads h"
  "last_activity_changing_power_state_event_time (call_sink c h) =
     last_activity_changing_power_state_event_time h"
  "last_activity_extending_power_state_event_time (call_sink c h) =
     last_activity_extending_power_state_event_time h"
  by (simp_all add: call_sink_def)

end
