(* ===== verification/Screen_Event_Props.thy ===== *)
theory Screen_Event_Props
  imports Screen_Event_Handler
begin

text \<open>
  Properties of the screen event handler over any sequence of input events: the rate limit, that no
  activity stays unreported, and what the power and volume keys do.
\<close>

definition limiters_ok :: "clock \<Rightarrow> screen_event_handler \<Rightarrow> bool" where
  "limiters_ok clock h \<longleftrightarrow> changing.rl_inv clock h \<and> extending.rl_inv clock h"

lemma limiters_new: "limiters_ok clock new_screen_event_handler"
  by (simp add: limiters_ok_def changing.rl_inv_def extending.rl_inv_def stamps_of_def
      new_screen_event_handler_def)

lemma limiters_changing:
  assumes "limiters_ok clock h" and "mono clock"
  shows "limiters_ok clock (notify_activity_changing_power_state clock h)"
  using assms changing.rl_notify[of clock h] extending.rl_frame[OF _ changing_frame(1-3)]
  by (auto simp: limiters_ok_def)

lemma limiters_extending:
  assumes "limiters_ok clock h" and "mono clock"
  shows "limiters_ok clock (notify_activity_extending_power_state clock h)"
  using assms extending.rl_notify[of clock h] changing.rl_frame[OF _ extending_frame(1-3)]
  by (auto simp: limiters_ok_def)

lemma limiters_power:
  assumes "limiters_ok clock h" and "c \<noteq> NotifyChanging" "c \<noteq> NotifyExtending"
  shows "limiters_ok clock (call_sink c h)"
  using assms changing.rl_frame[of clock h "call_sink c h"]
    extending.rl_frame[of clock h "call_sink c h"]
  by (simp add: limiters_ok_def call_sink_frame)

lemma limiters_handle:
  assumes "limiters_ok clock h" and "mono clock"
  shows "limiters_ok clock (snd (handle clock e h))"
  using assms limiters_changing[OF assms] limiters_extending[OF assms] limiters_power[OF assms(1)]
  by (auto simp: handle_def split: mir_event.split input_event.split)

lemma limiters_handle_all:
  assumes "limiters_ok clock h" and "mono clock"
  shows "limiters_ok clock (handle_all clock es h)"
  using assms(1) unfolding handle_all_def
  by (induction es arbitrary: h) (auto simp: limiters_handle[OF _ assms(2)])

text \<open>
  C23. However many events arrive, with a clock that does not go back any two notifications of the
  same kind are at least half a second apart: the reading taken before the later one is at least
  500 ms after the reading kept for the earlier one.
\<close>

theorem notifications_rate_limited:
  assumes "mono clock"
  shows "sorted_wrt (\<lambda>i j. i < j \<and> clock i + 500000000 \<le> clock (j - 1))
      (stamps_of NotifyChanging (handle_all clock events new_screen_event_handler)) \<and>
    sorted_wrt (\<lambda>i j. i < j \<and> clock i + 500000000 \<le> clock (j - 1))
      (stamps_of NotifyExtending (handle_all clock events new_screen_event_handler))"
  using limiters_handle_all[OF limiters_new assms, of events]
  unfolding limiters_ok_def changing.rl_inv_def extending.rl_inv_def
  by (simp add: event_period_def)

theorem notifications_rate_limited_witness:
  "stamps_of NotifyChanging (handle_all (\<lambda>n. int n * 200000000)
      (replicate 5 (InputEvent PointerEvent)) new_screen_event_handler) = [1, 5] \<and>
   sorted_wrt (\<lambda>i j. i < j \<and> int i * 200000000 + 500000000 \<le> int (j - 1) * 200000000)
      (stamps_of NotifyChanging (handle_all (\<lambda>n. int n * 200000000)
        (replicate 5 (InputEvent PointerEvent)) new_screen_event_handler))"
proof
  show "stamps_of NotifyChanging (handle_all (\<lambda>n. int n * 200000000)
      (replicate 5 (InputEvent PointerEvent)) new_screen_event_handler) = [1, 5]"
    by code_simp
  have "mono (\<lambda>n. int n * 200000000)" by (auto simp: mono_def)
  from notifications_rate_limited[OF this, of "replicate 5 (InputEvent PointerEvent)"]
  show "sorted_wrt (\<lambda>i j. i < j \<and> int i * 200000000 + 500000000 \<le> int (j - 1) * 200000000)
      (stamps_of NotifyChanging (handle_all (\<lambda>n. int n * 200000000)
        (replicate 5 (InputEvent PointerEvent)) new_screen_event_handler))"
    by blast
qed

section \<open>No activity stays unreported\<close>

text \<open>The kind of activity an event is, if any.\<close>

fun activity_kind :: "mir_event \<Rightarrow> sink_call option" where
  "activity_kind (InputEvent PointerEvent) = Some NotifyChanging"
| "activity_kind (InputEvent TouchEvent) = Some NotifyExtending"
| "activity_kind (InputEvent (KeyEvent scan_code action)) =
     (if scan_code \<in> {key_power, key_volume_down, key_volume_up} then None
      else Some (if action = KeyDown then NotifyChanging else NotifyExtending))"
| "activity_kind _ = None"

lemma handle_activity:
  "activity_kind e = Some NotifyChanging \<Longrightarrow>
     snd (handle clock e h) = notify_activity_changing_power_state clock h"
  "activity_kind e = Some NotifyExtending \<Longrightarrow>
     snd (handle clock e h) = notify_activity_extending_power_state clock h"
  by (auto simp: handle_def split: mir_event.splits input_event.splits if_splits
      elim!: activity_kind.elims)

lemma clock_nonneg: "mono clock \<Longrightarrow> 0 \<le> clock 0 \<Longrightarrow> 0 \<le> (clock :: clock) n"
  by (meson mono_def order_trans zero_le)

text \<open>
  C24. Every pointer, touch or (other than power and volume) key event is reported in time: once it
  is handled there is a notification of its kind whose time is less than 500 ms before the event's.
  In particular the first activity after start-up is always reported.
\<close>

theorem activity_reported_in_time:
  assumes "mono clock" and "0 \<le> clock 0" and "activity_kind e = Some c"
  shows "let h = handle_all clock events new_screen_event_handler; h' = snd (handle clock e h)
    in \<exists>i \<in> set (stamps_of c h'). clock (clock_reads h) < clock i + 500000000"
proof -
  let ?h = "handle_all clock events new_screen_event_handler"
  let ?t = "clock (clock_reads ?h)"
  have inv: "limiters_ok clock (snd (handle clock e ?h))"
    by (intro limiters_handle limiters_handle_all limiters_new assms(1))
  have t: "0 \<le> ?t" using clock_nonneg assms(1,2) .
  have mono: "?t \<le> clock (clock_reads ?h + 1)" using assms(1) by (simp add: mono_def)
  have "c = NotifyChanging \<or> c = NotifyExtending"
    using assms(3) by (auto elim!: activity_kind.elims split: if_splits)
  then show ?thesis
  proof
    assume c: "c = NotifyChanging"
    note h' = handle_activity(1)[OF assms(3)[unfolded c], of clock ?h]
    from changing.rl_recent[OF assms(1), of ?h] show ?thesis
      using inv mono t unfolding limiters_ok_def changing.rl_inv_def h' c Let_def
      by (auto simp: event_period_def split: if_splits intro!: bexI[of _ "last _"])
  next
    assume c: "c = NotifyExtending"
    note h' = handle_activity(2)[OF assms(3)[unfolded c], of clock ?h]
    from extending.rl_recent[OF assms(1), of ?h] show ?thesis
      using inv mono t unfolding limiters_ok_def extending.rl_inv_def h' c Let_def
      by (auto simp: event_period_def split: if_splits intro!: bexI[of _ "last _"])
  qed
qed

theorem activity_reported_in_time_witness:
  "\<exists>i \<in> set (stamps_of NotifyExtending (snd (handle (\<lambda>n. int n) (InputEvent TouchEvent)
       new_screen_event_handler))). int (clock_reads new_screen_event_handler) < int i + 500000000"
proof -
  have "mono int" by (simp add: mono_def)
  moreover have "handle_all int [] new_screen_event_handler = new_screen_event_handler"
    by (simp add: handle_all_def)
  ultimately show ?thesis
    using activity_reported_in_time[of int "InputEvent TouchEvent" NotifyExtending "[]"]
    by (simp add: Let_def)
qed

section \<open>Keys\<close>

text \<open>What the power key's events ask for.\<close>

fun power_call :: "mir_event \<Rightarrow> sink_call list" where
  "power_call (InputEvent (KeyEvent scan_code action)) =
     (if scan_code \<noteq> key_power then []
      else case action of KeyDown \<Rightarrow> [NotifyPress] | KeyUp \<Rightarrow> [NotifyRelease] | KeyRepeat \<Rightarrow> [])"
| "power_call _ = []"

definition power_calls :: "screen_event_handler \<Rightarrow> sink_call list" where
  "power_calls h = filter (\<lambda>c. c = NotifyPress \<or> c = NotifyRelease) (map fst (sink_calls h))"

lemma power_calls_handle: "power_calls (snd (handle clock e h)) = power_calls h @ power_call e"
  by (auto simp: handle_def power_calls_def event_handler_defs key_power_def
      split: mir_event.split input_event.split keyboard_action.split)

text \<open>
  The power button is never rate limited, dropped or reordered: over any events and clock the
  press and release calls are exactly the power key's downs and ups, in order. No event is consumed,
  and volume keys change nothing at all, so that playing music does not keep the screen on.
\<close>

theorem power_key_forwarded:
  "power_calls (handle_all clock events h) = power_calls h @ concat (map power_call events) \<and>
   \<not> fst (handle clock e h) \<and>
   handle clock (InputEvent (KeyEvent key_volume_down a)) h = (False, h) \<and>
   handle clock (InputEvent (KeyEvent key_volume_up a)) h = (False, h)"
proof (intro conjI)
  show "power_calls (handle_all clock events h) = power_calls h @ concat (map power_call events)"
    unfolding handle_all_def by (induction events arbitrary: h) (simp_all add: power_calls_handle)
  show "\<not> fst (handle clock e h)" by (simp add: handle_def split: mir_event.split)
qed (simp_all add: handle_def key_power_def key_volume_down_def key_volume_up_def)

end
