(* ===== verification/Dbus_Types.thy ===== *)
theory Dbus_Types
  imports Prelude
begin

text \<open>
  What the D-Bus services exchange with libdbus. An incoming message is opaque: the library's
  accessors are an argument, the record \<open>libdbus\<close>. Outgoing messages and the values appended to
  them are data. Allocation failure inside libdbus is not modelled here.
\<close>

datatype dbus_value =
    DbusInt32 int
  | DbusString string
  | DbusStruct "dbus_value list"
  | DbusVariant dbus_value
  | DbusDictEntry dbus_value dbus_value
  | DbusArray "dbus_value list"

text \<open>Replies carry the message they answer.\<close>

datatype 'm bus_message =
    MethodReturn 'm "dbus_value list"
  | ErrorReply 'm string string
  | Signal string string string "dbus_value list"

text \<open>
  \<open>dbus_message_is_method_call\<close>, whether \<open>dbus_message_get_type\<close> says method call, and
  \<open>dbus_message_get_args\<close> for the signatures the services use: so many strings, a boolean, an
  integer or a double. No result means that the error is set.
\<close>

record ('m, 'd) libdbus =
  is_method_call :: "'m \<Rightarrow> string \<Rightarrow> string \<Rightarrow> bool"
  has_method_call_type :: "'m \<Rightarrow> bool"
  get_string_args :: "nat \<Rightarrow> 'm \<Rightarrow> string list option"
  get_boolean_arg :: "'m \<Rightarrow> bool option"
  get_int32_arg :: "'m \<Rightarrow> int option"
  get_double_arg :: "'m \<Rightarrow> 'd option"

text \<open>
  Documented behaviour: a message has one member and is matched only when it is a method call; the
  arguments returned are as many as asked for.
\<close>

definition libdbus_ok :: "('m, 'd) libdbus \<Rightarrow> bool" where
  "libdbus_ok lib \<longleftrightarrow>
     (\<forall>m i1 m1 i2 m2. is_method_call lib m i1 m1 \<longrightarrow> is_method_call lib m i2 m2 \<longrightarrow> m1 = m2) \<and>
     (\<forall>m i n. is_method_call lib m i n \<longrightarrow> has_method_call_type lib m) \<and>
     (\<forall>m n args. get_string_args lib n m = Some args \<longrightarrow> length args = n)"

text \<open>A library over messages given by interface, member and string arguments.\<close>

definition plain_libdbus :: "(string \<times> string \<times> string list, unit) libdbus" where
  "plain_libdbus =
     \<lparr>is_method_call = (\<lambda>(i, n, args) i' n'. i = i' \<and> n = n'),
      has_method_call_type = (\<lambda>_. True),
      get_string_args = (\<lambda>k (i, n, args). if length args = k then Some args else None),
      get_boolean_arg = (\<lambda>_. None), get_int32_arg = (\<lambda>_. None), get_double_arg = (\<lambda>_. None)\<rparr>"

lemma plain_libdbus_ok: "libdbus_ok plain_libdbus"
  by (auto simp: libdbus_ok_def plain_libdbus_def split: if_splits)

end
