(* ===== verification/Display_Service.thy ===== *)
theory Display_Service
  imports Dbus_Types Mir_Screen
begin

text \<open>
  \<open>UnityDisplayService\<close> (\<open>src/unity_display_service.{h,cpp}\<close>): the D-Bus methods that switch the
  outputs on and off and the property with the counts of active outputs. The state is the screen it
  was given, the counts it last published and the messages sent on its connection. The text of the
  introspection, generated by the build, is an argument.
\<close>

section \<open>Values\<close>

definition append_active_outputs_variant :: "dbus_value list \<Rightarrow> active_outputs \<Rightarrow> dbus_value list"
  where
  "append_active_outputs_variant iter ao =
     iter @ [DbusVariant (DbusStruct [DbusInt32 (internal ao), DbusInt32 (external ao)])]"

definition append_active_outputs_dict_entry ::
  "dbus_value list \<Rightarrow> active_outputs \<Rightarrow> dbus_value list" where
  "append_active_outputs_dict_entry iter ao =
     (case append_active_outputs_variant [DbusString ''ActiveOutputs''] ao of
        [key, value] \<Rightarrow> iter @ [DbusDictEntry key value]
      | _ \<Rightarrow> iter)"

definition output_filter_from_string :: "string \<Rightarrow> output_filter" where
  "output_filter_from_string filter_str =
     (if filter_str = ''internal'' then InternalOutputs
      else if filter_str = ''external'' then ExternalOutputs
      else AllOutputs)"

section \<open>State and operations\<close>

record ('m, 'w) display_service =
  service_screen :: "'w mir_screen"
  service_active_outputs :: active_outputs
  service_messages :: "'m bus_message list"

definition dbus_display_interface :: string where
  "dbus_display_interface = ''com.canonical.Unity.Display''"

definition dbus_display_path :: string where
  "dbus_display_path = ''/com/canonical/Unity/Display''"

definition send_message ::
  "'m bus_message \<Rightarrow> ('m, 'w) display_service \<Rightarrow> ('m, 'w) display_service" where
  "send_message msg s = s\<lparr>service_messages := service_messages s @ [msg]\<rparr>"

definition on_screen ::
  "('w mir_screen \<Rightarrow> 'w mir_screen outcome) \<Rightarrow> ('m, 'w) display_service \<Rightarrow>
   ('m, 'w) display_service outcome" where
  "on_screen f s = (let (scr, e) = f (service_screen s) in (s\<lparr>service_screen := scr\<rparr>, e))"

definition dbus_TurnOn ::
  "mir_env \<Rightarrow> string \<Rightarrow> ('m, 'w) display_service \<Rightarrow> ('m, 'w) display_service outcome" where
  "dbus_TurnOn env filter_str s = on_screen (turn_on env (output_filter_from_string filter_str)) s"

definition dbus_TurnOff ::
  "mir_env \<Rightarrow> string \<Rightarrow> ('m, 'w) display_service \<Rightarrow> ('m, 'w) display_service outcome" where
  "dbus_TurnOff env filter_str s = on_screen (turn_off env (output_filter_from_string filter_str)) s"

definition dbus_emit_ActiveOutputs :: "('m, 'w) display_service \<Rightarrow> ('m, 'w) display_service" where
  "dbus_emit_ActiveOutputs s =
     send_message (Signal dbus_display_path ''org.freedesktop.DBus.Properties'' ''PropertiesChanged''
       [DbusString dbus_display_interface,
        DbusArray (append_active_outputs_dict_entry [] (service_active_outputs s)),
        DbusArray []]) s"

definition dbus_properties_Get :: "string \<Rightarrow> ('m, 'w) display_service \<Rightarrow> dbus_value list" where
  "dbus_properties_Get prop s =
     (if prop = ''ActiveOutputs'' then append_active_outputs_variant [] (service_active_outputs s)
      else [])"

definition dbus_properties_GetAll :: "('m, 'w) display_service \<Rightarrow> dbus_value list" where
  "dbus_properties_GetAll s =
     [DbusArray (append_active_outputs_dict_entry [] (service_active_outputs s))]"

text \<open>The action the handler registered with the screen queues for the event loop.\<close>

definition active_outputs_action ::
  "active_outputs \<Rightarrow> ('m, 'w) display_service \<Rightarrow> ('m, 'w) display_service" where
  "active_outputs_action ao s = dbus_emit_ActiveOutputs (s\<lparr>service_active_outputs := ao\<rparr>)"

text \<open>
  The message filter. The pair is the flag \<open>args_error\<close>, tested at the end, and the outcome of the
  branch taken; an exception out of the screen leaves the function.
\<close>

definition handle_dbus_message ::
  "('m, 'd) libdbus \<Rightarrow> string \<Rightarrow> mir_env \<Rightarrow> 'm \<Rightarrow> ('m, 'w) display_service \<Rightarrow>
   ('m, 'w) display_service outcome" where
  "handle_dbus_message lib introspection env m s =
     (let (args_error, r) =
        (if is_method_call lib m ''org.freedesktop.DBus.Introspectable'' ''Introspect'' then
           (False, (send_message (MethodReturn m [DbusString introspection]) s, None))
         else if is_method_call lib m dbus_display_interface ''TurnOn'' then
           (let args = get_string_args lib 1 m;
                filter_str = (case args of None \<Rightarrow> ''all'' | Some xs \<Rightarrow> xs ! 0)
            in (args = None,
                then_do (dbus_TurnOn env filter_str s) (\<lambda>s1.
                  (send_message (MethodReturn m []) s1, None))))
         else if is_method_call lib m dbus_display_interface ''TurnOff'' then
           (let args = get_string_args lib 1 m;
                filter_str = (case args of None \<Rightarrow> ''all'' | Some xs \<Rightarrow> xs ! 0)
            in (args = None,
                then_do (dbus_TurnOff env filter_str s) (\<lambda>s1.
                  (send_message (MethodReturn m []) s1, None))))
         else if is_method_call lib m ''org.freedesktop.DBus.Properties'' ''Get'' then
           (let args = get_string_args lib 2 m
            in (args = None,
                (send_message (MethodReturn m
                   (case args of
                      None \<Rightarrow> []
                    | Some xs \<Rightarrow> if xs ! 0 = dbus_display_interface
                                 then dbus_properties_Get (xs ! 1) s else [])) s, None)))
         else if is_method_call lib m ''org.freedesktop.DBus.Properties'' ''GetAll'' then
           (let args = get_string_args lib 1 m
            in (args = None,
                (send_message (MethodReturn m
                   (case args of
                      None \<Rightarrow> []
                    | Some xs \<Rightarrow> if xs ! 0 = dbus_display_interface
                                 then dbus_properties_GetAll s else [])) s, None)))
         else if has_method_call_type lib m then
           (False, (send_message
              (ErrorReply m ''org.freedesktop.DBus.Error.Failed'' ''Not supported'') s, None))
         else (False, (s, None)))
      in then_do r (\<lambda>s1.
        (if args_error then
           send_message (ErrorReply m ''org.freedesktop.DBus.Error.Failed'' ''Invalid arguments'') s1
         else s1, None)))"

section \<open>What the client reads\<close>

text \<open>The property's value and the signal of a change, as a client sees them.\<close>

definition outputs_value :: "active_outputs \<Rightarrow> dbus_value" where
  "outputs_value ao = DbusVariant (DbusStruct [DbusInt32 (internal ao), DbusInt32 (external ao)])"

definition outputs_signal :: "active_outputs \<Rightarrow> 'm bus_message" where
  "outputs_signal ao =
     Signal dbus_display_path ''org.freedesktop.DBus.Properties'' ''PropertiesChanged''
       [DbusString dbus_display_interface,
        DbusArray [DbusDictEntry (DbusString ''ActiveOutputs'') (outputs_value ao)], DbusArray []]"

text \<open>A client can tell any two counts apart.\<close>

lemma outputs_inj:
  "outputs_value ao = outputs_value ao' \<longleftrightarrow> ao = ao'"
  "outputs_signal ao = outputs_signal ao' \<longleftrightarrow> ao = ao'"
  by (auto simp: outputs_value_def outputs_signal_def intro: active_outputs.equality)

lemma on_screen_fields:
  "service_messages (fst (on_screen f s)) = service_messages s"
  "service_active_outputs (fst (on_screen f s)) = service_active_outputs s"
  "service_screen (fst (on_screen f s)) = fst (f (service_screen s))"
  "snd (on_screen f s) = snd (f (service_screen s))"
  by (simp_all add: on_screen_def case_prod_beta Let_def)

lemma append_outputs:
  "append_active_outputs_variant iter ao = iter @ [outputs_value ao]"
  "append_active_outputs_dict_entry iter ao =
     iter @ [DbusDictEntry (DbusString ''ActiveOutputs'') (outputs_value ao)]"
  by (simp_all add: append_active_outputs_dict_entry_def append_active_outputs_variant_def
      outputs_value_def)

lemma action_fields:
  "service_messages (active_outputs_action ao s) = service_messages s @ [outputs_signal ao]"
  "service_active_outputs (active_outputs_action ao s) = ao"
  "service_screen (active_outputs_action ao s) = service_screen s"
  by (simp_all add: active_outputs_action_def dbus_emit_ActiveOutputs_def send_message_def
      append_outputs outputs_signal_def)

lemma then_do_send:
  "then_do r (\<lambda>s1. (g s1, None)) = (if snd r = None then (g (fst r), None) else r)"
  by (cases r; cases "snd r") auto

end
