(* ===== verification/Display_Props.thy ===== *)
theory Display_Props
  imports Display_Service Mir_Screen_Props
begin

text \<open>
  Properties of the display service: what the methods switch, what the property tells, and how many
  replies a call gets.
\<close>

lemma on_screen_TurnOn:
  "active_outputs (service_screen (fst (dbus_TurnOn (env_ok cfg) filter_str s))) =
     count_active_outputs (apply_power_mode PowerOn
       (get_power_mode_filter_for_output_filter (output_filter_from_string filter_str)) cfg)"
  "active_outputs (service_screen (fst (dbus_TurnOff (env_ok cfg) filter_str s))) =
     count_active_outputs (apply_power_mode PowerOff
       (get_power_mode_filter_for_output_filter (output_filter_from_string filter_str)) cfg)"
  by (simp_all add: dbus_TurnOn_def dbus_TurnOff_def on_screen_fields turn_on_def turn_off_def
      set_power_mode_outputs)

lemma reply_keeps_screen:
  "service_screen (fst (then_do r (\<lambda>s1. (if b then send_message msg s1 else s1, None)))) =
     service_screen (fst r)"
  "service_screen (fst (then_do r (\<lambda>s1. (send_message msg s1, None)))) = service_screen (fst r)"
  by (cases r; cases "snd r"; auto simp: send_message_def)+

lemma only_member:
  assumes "libdbus_ok lib" and "is_method_call lib m i n" and "n \<noteq> n'"
  shows "\<not> is_method_call lib m i' n'"
  using assms unfolding libdbus_ok_def by blast

text \<open>
  The D-Bus methods do to the outputs what their argument says: after TurnOff no output of the
  kind named is active and the count of the other kind is that of the configuration; any other
  argument, or none at all (older clients), stands for all outputs. TurnOn with no argument makes
  every connected, used output active.
\<close>

theorem switch_methods_switch_outputs:
  assumes lib: "libdbus_ok lib"
    and off: "is_method_call lib m_off ''com.canonical.Unity.Display'' ''TurnOff''"
    and on: "is_method_call lib m_on ''com.canonical.Unity.Display'' ''TurnOn''"
    and "get_string_args lib 1 m_on = None"
  shows "active_outputs (service_screen (fst (handle_dbus_message lib intro (env_ok cfg) m_off s))) =
    (case get_string_args lib 1 m_off of
       None \<Rightarrow> no_active_outputs
     | Some args \<Rightarrow>
         if args = [''internal''] then (count_active_outputs cfg)\<lparr>internal := 0\<rparr>
         else if args = [''external''] then (count_active_outputs cfg)\<lparr>external := 0\<rparr>
         else no_active_outputs) \<and>
    (let ao = active_outputs (service_screen (fst (handle_dbus_message lib intro (env_ok cfg) m_on s)))
     in internal ao + external ao = int (length (filter (\<lambda>out. connected out \<and> used out) cfg)))"
proof (intro conjI)
  have "\<not> is_method_call lib m_off i ''Introspect''" "\<not> is_method_call lib m_off i ''TurnOn''" for i
    by (rule only_member[OF lib off], simp)+
  moreover have "(\<exists>x. args = [x])" if "get_string_args lib 1 m_off = Some args" for args
    using lib that unfolding libdbus_ok_def by (metis One_nat_def length_0_conv length_Suc_conv)
  ultimately show "active_outputs (service_screen
      (fst (handle_dbus_message lib intro (env_ok cfg) m_off s))) =
    (case get_string_args lib 1 m_off of
       None \<Rightarrow> no_active_outputs
     | Some args \<Rightarrow>
         if args = [''internal''] then (count_active_outputs cfg)\<lparr>internal := 0\<rparr>
         else if args = [''external''] then (count_active_outputs cfg)\<lparr>external := 0\<rparr>
         else no_active_outputs)"
    using off
    by (cases "get_string_args lib 1 m_off")
      (auto simp: handle_dbus_message_def Let_def dbus_display_interface_def reply_keeps_screen
        on_screen_TurnOn power_off_counts output_filter_from_string_def)
next
  have "\<not> is_method_call lib m_on i ''Introspect''" for i
    by (rule only_member[OF lib on], simp)
  then show "let ao = active_outputs (service_screen
      (fst (handle_dbus_message lib intro (env_ok cfg) m_on s)))
     in internal ao + external ao = int (length (filter (\<lambda>out. connected out \<and> used out) cfg))"
    using on assms(4) power_on_counts[of cfg]
    by (simp add: handle_dbus_message_def Let_def dbus_display_interface_def reply_keeps_screen
        on_screen_TurnOn output_filter_from_string_def)
qed

theorem switch_methods_switch_outputs_witness:
  "internal (active_outputs (service_screen (fst (handle_dbus_message plain_libdbus ''''
     (env_ok demo_outputs) (''com.canonical.Unity.Display'', ''TurnOff'', [''internal''])
     \<lparr>service_screen = demo_screen, service_active_outputs = no_active_outputs,
      service_messages = []\<rparr>)))) = 0"
proof -
  let ?off = "(''com.canonical.Unity.Display'', ''TurnOff'', [''internal''])"
  let ?on = "(''com.canonical.Unity.Display'', ''TurnOn'', [])"
  have "is_method_call plain_libdbus ?off ''com.canonical.Unity.Display'' ''TurnOff''"
    "is_method_call plain_libdbus ?on ''com.canonical.Unity.Display'' ''TurnOn''"
    "get_string_args plain_libdbus 1 ?on = None"
    "get_string_args plain_libdbus 1 ?off = Some [''internal'']"
    by (simp_all add: plain_libdbus_def)
  with switch_methods_switch_outputs[OF plain_libdbus_ok this(1-3), of "''''" demo_outputs
      "\<lparr>service_screen = demo_screen, service_active_outputs = no_active_outputs,
        service_messages = []\<rparr>", THEN conjunct1]
  show ?thesis by (simp only: option.case if_True simp_thms) simp
qed

section \<open>Replies\<close>

fun answers :: "'m bus_message \<Rightarrow> 'm option" where
  "answers (MethodReturn m vs) = Some m"
| "answers (ErrorReply m n t) = Some m"
| "answers (Signal p i n vs) = None"

text \<open>A call of one of the methods with arguments whose arguments do not have the type wanted.\<close>

definition bad_arguments :: "('m, 'd) libdbus \<Rightarrow> 'm \<Rightarrow> bool" where
  "bad_arguments lib m \<longleftrightarrow>
     (is_method_call lib m ''com.canonical.Unity.Display'' ''TurnOn'' \<or>
      is_method_call lib m ''com.canonical.Unity.Display'' ''TurnOff'' \<or>
      is_method_call lib m ''org.freedesktop.DBus.Properties'' ''GetAll'') \<and>
       get_string_args lib 1 m = None \<or>
     is_method_call lib m ''org.freedesktop.DBus.Properties'' ''Get'' \<and>
       get_string_args lib 2 m = None"

lemma on_screen_messages:
  "service_messages (fst (dbus_TurnOn env filter_str s)) = service_messages s"
  "service_messages (fst (dbus_TurnOff env filter_str s)) = service_messages s"
  by (simp_all add: dbus_TurnOn_def dbus_TurnOff_def on_screen_fields)

lemma then_do_sends:
  "snd (then_do r (\<lambda>s1. (send_message msg s1, None))) = snd r"
  "snd r = None \<Longrightarrow> service_messages (fst (then_do r (\<lambda>s1. (send_message msg s1, None)))) =
     service_messages (fst r) @ [msg]"
  by (cases r; cases "snd r"; auto simp: send_message_def)+

text \<open>
  C37. Every method call whatsoever is answered when no exception leaves the screen: the first
  message sent answers it, and it is the only one except for a call with bad arguments, which is
  answered twice, by an empty return and then by an error. (For TurnOn and TurnOff the outputs have
  been switched by then.)
\<close>

theorem display_calls_answered:
  assumes lib: "libdbus_ok lib" and call: "has_method_call_type lib m"
    and returns: "snd (handle_dbus_message lib intro env m s) = None"
  shows "\<exists>r. answers r = Some m \<and>
    service_messages (fst (handle_dbus_message lib intro env m s)) =
      service_messages s @ r #
        (if bad_arguments lib m
         then [ErrorReply m ''org.freedesktop.DBus.Error.Failed'' ''Invalid arguments''] else []) \<and>
    (bad_arguments lib m \<longrightarrow> r = MethodReturn m [])"
proof -
  note defs = handle_dbus_message_def Let_def dbus_display_interface_def bad_arguments_def
  consider
      (intro) "is_method_call lib m ''org.freedesktop.DBus.Introspectable'' ''Introspect''"
    | (on) "is_method_call lib m ''com.canonical.Unity.Display'' ''TurnOn''"
    | (off) "is_method_call lib m ''com.canonical.Unity.Display'' ''TurnOff''"
    | (get) "is_method_call lib m ''org.freedesktop.DBus.Properties'' ''Get''"
    | (all) "is_method_call lib m ''org.freedesktop.DBus.Properties'' ''GetAll''"
    | (other) "\<not> is_method_call lib m ''org.freedesktop.DBus.Introspectable'' ''Introspect''"
        "\<not> is_method_call lib m ''com.canonical.Unity.Display'' ''TurnOn''"
        "\<not> is_method_call lib m ''com.canonical.Unity.Display'' ''TurnOff''"
        "\<not> is_method_call lib m ''org.freedesktop.DBus.Properties'' ''Get''"
        "\<not> is_method_call lib m ''org.freedesktop.DBus.Properties'' ''GetAll''"
    by blast
  then show ?thesis
  proof cases
    case intro
    then show ?thesis using only_member[OF lib intro] by (simp add: defs send_message_def)
  next
    case on
    then show ?thesis
      using only_member[OF lib on] returns
      by (cases "get_string_args lib 1 m") (simp_all add: defs then_do_sends on_screen_messages)
  next
    case off
    then show ?thesis
      using only_member[OF lib off] returns
      by (cases "get_string_args lib 1 m") (simp_all add: defs then_do_sends on_screen_messages)
  next
    case get
    then show ?thesis
      using only_member[OF lib get]
      by (cases "get_string_args lib 2 m") (simp_all add: defs send_message_def)
  next
    case all
    then show ?thesis
      using only_member[OF lib all]
      by (cases "get_string_args lib 1 m") (simp_all add: defs send_message_def)
  next
    case other
    then show ?thesis using call by (simp add: defs send_message_def)
  qed
qed

theorem display_calls_answered_witness:
  "let m = (''com.canonical.Unity.Display'', ''TurnOn'', []);
       s = \<lparr>service_screen = demo_screen, service_active_outputs = no_active_outputs,
            service_messages = []\<rparr>
   in service_messages (fst (handle_dbus_message plain_libdbus '''' (env_ok demo_outputs) m s)) =
        [MethodReturn m [], ErrorReply m ''org.freedesktop.DBus.Error.Failed'' ''Invalid arguments'']"
proof -
  let ?m = "(''com.canonical.Unity.Display'', ''TurnOn'', [])"
  let ?s = "\<lparr>service_screen = demo_screen, service_active_outputs = no_active_outputs,
            service_messages = []\<rparr>"
  have call: "has_method_call_type plain_libdbus ?m" and bad: "bad_arguments plain_libdbus ?m"
    by (simp_all add: plain_libdbus_def bad_arguments_def)
  have "snd (handle_dbus_message plain_libdbus '''' (env_ok demo_outputs) ?m ?s) = None"
    by code_simp
  from display_calls_answered[OF plain_libdbus_ok call this] bad
  show ?thesis unfolding Let_def by fastforce
qed

end
