(* ===== verification/Input_Configuration.thy ===== *)
theory Input_Configuration
  imports Prelude Complex_Main "HOL-Library.Word"
begin

text \<open>
  \<open>MirInputConfiguration\<close> (\<open>src/mir_input_configuration.{h,cpp}\<close>, \<open>src/input_configuration.h\<close>): the
  settings of mice and touchpads, applied to every device of the kind. Devices are Mir's; the calls
  on them are recorded. What Mir decides is an argument: the default configurations and the bit of
  two-finger scrolling. The order of an \<open>unordered_set\<close> is unspecified; a list without duplicates
  stands for it and no property depends on its order.
\<close>

unbundle bit_operations_syntax

section \<open>Doubles\<close>

text \<open>
  The values of a C++ \<open>double\<close>, up to the sign of zero. Comparisons with \<open>NaN\<close> are false. The
  rounding of an arithmetic result is an argument.
\<close>

datatype double = NaN | PosInf | NegInf | Finite rat

instantiation double :: ord
begin

fun less_double :: "double \<Rightarrow> double \<Rightarrow> bool" where
  "less_double (Finite x) (Finite y) \<longleftrightarrow> x < y"
| "less_double NegInf (Finite y) \<longleftrightarrow> True"
| "less_double NegInf PosInf \<longleftrightarrow> True"
| "less_double (Finite x) PosInf \<longleftrightarrow> True"
| "less_double _ _ \<longleftrightarrow> False"

definition less_eq_double :: "double \<Rightarrow> double \<Rightarrow> bool" where
  "less_eq_double x y \<longleftrightarrow> x < y \<or> (x = y \<and> x \<noteq> NaN)"

instance ..

end

text \<open>\<open>v * 2.0 - 1.0\<close>.\<close>

fun double_minus_one :: "(rat \<Rightarrow> rat) \<Rightarrow> double \<Rightarrow> double" where
  "double_minus_one rnd (Finite x) = Finite (rnd (rnd (x * 2) - 1))"
| "double_minus_one rnd v = v"

section \<open>Configurations\<close>

datatype handedness = HandednessRight | HandednessLeft

record pointer_config =
  handedness :: handedness
  cursor_acceleration_bias :: double
  horizontal_scroll_scale :: double
  vertical_scroll_scale :: double

record touchpad_config =
  scroll_mode :: "32 word"
  tap_to_click :: bool
  disable_while_typing :: bool
  disable_with_mouse :: bool

text \<open>A device and the capabilities it has; two pointers to the same device are equal.\<close>

record device =
  device_id :: nat
  has_touchpad :: bool
  has_pointer :: bool

datatype device_call =
    ApplyPointerConfiguration device pointer_config
  | ApplyTouchpadConfiguration device touchpad_config

record input_configuration =
  touchpads :: "device list"
  mice :: "device list"
  mouse_pointer_config :: pointer_config
  touchpad_pointer_config :: pointer_config
  touchpad_settings :: touchpad_config
  device_calls :: "device_call list"

definition new_input_configuration :: "pointer_config \<Rightarrow> touchpad_config \<Rightarrow> input_configuration" where
  "new_input_configuration dp dt =
     \<lparr>touchpads = [], mice = [], mouse_pointer_config = dp, touchpad_pointer_config = dp,
      touchpad_settings = dt, device_calls = []\<rparr>"

section \<open>Devices\<close>

definition call_device :: "device_call \<Rightarrow> input_configuration \<Rightarrow> input_configuration" where
  "call_device c s = s\<lparr>device_calls := device_calls s @ [c]\<rparr>"

definition device_removed :: "device \<Rightarrow> input_configuration \<Rightarrow> input_configuration" where
  "device_removed dev s =
     s\<lparr>touchpads := remove1 dev (touchpads s), mice := remove1 dev (mice s)\<rparr>"

definition configure_mouse :: "device \<Rightarrow> input_configuration \<Rightarrow> input_configuration" where
  "configure_mouse dev s = call_device (ApplyPointerConfiguration dev (mouse_pointer_config s)) s"

definition configure_touchpad :: "device \<Rightarrow> input_configuration \<Rightarrow> input_configuration" where
  "configure_touchpad dev s =
     (let s1 = call_device (ApplyPointerConfiguration dev (touchpad_pointer_config s)) s
      in call_device (ApplyTouchpadConfiguration dev (touchpad_settings s1)) s1)"

definition set_insert :: "device \<Rightarrow> device list \<Rightarrow> device list" where
  "set_insert dev devs = (if dev \<in> set devs then devs else devs @ [dev])"

definition device_added :: "device \<Rightarrow> input_configuration \<Rightarrow> input_configuration" where
  "device_added dev s =
     (if has_touchpad dev then
        configure_touchpad dev (s\<lparr>touchpads := set_insert dev (touchpads s)\<rparr>)
      else if has_pointer dev then
        configure_mouse dev (s\<lparr>mice := set_insert dev (mice s)\<rparr>)
      else s)"

definition update_touchpads :: "input_configuration \<Rightarrow> input_configuration" where
  "update_touchpads s = fold configure_touchpad (touchpads s) s"

definition update_mice :: "input_configuration \<Rightarrow> input_configuration" where
  "update_mice s = fold configure_mouse (mice s) s"

section \<open>Settings\<close>

definition handedness_for :: "int \<Rightarrow> handedness" where
  "handedness_for button = (if button = 0 then HandednessRight else HandednessLeft)"

definition set_mouse_primary_button :: "int \<Rightarrow> input_configuration \<Rightarrow> input_configuration" where
  "set_mouse_primary_button button s =
     update_mice (s\<lparr>mouse_pointer_config :=
       (mouse_pointer_config s)\<lparr>handedness := handedness_for button\<rparr>\<rparr>)"

definition clamp_speed :: "double \<Rightarrow> double" where
  "clamp_speed speed =
     (let c1 = (if speed < Finite 0 then Finite 0 else speed)
      in if Finite 1 < c1 then Finite 1 else c1)"

definition set_mouse_cursor_speed ::
  "(rat \<Rightarrow> rat) \<Rightarrow> double \<Rightarrow> input_configuration \<Rightarrow> input_configuration" where
  "set_mouse_cursor_speed rnd speed s =
     update_mice (s\<lparr>mouse_pointer_config := (mouse_pointer_config s)
       \<lparr>cursor_acceleration_bias := double_minus_one rnd (clamp_speed speed)\<rparr>\<rparr>)"

definition set_mouse_scroll_speed :: "double \<Rightarrow> input_configuration \<Rightarrow> input_configuration" where
  "set_mouse_scroll_speed speed s =
     update_mice (s\<lparr>mouse_pointer_config := (mouse_pointer_config s)
       \<lparr>horizontal_scroll_scale := speed, vertical_scroll_scale := speed\<rparr>\<rparr>)"

definition set_touchpad_primary_button :: "int \<Rightarrow> input_configuration \<Rightarrow> input_configuration" where
  "set_touchpad_primary_button button s =
     update_touchpads (s\<lparr>touchpad_pointer_config :=
       (touchpad_pointer_config s)\<lparr>handedness := handedness_for button\<rparr>\<rparr>)"

definition set_touchpad_cursor_speed ::
  "(rat \<Rightarrow> rat) \<Rightarrow> double \<Rightarrow> input_configuration \<Rightarrow> input_configuration" where
  "set_touchpad_cursor_speed rnd speed s =
     update_touchpads (s\<lparr>touchpad_pointer_config := (touchpad_pointer_config s)
       \<lparr>cursor_acceleration_bias := double_minus_one rnd (clamp_speed speed)\<rparr>\<rparr>)"

definition set_touchpad_scroll_speed :: "double \<Rightarrow> input_configuration \<Rightarrow> input_configuration" where
  "set_touchpad_scroll_speed speed s =
     update_touchpads (s\<lparr>touchpad_pointer_config := (touchpad_pointer_config s)
       \<lparr>horizontal_scroll_scale := speed, vertical_scroll_scale := speed\<rparr>\<rparr>)"

definition set_two_finger_scroll ::
  "32 word \<Rightarrow> bool \<Rightarrow> input_configuration \<Rightarrow> input_configuration" where
  "set_two_finger_scroll two_finger enable s =
     (let current = scroll_mode (touchpad_settings s);
          updated = (if enable then current OR two_finger else current AND NOT two_finger)
      in update_touchpads (s\<lparr>touchpad_settings := (touchpad_settings s)\<lparr>scroll_mode := updated\<rparr>\<rparr>))"

definition set_tap_to_click :: "bool \<Rightarrow> input_configuration \<Rightarrow> input_configuration" where
  "set_tap_to_click enable s =
     update_touchpads (s\<lparr>touchpad_settings := (touchpad_settings s)\<lparr>tap_to_click := enable\<rparr>\<rparr>)"

definition set_disable_touchpad_while_typing ::
  "bool \<Rightarrow> input_configuration \<Rightarrow> input_configuration" where
  "set_disable_touchpad_while_typing enable s =
     update_touchpads (s\<lparr>touchpad_settings :=
       (touchpad_settings s)\<lparr>disable_while_typing := enable\<rparr>\<rparr>)"

definition set_disable_touchpad_with_mouse ::
  "bool \<Rightarrow> input_configuration \<Rightarrow> input_configuration" where
  "set_disable_touchpad_with_mouse enable s =
     update_touchpads (s\<lparr>touchpad_settings :=
       (touchpad_settings s)\<lparr>disable_with_mouse := enable\<rparr>\<rparr>)"

section \<open>All entry points as one step function\<close>

datatype input_setting =
    SetMousePrimaryButton int
  | SetMouseCursorSpeed double
  | SetMouseScrollSpeed double
  | SetTouchpadPrimaryButton int
  | SetTouchpadCursorSpeed double
  | SetTouchpadScrollSpeed double
  | SetTwoFingerScroll bool
  | SetTapToClick bool
  | SetDisableTouchpadWhileTyping bool
  | SetDisableTouchpadWithMouse bool

text \<open>The constants of the platform: rounding and the bit of two-finger scrolling.\<close>

record platform =
  rounding :: "rat \<Rightarrow> rat"
  two_finger_bit :: "32 word"

fun apply_setting :: "platform \<Rightarrow> input_setting \<Rightarrow> input_configuration \<Rightarrow> input_configuration" where
  "apply_setting pf (SetMousePrimaryButton b) s = set_mouse_primary_button b s"
| "apply_setting pf (SetMouseCursorSpeed v) s = set_mouse_cursor_speed (rounding pf) v s"
| "apply_setting pf (SetMouseScrollSpeed v) s = set_mouse_scroll_speed v s"
| "apply_setting pf (SetTouchpadPrimaryButton b) s = set_touchpad_primary_button b s"
| "apply_setting pf (SetTouchpadCursorSpeed v) s = set_touchpad_cursor_speed (rounding pf) v s"
| "apply_setting pf (SetTouchpadScrollSpeed v) s = set_touchpad_scroll_speed v s"
| "apply_setting pf (SetTwoFingerScroll e) s = set_two_finger_scroll (two_finger_bit pf) e s"
| "apply_setting pf (SetTapToClick e) s = set_tap_to_click e s"
| "apply_setting pf (SetDisableTouchpadWhileTyping e) s = set_disable_touchpad_while_typing e s"
| "apply_setting pf (SetDisableTouchpadWithMouse e) s = set_disable_touchpad_with_mouse e s"

datatype input_op = DeviceAdded device | DeviceRemoved device | Setting input_setting

fun input_step :: "platform \<Rightarrow> input_op \<Rightarrow> input_configuration \<Rightarrow> input_configuration" where
  "input_step pf (DeviceAdded d) s = device_added d s"
| "input_step pf (DeviceRemoved d) s = device_removed d s"
| "input_step pf (Setting x) s = apply_setting pf x s"

end
