(* ===== verification/Input_Props.thy ===== *)
theory Input_Props
  imports Input_Configuration
begin

text \<open>
  Properties of the input configuration: every attached device always has the current settings of
  its kind, pointer speeds stay in the range Mir accepts, and the scroll modes other than two-finger
  scrolling are left alone.
\<close>

section \<open>What was last applied to a device\<close>

definition pointer_applied :: "input_configuration \<Rightarrow> device \<Rightarrow> pointer_config option" where
  "pointer_applied s d =
     fold (\<lambda>c acc. case c of
         ApplyPointerConfiguration d' cfg \<Rightarrow> if d' = d then Some cfg else acc
       | ApplyTouchpadConfiguration d' cfg \<Rightarrow> acc) (device_calls s) None"

definition touchpad_applied :: "input_configuration \<Rightarrow> device \<Rightarrow> touchpad_config option" where
  "touchpad_applied s d =
     fold (\<lambda>c acc. case c of
         ApplyPointerConfiguration d' cfg \<Rightarrow> acc
       | ApplyTouchpadConfiguration d' cfg \<Rightarrow> if d' = d then Some cfg else acc) (device_calls s) None"

lemmas configure_defs = configure_mouse_def configure_touchpad_def call_device_def Let_def

text \<open>A way of applying a configuration to one device at a time.\<close>

locale device_group =
  fixes configure :: "device \<Rightarrow> 's \<Rightarrow> 's"
    and applied :: "'s \<Rightarrow> device \<Rightarrow> 'c option"
    and config :: "'s \<Rightarrow> 'c"
  assumes applied_configure:
      "applied (configure d s) d' = (if d' = d then Some (config s) else applied s d')"
    and config_configure: "config (configure d s) = config s"
begin

lemma dg_fold: "config (fold configure ds s) = config s \<and>
    applied (fold configure ds s) d = (if d \<in> set ds then Some (config s) else applied s d)"
  by (induction ds arbitrary: s) (auto simp: applied_configure config_configure)

lemmas dg_applied = dg_fold[THEN conjunct2]

end

interpretation mouse_group: device_group configure_mouse pointer_applied mouse_pointer_config
  by unfold_locales (simp_all add: pointer_applied_def configure_defs)

interpretation pad_pointer_group:
  device_group configure_touchpad pointer_applied touchpad_pointer_config
  by unfold_locales (simp_all add: pointer_applied_def configure_defs)

interpretation pad_group: device_group configure_touchpad touchpad_applied touchpad_settings
  by unfold_locales (simp_all add: touchpad_applied_def configure_defs)

lemma configure_frame:
  "touchpad_applied (configure_mouse d s) d' = touchpad_applied s d'"
  "mice (configure_mouse d s) = mice s" "touchpads (configure_mouse d s) = touchpads s"
  "mice (configure_touchpad d s) = mice s" "touchpads (configure_touchpad d s) = touchpads s"
  "touchpad_pointer_config (configure_mouse d s) = touchpad_pointer_config s"
  "touchpad_settings (configure_mouse d s) = touchpad_settings s"
  "mouse_pointer_config (configure_touchpad d s) = mouse_pointer_config s"
  "mouse_pointer_config (configure_mouse d s) = mouse_pointer_config s"
  "touchpad_pointer_config (configure_touchpad d s) = touchpad_pointer_config s"
  "touchpad_settings (configure_touchpad d s) = touchpad_settings s"
  by (simp_all add: touchpad_applied_def configure_defs)

lemma update_frame:
  "touchpad_applied (update_mice s) d = touchpad_applied s d"
  "mice (update_mice s) = mice s" "touchpads (update_mice s) = touchpads s"
  "touchpad_pointer_config (update_mice s) = touchpad_pointer_config s"
  "touchpad_settings (update_mice s) = touchpad_settings s"
  "mouse_pointer_config (update_mice s) = mouse_pointer_config s"
proof -
  have "touchpad_applied (fold configure_mouse ds s) d = touchpad_applied s d \<and>
      mice (fold configure_mouse ds s) = mice s \<and> touchpads (fold configure_mouse ds s) = touchpads s \<and>
      touchpad_pointer_config (fold configure_mouse ds s) = touchpad_pointer_config s \<and>
      touchpad_settings (fold configure_mouse ds s) = touchpad_settings s \<and>
      mouse_pointer_config (fold configure_mouse ds s) = mouse_pointer_config s" for ds
    by (induction ds arbitrary: s) (simp_all add: configure_frame)
  then show "touchpad_applied (update_mice s) d = touchpad_applied s d"
    "mice (update_mice s) = mice s" "touchpads (update_mice s) = touchpads s"
    "touchpad_pointer_config (update_mice s) = touchpad_pointer_config s"
    "touchpad_settings (update_mice s) = touchpad_settings s"
    "mouse_pointer_config (update_mice s) = mouse_pointer_config s"
    by (simp_all add: update_mice_def)
qed

lemma update_frame_pads:
  "mice (update_touchpads s) = mice s" "touchpads (update_touchpads s) = touchpads s"
  "mouse_pointer_config (update_touchpads s) = mouse_pointer_config s"
  "touchpad_pointer_config (update_touchpads s) = touchpad_pointer_config s"
  "touchpad_settings (update_touchpads s) = touchpad_settings s"
proof -
  have "mice (fold configure_touchpad ds s) = mice s \<and>
      touchpads (fold configure_touchpad ds s) = touchpads s \<and>
      mouse_pointer_config (fold configure_touchpad ds s) = mouse_pointer_config s \<and>
      touchpad_pointer_config (fold configure_touchpad ds s) = touchpad_pointer_config s \<and>
      touchpad_settings (fold configure_touchpad ds s) = touchpad_settings s" for ds
    by (induction ds arbitrary: s) (simp_all add: configure_frame)
  then show "mice (update_touchpads s) = mice s" "touchpads (update_touchpads s) = touchpads s"
    "mouse_pointer_config (update_touchpads s) = mouse_pointer_config s"
    "touchpad_pointer_config (update_touchpads s) = touchpad_pointer_config s"
    "touchpad_settings (update_touchpads s) = touchpad_settings s"
    by (simp_all add: update_touchpads_def)
qed

lemma update_applied:
  "pointer_applied (update_mice s) d =
     (if d \<in> set (mice s) then Some (mouse_pointer_config s) else pointer_applied s d)"
  "pointer_applied (update_touchpads s) d =
     (if d \<in> set (touchpads s) then Some (touchpad_pointer_config s) else pointer_applied s d)"
  "touchpad_applied (update_touchpads s) d =
     (if d \<in> set (touchpads s) then Some (touchpad_settings s) else touchpad_applied s d)"
  by (simp_all add: update_mice_def update_touchpads_def mouse_group.dg_applied
      pad_pointer_group.dg_applied pad_group.dg_applied)

section \<open>The invariant\<close>

definition coherent :: "input_configuration \<Rightarrow> bool" where
  "coherent s \<longleftrightarrow>
     distinct (mice s) \<and> distinct (touchpads s) \<and>
     (\<forall>d \<in> set (mice s). has_pointer d \<and> \<not> has_touchpad d \<and>
        pointer_applied s d = Some (mouse_pointer_config s)) \<and>
     (\<forall>d \<in> set (touchpads s). has_touchpad d \<and>
        pointer_applied s d = Some (touchpad_pointer_config s) \<and>
        touchpad_applied s d = Some (touchpad_settings s))"

lemma coherentD:
  assumes "coherent s"
  shows "d \<in> set (mice s) \<Longrightarrow> pointer_applied s d = Some (mouse_pointer_config s)"
    and "d \<in> set (touchpads s) \<Longrightarrow> pointer_applied s d = Some (touchpad_pointer_config s)"
    and "d \<in> set (touchpads s) \<Longrightarrow> touchpad_applied s d = Some (touchpad_settings s)"
  using assms by (simp_all add: coherent_def)

text \<open>A change of the mouse settings followed by an update, and one of the touchpad settings.\<close>

lemma coherent_update_mice:
  assumes "coherent s"
  shows "coherent (update_mice (s\<lparr>mouse_pointer_config := c\<rparr>))"
proof -
  have "pointer_applied (s\<lparr>mouse_pointer_config := c\<rparr>) = pointer_applied s"
    "touchpad_applied (s\<lparr>mouse_pointer_config := c\<rparr>) = touchpad_applied s"
    by (simp_all add: fun_eq_iff pointer_applied_def touchpad_applied_def)
  then show ?thesis using assms by (auto simp: coherent_def update_frame update_applied)
qed

lemma coherent_update_touchpads:
  assumes "coherent s"
  shows "coherent (update_touchpads (s\<lparr>touchpad_pointer_config := c\<rparr>))"
    and "coherent (update_touchpads (s\<lparr>touchpad_settings := t\<rparr>))"
proof -
  have "pointer_applied (s\<lparr>touchpad_pointer_config := c\<rparr>) = pointer_applied s"
    "pointer_applied (s\<lparr>touchpad_settings := t\<rparr>) = pointer_applied s"
    by (simp_all add: fun_eq_iff pointer_applied_def)
  then show "coherent (update_touchpads (s\<lparr>touchpad_pointer_config := c\<rparr>))"
    "coherent (update_touchpads (s\<lparr>touchpad_settings := t\<rparr>))"
    using assms by (auto simp: coherent_def update_frame_pads update_applied)
qed

lemmas setting_defs = set_mouse_primary_button_def set_mouse_cursor_speed_def
  set_mouse_scroll_speed_def set_touchpad_primary_button_def set_touchpad_cursor_speed_def
  set_touchpad_scroll_speed_def set_two_finger_scroll_def set_tap_to_click_def
  set_disable_touchpad_while_typing_def set_disable_touchpad_with_mouse_def Let_def

lemma coherent_setting: "coherent s \<Longrightarrow> coherent (apply_setting pf x s)"
  by (cases x) (simp_all add: setting_defs coherent_update_mice coherent_update_touchpads)

lemma setting_members:
  "mice (apply_setting pf x s) = mice s" "touchpads (apply_setting pf x s) = touchpads s"
  by (cases x; simp add: setting_defs update_frame update_frame_pads)+

lemma applied_extend:
  "pointer_applied (s\<lparr>mice := ms\<rparr>) = pointer_applied s"
  "touchpad_applied (s\<lparr>mice := ms\<rparr>) = touchpad_applied s"
  "pointer_applied (s\<lparr>touchpads := ts\<rparr>) = pointer_applied s"
  "touchpad_applied (s\<lparr>touchpads := ts\<rparr>) = touchpad_applied s"
  by (simp_all add: fun_eq_iff pointer_applied_def touchpad_applied_def)

lemma coherent_added: "coherent s \<Longrightarrow> coherent (device_added d s)"
  by (auto simp: coherent_def device_added_def set_insert_def configure_frame applied_extend
      mouse_group.applied_configure pad_pointer_group.applied_configure pad_group.applied_configure)

lemma coherent_removed: "coherent s \<Longrightarrow> coherent (device_removed d s)"
  by (auto simp: coherent_def device_removed_def applied_extend set_remove1_eq)

lemma coherent_step: "coherent s \<Longrightarrow> coherent (input_step pf op s)"
  by (cases op) (simp_all add: coherent_setting coherent_added coherent_removed)

section \<open>Every attached device is up to date\<close>

text \<open>The devices added and not removed since.\<close>

definition attach :: "input_op \<Rightarrow> device set \<Rightarrow> device set" where
  "attach op ds =
     (case op of DeviceAdded d \<Rightarrow> insert d ds | DeviceRemoved d \<Rightarrow> ds - {d} | Setting x \<Rightarrow> ds)"

lemma members_step:
  assumes "coherent s" and "set (mice s) = {d \<in> ds. has_pointer d \<and> \<not> has_touchpad d}"
    and "set (touchpads s) = {d \<in> ds. has_touchpad d}"
  shows "set (mice (input_step pf op s)) = {d \<in> attach op ds. has_pointer d \<and> \<not> has_touchpad d} \<and>
    set (touchpads (input_step pf op s)) = {d \<in> attach op ds. has_touchpad d}"
  using assms
  by (cases op) (auto simp: attach_def setting_members device_added_def device_removed_def
      set_insert_def configure_frame coherent_def set_remove1_eq)

lemma run_coherent:
  assumes "coherent s" and "set (mice s) = {d \<in> ds. has_pointer d \<and> \<not> has_touchpad d}"
    and "set (touchpads s) = {d \<in> ds. has_touchpad d}"
  shows "coherent (fold (input_step pf) ops s) \<and>
    set (mice (fold (input_step pf) ops s)) =
      {d \<in> fold attach ops ds. has_pointer d \<and> \<not> has_touchpad d} \<and>
    set (touchpads (fold (input_step pf) ops s)) = {d \<in> fold attach ops ds. has_touchpad d}"
  using assms
  by (induction ops arbitrary: s ds) (simp_all add: coherent_step members_step)

text \<open>
  C26. After any sequence of devices coming and going and settings changing, every attached touchpad
  and mouse has last been given exactly the current settings of its kind (a device that is both is a
  touchpad, and never gets the mouse settings), whatever order the container iterates in.
\<close>

theorem attached_devices_up_to_date:
  "let s = fold (input_step pf) ops (new_input_configuration dp dt)
   in \<forall>d \<in> fold attach ops {}.
        if has_touchpad d then
          pointer_applied s d = Some (touchpad_pointer_config s) \<and>
          touchpad_applied s d = Some (touchpad_settings s)
        else has_pointer d \<longrightarrow> pointer_applied s d = Some (mouse_pointer_config s)"
proof -
  have "coherent (new_input_configuration dp dt)"
    by (simp add: coherent_def new_input_configuration_def)
  moreover have "set (mice (new_input_configuration dp dt)) =
      {d \<in> {}. has_pointer d \<and> \<not> has_touchpad d}"
    "set (touchpads (new_input_configuration dp dt)) = {d \<in> {}. has_touchpad d}"
    by (simp_all add: new_input_configuration_def)
  ultimately have run: "coherent (fold (input_step pf) ops (new_input_configuration dp dt)) \<and>
      set (mice (fold (input_step pf) ops (new_input_configuration dp dt))) =
        {d \<in> fold attach ops {}. has_pointer d \<and> \<not> has_touchpad d} \<and>
      set (touchpads (fold (input_step pf) ops (new_input_configuration dp dt))) =
        {d \<in> fold attach ops {}. has_touchpad d}"
    by (rule run_coherent)
  show ?thesis
    unfolding Let_def
  proof (intro ballI)
    fix d
    assume d: "d \<in> fold attach ops {}"
    show "if has_touchpad d then
        pointer_applied (fold (input_step pf) ops (new_input_configuration dp dt)) d =
          Some (touchpad_pointer_config (fold (input_step pf) ops (new_input_configuration dp dt))) \<and>
        touchpad_applied (fold (input_step pf) ops (new_input_configuration dp dt)) d =
          Some (touchpad_settings (fold (input_step pf) ops (new_input_configuration dp dt)))
      else has_pointer d \<longrightarrow>
        pointer_applied (fold (input_step pf) ops (new_input_configuration dp dt)) d =
          Some (mouse_pointer_config (fold (input_step pf) ops (new_input_configuration dp dt)))"
      using run d coherentD by (metis (no_types, lifting) mem_Collect_eq)
  qed
qed

definition demo_platform :: platform where
  "demo_platform = \<lparr>rounding = (\<lambda>x. x), two_finger_bit = 4\<rparr>"

definition demo_pointer :: pointer_config where
  "demo_pointer = \<lparr>handedness = HandednessRight, cursor_acceleration_bias = Finite 0,
     horizontal_scroll_scale = Finite 1, vertical_scroll_scale = Finite 1\<rparr>"

definition demo_pad :: touchpad_config where
  "demo_pad = \<lparr>scroll_mode = 1, tap_to_click = True, disable_while_typing = False,
     disable_with_mouse = False\<rparr>"

definition demo_mouse :: device where
  "demo_mouse = \<lparr>device_id = 1, has_touchpad = False, has_pointer = True\<rparr>"

theorem attached_devices_up_to_date_witness:
  "let s = fold (input_step demo_platform)
        [Setting (SetMousePrimaryButton 1), DeviceAdded demo_mouse, Setting (SetMouseCursorSpeed NaN)]
        (new_input_configuration demo_pointer demo_pad)
   in pointer_applied s demo_mouse = Some (mouse_pointer_config s)"
proof -
  have "demo_mouse \<in> fold attach [Setting (SetMousePrimaryButton 1), DeviceAdded demo_mouse,
      Setting (SetMouseCursorSpeed NaN)] {}"
    by (simp add: attach_def)
  then show ?thesis
    using attached_devices_up_to_date[of demo_platform "[Setting (SetMousePrimaryButton 1),
        DeviceAdded demo_mouse, Setting (SetMouseCursorSpeed NaN)]" demo_pointer demo_pad]
    unfolding Let_def by (auto simp: demo_mouse_def simp del: fold_simps)
qed

section \<open>Pointer speeds\<close>

text \<open>IEEE rounding is monotone and keeps the numbers it can represent.\<close>

definition rounds :: "(rat \<Rightarrow> rat) \<Rightarrow> bool" where
  "rounds rnd \<longleftrightarrow> (\<forall>x y. x \<le> y \<longrightarrow> rnd x \<le> rnd y) \<and> rnd (-1) = -1 \<and> rnd 0 = 0 \<and> rnd 1 = 1 \<and> rnd 2 = 2"

lemma clamp_range:
  "speed \<noteq> NaN \<Longrightarrow> \<exists>q. clamp_speed speed = Finite q \<and> 0 \<le> q \<and> q \<le> 1 \<and>
     (speed \<le> Finite 0 \<longrightarrow> q = 0) \<and> (Finite 1 \<le> speed \<longrightarrow> q = 1)"
  by (cases speed) (auto simp: clamp_speed_def less_eq_double_def)

lemma clamp_mono:
  "x \<le> y \<Longrightarrow> \<exists>p q. clamp_speed x = Finite p \<and> clamp_speed y = Finite q \<and> p \<le> q"
  by (cases x; cases y) (auto simp: clamp_speed_def less_eq_double_def)

lemma bias_range:
  assumes "rounds rnd" and "0 \<le> q" "q \<le> 1"
  shows "-1 \<le> rnd (rnd (q * 2) - 1)" and "rnd (rnd (q * 2) - 1) \<le> 1"
proof -
  have mono: "rnd x \<le> rnd y" if "x \<le> y" for x y using assms(1) that by (simp add: rounds_def)
  have "rnd 0 \<le> rnd (q * 2)" "rnd (q * 2) \<le> rnd 2" using assms by (auto intro!: mono)
  then show "-1 \<le> rnd (rnd (q * 2) - 1)" and "rnd (rnd (q * 2) - 1) \<le> 1"
    using mono[of "-1" "rnd (q * 2) - 1"] mono[of "rnd (q * 2) - 1" 1] assms(1)
    by (simp_all add: rounds_def)
qed

lemma bias_mono:
  assumes "rounds rnd" and "x \<le> y"
  shows "double_minus_one rnd (clamp_speed x) \<le> double_minus_one rnd (clamp_speed y)"
proof -
  have mono: "rnd a \<le> rnd b" if "a \<le> b" for a b using assms(1) that by (simp add: rounds_def)
  obtain p q where pq: "clamp_speed x = Finite p" "clamp_speed y = Finite q" "p \<le> q"
    using clamp_mono[OF assms(2)] by blast
  then have "rnd (rnd (p * 2) - 1) \<le> rnd (rnd (q * 2) - 1)"
    by (intro mono diff_right_mono) simp
  then show ?thesis by (auto simp: pq less_eq_double_def)
qed

text \<open>
  C35. For every speed but NaN (infinities included) the acceleration bias handed to Mir is a number
  between -1 and 1, 0 and everything below giving -1, 1 and everything above giving 1, and a faster
  speed never gives a smaller bias. NaN passes both comparisons and reaches Mir as it is.
\<close>

theorem cursor_speed_in_range:
  assumes "rounds rnd"
  shows "(speed \<noteq> NaN \<longrightarrow>
      (\<exists>b. cursor_acceleration_bias (mouse_pointer_config (set_mouse_cursor_speed rnd speed s)) = Finite b \<and>
        cursor_acceleration_bias (touchpad_pointer_config (set_touchpad_cursor_speed rnd speed s)) = Finite b \<and>
        -1 \<le> b \<and> b \<le> 1 \<and> (speed \<le> Finite 0 \<longrightarrow> b = -1) \<and> (Finite 1 \<le> speed \<longrightarrow> b = 1))) \<and>
    (x \<le> speed \<longrightarrow>
      cursor_acceleration_bias (mouse_pointer_config (set_mouse_cursor_speed rnd x s)) \<le>
      cursor_acceleration_bias (mouse_pointer_config (set_mouse_cursor_speed rnd speed s))) \<and>
    cursor_acceleration_bias (mouse_pointer_config (set_mouse_cursor_speed rnd NaN s)) = NaN"
proof (intro conjI impI)
  have bias: "cursor_acceleration_bias (mouse_pointer_config (set_mouse_cursor_speed rnd v s)) =
      double_minus_one rnd (clamp_speed v)"
    "cursor_acceleration_bias (touchpad_pointer_config (set_touchpad_cursor_speed rnd v s)) =
      double_minus_one rnd (clamp_speed v)" for v
    by (simp_all add: setting_defs update_frame update_frame_pads)
  show "\<exists>b. cursor_acceleration_bias (mouse_pointer_config (set_mouse_cursor_speed rnd speed s)) = Finite b \<and>
        cursor_acceleration_bias (touchpad_pointer_config (set_touchpad_cursor_speed rnd speed s)) = Finite b \<and>
        -1 \<le> b \<and> b \<le> 1 \<and> (speed \<le> Finite 0 \<longrightarrow> b = -1) \<and> (Finite 1 \<le> speed \<longrightarrow> b = 1)"
    if "speed \<noteq> NaN"
  proof -
    obtain q where q: "clamp_speed speed = Finite q" "0 \<le> q" "q \<le> 1"
      "speed \<le> Finite 0 \<longrightarrow> q = 0" "Finite 1 \<le> speed \<longrightarrow> q = 1"
      using clamp_range[OF \<open>speed \<noteq> NaN\<close>] by blast
    then show ?thesis
      using bias_range[OF assms q(2,3)] assms unfolding bias by (auto simp: rounds_def)
  qed
  show "cursor_acceleration_bias (mouse_pointer_config (set_mouse_cursor_speed rnd x s)) \<le>
      cursor_acceleration_bias (mouse_pointer_config (set_mouse_cursor_speed rnd speed s))"
    if "x \<le> speed"
    using bias_mono[OF assms that] by (simp add: bias)
  show "cursor_acceleration_bias (mouse_pointer_config (set_mouse_cursor_speed rnd NaN s)) = NaN"
    by (simp add: bias clamp_speed_def)
qed

theorem cursor_speed_in_range_witness:
  "\<exists>b. cursor_acceleration_bias (mouse_pointer_config
     (set_mouse_cursor_speed (\<lambda>x. x) PosInf (new_input_configuration demo_pointer demo_pad))) =
     Finite b \<and> b = 1"
proof -
  have "rounds (\<lambda>x. x)" by (simp add: rounds_def)
  moreover have "Finite 1 \<le> PosInf" by (simp add: less_eq_double_def)
  ultimately show ?thesis
    using cursor_speed_in_range[of "\<lambda>x. x" PosInf "new_input_configuration demo_pointer demo_pad" NaN]
    by auto
qed

section \<open>Scroll modes\<close>

text \<open>
  Switching two-finger scrolling on or off changes that bit of the scroll mode only: the other
  modes chosen stay as they were, and doing it twice is doing it once.
\<close>

theorem two_finger_scroll_changes_one_bit:
  "let s' = set_two_finger_scroll (push_bit k 1) enable s;
       before = scroll_mode (touchpad_settings s); after = scroll_mode (touchpad_settings s')
   in (\<forall>i < 32. bit after i = (if i = k then enable else bit before i)) \<and>
     scroll_mode (touchpad_settings (set_two_finger_scroll (push_bit k 1) enable s')) = after"
proof -
  have mode: "scroll_mode (touchpad_settings (set_two_finger_scroll b e t)) =
      (if e then scroll_mode (touchpad_settings t) OR b else scroll_mode (touchpad_settings t) AND NOT b)"
    for b e t by (simp add: set_two_finger_scroll_def Let_def update_frame_pads)
  show ?thesis
    unfolding Let_def mode
    by (cases enable) (auto simp: bit_simps or.assoc and.assoc)
qed

theorem two_finger_scroll_changes_one_bit_witness:
  "bit (scroll_mode (touchpad_settings (set_two_finger_scroll 4 True
     (new_input_configuration demo_pointer demo_pad)))) 0"
  using two_finger_scroll_changes_one_bit[of 2 True "new_input_configuration demo_pointer demo_pad"]
  by (simp add: Let_def push_bit_eq_mult new_input_configuration_def demo_pad_def)

end
