(* ===== verification/Input_Service.thy ===== *)
theory Input_Service
  imports Dbus_Types Input_Configuration
begin

text \<open>
  \<open>UnityInputService\<close> (\<open>src/unity_input_service.{h,cpp}\<close>): the D-Bus methods that change the input
  settings. The three overloads of \<open>handle_message\<close> differ in the type of their argument; each has an
  error flag of its own.
\<close>

record 'm input_service =
  input_config :: input_configuration
  input_messages :: "'m bus_message list"

definition dbus_input_interface :: string where
  "dbus_input_interface = ''com.canonical.Unity.Input''"

definition send_input_message :: "'m bus_message \<Rightarrow> 'm input_service \<Rightarrow> 'm input_service" where
  "send_input_message msg s = s\<lparr>input_messages := input_messages s @ [msg]\<rparr>"

definition handle_message_bool ::
  "('m, double) libdbus \<Rightarrow> 'm \<Rightarrow> (bool \<Rightarrow> input_configuration \<Rightarrow> input_configuration) \<Rightarrow>
   'm input_service \<Rightarrow> 'm input_service" where
  "handle_message_bool lib m meth s =
     (case get_boolean_arg lib m of
        Some flag \<Rightarrow>
          send_input_message (MethodReturn m []) (s\<lparr>input_config := meth flag (input_config s)\<rparr>)
      | None \<Rightarrow> s)"

definition handle_message_double ::
  "('m, double) libdbus \<Rightarrow> 'm \<Rightarrow> (double \<Rightarrow> input_configuration \<Rightarrow> input_configuration) \<Rightarrow>
   'm input_service \<Rightarrow> 'm input_service" where
  "handle_message_double lib m meth s =
     (case get_double_arg lib m of
        Some v \<Rightarrow>
          send_input_message (MethodReturn m []) (s\<lparr>input_config := meth v (input_config s)\<rparr>)
      | None \<Rightarrow> s)"

definition handle_message_int32 ::
  "('m, double) libdbus \<Rightarrow> 'm \<Rightarrow> (int \<Rightarrow> input_configuration \<Rightarrow> input_configuration) \<Rightarrow>
   'm input_service \<Rightarrow> 'm input_service" where
  "handle_message_int32 lib m meth s =
     (case get_int32_arg lib m of
        Some v \<Rightarrow>
          send_input_message (MethodReturn m []) (s\<lparr>input_config := meth v (input_config s)\<rparr>)
      | None \<Rightarrow> s)"

text \<open>The outer \<open>args_error\<close> is declared here and never set; its test at the end is kept.\<close>

definition handle_input_message ::
  "('m, double) libdbus \<Rightarrow> string \<Rightarrow> platform \<Rightarrow> 'm \<Rightarrow> 'm input_service \<Rightarrow> 'm input_service" where
  "handle_input_message lib introspection pf m s =
     (let args_error = False;
          s1 =
            (if is_method_call lib m ''org.freedesktop.DBus.Introspectable'' ''Introspect'' then
               send_input_message (MethodReturn m [DbusString introspection]) s
             else if is_method_call lib m dbus_input_interface ''setMousePrimaryButton'' then
               handle_message_int32 lib m set_mouse_primary_button s
             else if is_method_call lib m dbus_input_interface ''setMouseCursorSpeed'' then
               handle_message_double lib m (set_mouse_cursor_speed (rounding pf)) s
             else if is_method_call lib m dbus_input_interface ''setMouseScrollSpeed'' then
               handle_message_double lib m set_mouse_scroll_speed s
             else if is_method_call lib m dbus_input_interface ''setTouchpadPrimaryButton'' then
               handle_message_int32 lib m set_touchpad_primary_button s
             else if is_method_call lib m dbus_input_interface ''setTouchpadCursorSpeed'' then
               handle_message_double lib m (set_touchpad_cursor_speed (rounding pf)) s
             else if is_method_call lib m dbus_input_interface ''setTouchpadScrollSpeed'' then
               handle_message_double lib m set_touchpad_scroll_speed s
             else if is_method_call lib m dbus_input_interface ''setTouchpadDisableWhileTyping'' then
               handle_message_bool lib m set_disable_touchpad_while_typing s
             else if is_method_call lib m dbus_input_interface ''setTouchpadTapToClick'' then
               handle_message_bool lib m set_tap_to_click s
             else if is_method_call lib m dbus_input_interface ''setTouchpadTwoFingerScroll'' then
               handle_message_bool lib m (set_two_finger_scroll (two_finger_bit pf)) s
             else if is_method_call lib m dbus_input_interface ''setTouchpadDisableWithMouse'' then
               handle_message_bool lib m set_disable_touchpad_with_mouse s
             else if has_method_call_type lib m then
               send_input_message
                 (ErrorReply m ''org.freedesktop.DBus.Error.Failed'' ''Not supported'') s
             else s)
      in if args_error then
           send_input_message
             (ErrorReply m ''org.freedesktop.DBus.Error.Failed'' ''Invalid arguments'') s1
         else s1)"

section \<open>The interface as a table\<close>

text \<open>
  The D-Bus interface as documented by its introspection file: the name of each method, and the
  setting a call's argument asks for (nothing if the argument has another type).
\<close>

definition input_methods ::
  "('m, double) libdbus \<Rightarrow> 'm \<Rightarrow> (string \<times> input_setting option) list" where
  "input_methods lib m =
     [(''setMousePrimaryButton'', map_option SetMousePrimaryButton (get_int32_arg lib m)),
      (''setMouseCursorSpeed'', map_option SetMouseCursorSpeed (get_double_arg lib m)),
      (''setMouseScrollSpeed'', map_option SetMouseScrollSpeed (get_double_arg lib m)),
      (''setTouchpadPrimaryButton'', map_option SetTouchpadPrimaryButton (get_int32_arg lib m)),
      (''setTouchpadCursorSpeed'', map_option SetTouchpadCursorSpeed (get_double_arg lib m)),
      (''setTouchpadScrollSpeed'', map_option SetTouchpadScrollSpeed (get_double_arg lib m)),
      (''setTouchpadDisableWhileTyping'',
         map_option SetDisableTouchpadWhileTyping (get_boolean_arg lib m)),
      (''setTouchpadTapToClick'', map_option SetTapToClick (get_boolean_arg lib m)),
      (''setTouchpadTwoFingerScroll'', map_option SetTwoFingerScroll (get_boolean_arg lib m)),
      (''setTouchpadDisableWithMouse'',
         map_option SetDisableTouchpadWithMouse (get_boolean_arg lib m))]"

lemma input_member_eq:
  assumes "libdbus_ok lib" and "is_method_call lib m i n"
  shows "is_method_call lib m i' n' \<Longrightarrow> n' = n"
  using assms unfolding libdbus_ok_def by blast

text \<open>
  C34. The service implements its interface: a call of a listed method whose argument has the
  listed type makes exactly the setting asked for and is answered by one empty return. With an
  argument of another type nothing is changed and, the test of the error flag being of another
  flag, nothing is sent at all: the caller waits for its reply until it times out.
\<close>

theorem input_methods_implemented:
  assumes lib: "libdbus_ok lib" and call: "is_method_call lib m dbus_input_interface name"
    and listed: "(name, setting) \<in> set (input_methods lib m)"
  shows "handle_input_message lib introspection pf m s =
    (case setting of
       Some x \<Rightarrow> \<lparr>input_config = apply_setting pf x (input_config s),
                  input_messages = input_messages s @ [MethodReturn m []]\<rparr>
     | None \<Rightarrow> s)"
proof -
  have other: "\<not> is_method_call lib m i' n'" if "name \<noteq> n'" for i' n'
    using input_member_eq[OF lib call] that by blast
  note handler_defs = handle_input_message_def Let_def handle_message_bool_def
    handle_message_double_def handle_message_int32_def send_input_message_def
  from listed show ?thesis
    unfolding input_methods_def set_simps insert_iff empty_iff prod.inject
    using call other
    by (elim disjE conjE FalseE) (hypsubst, simp add: handler_defs split: option.split)+
qed

text \<open>A library over messages given by a method name of this interface and a boolean argument.\<close>

definition flag_libdbus :: "(string \<times> bool option, double) libdbus" where
  "flag_libdbus =
     \<lparr>is_method_call = (\<lambda>(n, arg) i' n'. i' = dbus_input_interface \<and> n = n'),
      has_method_call_type = (\<lambda>_. True), get_string_args = (\<lambda>_ _. None),
      get_boolean_arg = snd, get_int32_arg = (\<lambda>_. None), get_double_arg = (\<lambda>_. None)\<rparr>"

theorem input_methods_implemented_witness:
  "\<forall>pf s. handle_input_message flag_libdbus '''' pf (''setTouchpadTapToClick'', Some True) s =
     \<lparr>input_config = set_tap_to_click True (input_config s),
      input_messages = input_messages s @ [MethodReturn (''setTouchpadTapToClick'', Some True) []]\<rparr> \<and>
   handle_input_message flag_libdbus '''' pf (''setTouchpadTapToClick'', None) s = s"
  (is "\<forall>pf s. ?P pf s")
proof -
  have ok: "libdbus_ok flag_libdbus" by (auto simp: libdbus_ok_def flag_libdbus_def)
  have call: "is_method_call flag_libdbus (''setTouchpadTapToClick'', b) dbus_input_interface
      ''setTouchpadTapToClick''" for b
    by (simp add: flag_libdbus_def)
  have listed: "(''setTouchpadTapToClick'', map_option SetTapToClick b) \<in>
      set (input_methods flag_libdbus (''setTouchpadTapToClick'', b))" for b
    by (simp add: input_methods_def flag_libdbus_def)
  show ?thesis
  proof (intro allI)
    show "?P pf s" for pf s
      using input_methods_implemented[OF ok call listed, of "''''" pf "Some True" s]
        input_methods_implemented[OF ok call listed, of "''''" pf None s]
      by simp
  qed
qed

end
