(* ===== verification/Event_Loop.thy ===== *)
theory Event_Loop
  imports Prelude "HOL-Library.Word"
begin

text \<open>
  \<open>DBusEventLoop\<close> (\<open>src/dbus_event_loop.{h,cpp}\<close>): one thread that waits on an epoll set for libdbus'
  watches and timeouts and for actions queued by other threads. libdbus' watches and timeouts are
  opaque; what it answers about them is an argument (\<open>bus\<close>), as are the results of the system
  calls. Calls into the system and into libdbus are recorded in order.
\<close>

unbundle bit_operations_syntax

section \<open>Flags\<close>

definition EPOLLIN :: "32 word" where "EPOLLIN = 0x001"
definition EPOLLOUT :: "32 word" where "EPOLLOUT = 0x004"
definition EPOLLERR :: "32 word" where "EPOLLERR = 0x008"
definition EPOLLHUP :: "32 word" where "EPOLLHUP = 0x010"

definition DBUS_WATCH_READABLE :: "32 word" where "DBUS_WATCH_READABLE = 1"
definition DBUS_WATCH_WRITABLE :: "32 word" where "DBUS_WATCH_WRITABLE = 2"
definition DBUS_WATCH_ERROR :: "32 word" where "DBUS_WATCH_ERROR = 4"
definition DBUS_WATCH_HANGUP :: "32 word" where "DBUS_WATCH_HANGUP = 8"

record dbus_watch =
  watch_fd :: int
  watch_enabled :: bool
  watch_flags :: "32 word"

record dbus_timeout =
  timeout_enabled :: bool
  timeout_interval :: int

definition dbus_flags_to_epoll_events :: "dbus_watch \<Rightarrow> 32 word" where
  "dbus_flags_to_epoll_events bus_watch =
     (if \<not> watch_enabled bus_watch then 0
      else
        let flags = watch_flags bus_watch;
            e0 = 0;
            e1 = (if flags AND DBUS_WATCH_READABLE \<noteq> 0 then e0 OR EPOLLIN else e0);
            e2 = (if flags AND DBUS_WATCH_WRITABLE \<noteq> 0 then e1 OR EPOLLOUT else e1)
        in e2 OR EPOLLHUP OR EPOLLERR)"

definition epoll_events_to_dbus_flags :: "32 word \<Rightarrow> 32 word" where
  "epoll_events_to_dbus_flags events =
     (let f0 = 0;
          f1 = (if events AND EPOLLIN \<noteq> 0 then f0 OR DBUS_WATCH_READABLE else f0);
          f2 = (if events AND EPOLLOUT \<noteq> 0 then f1 OR DBUS_WATCH_WRITABLE else f1);
          f3 = (if events AND EPOLLHUP \<noteq> 0 then f2 OR DBUS_WATCH_HANGUP else f2);
          f4 = (if events AND EPOLLERR \<noteq> 0 then f3 OR DBUS_WATCH_ERROR else f3)
      in f4)"

text \<open>C's division and remainder truncate towards zero.\<close>

definition msec_to_timespec :: "int \<Rightarrow> int \<times> int" where
  "msec_to_timespec msec =
     (let q = sgn msec * (\<bar>msec\<bar> div 1000); r = msec - q * 1000 in (q, r * 1000000))"

section \<open>State\<close>

text \<open>A timer setting is the value and the interval, both \<open>None\<close> when zero disarms the timer.\<close>

datatype epoll_call =
    EpollAdd int "32 word"
  | EpollMod int "32 word"
  | EpollDel int
  | TimerSet int "(int \<times> int) option"

datatype 'a loop_call =
    WatchHandle nat "32 word"
  | TimeoutHandle nat
  | PerformAction 'a
  | FlushConnection nat
  | DispatchConnection nat

record 'a event_loop =
  running :: bool
  connections :: "nat list"
  watches :: "nat list"
  timeouts :: "(nat \<times> int) list"
  actions :: "'a list"
  wake_up_fd :: int
  wake_up_bytes :: nat
  epoll_calls :: "epoll_call list"
  loop_calls :: "'a loop_call list"

text \<open>What libdbus answers: its watches and timeouts, and how often dispatching a connection
  leaves data before it does not.\<close>

record bus =
  the_watch :: "nat \<Rightarrow> dbus_watch"
  the_timeout :: "nat \<Rightarrow> dbus_timeout"
  data_remains :: "nat \<Rightarrow> nat"

definition call_epoll :: "epoll_call \<Rightarrow> 'a event_loop \<Rightarrow> 'a event_loop" where
  "call_epoll c l = l\<lparr>epoll_calls := epoll_calls l @ [c]\<rparr>"

definition call_bus :: "'a loop_call \<Rightarrow> 'a event_loop \<Rightarrow> 'a event_loop" where
  "call_bus c l = l\<lparr>loop_calls := loop_calls l @ [c]\<rparr>"

text \<open>The constructor: the results of \<open>epoll_create1\<close>, \<open>pipe2\<close> and \<open>epoll_ctl\<close> are arguments.\<close>

definition new_event_loop :: "bool \<Rightarrow> int option \<Rightarrow> bool \<Rightarrow> 'a event_loop res" where
  "new_event_loop epoll_ok pipe_r ctl_ok =
     (if \<not> epoll_ok then Inl (SystemError ''epoll_create1'')
      else case pipe_r of
        None \<Rightarrow> Inl (SystemError ''pipe2'')
      | Some fd \<Rightarrow>
          if \<not> ctl_ok then Inl (SystemError ''epoll_ctl'')
          else Inr \<lparr>running = False, connections = [], watches = [], timeouts = [], actions = [],
                    wake_up_fd = fd, wake_up_bytes = 0, epoll_calls = [EpollAdd fd EPOLLIN],
                    loop_calls = []\<rparr>)"

lemma new_event_loop_empty:
  "new_event_loop epoll_ok pipe_r ctl_ok = Inr l \<Longrightarrow> actions l = [] \<and> loop_calls l = []"
  by (auto simp: new_event_loop_def split: if_splits option.splits)

definition add_connection :: "nat \<Rightarrow> 'a event_loop \<Rightarrow> 'a event_loop res" where
  "add_connection c l =
     (if running l then Inl (LogicError ''Connection added after dbus event loop started'')
      else Inr (l\<lparr>connections := connections l @ [c]\<rparr>))"

section \<open>Watches\<close>

definition is_watched :: "bus \<Rightarrow> int \<Rightarrow> 'a event_loop \<Rightarrow> bool" where
  "is_watched b fd l \<longleftrightarrow> list_ex (\<lambda>w. watch_fd (the_watch b w) = fd) (watches l)"

definition epoll_events_for_watch_fd :: "bus \<Rightarrow> int \<Rightarrow> 'a event_loop \<Rightarrow> 32 word" where
  "epoll_events_for_watch_fd b fd l =
     fold (\<lambda>w events.
         if watch_fd (the_watch b w) = fd
         then events OR dbus_flags_to_epoll_events (the_watch b w) else events) (watches l) 0"

definition update_events_for_watch_fd :: "bus \<Rightarrow> int \<Rightarrow> 'a event_loop \<Rightarrow> 'a event_loop" where
  "update_events_for_watch_fd b fd l =
     call_epoll (EpollMod fd (epoll_events_for_watch_fd b fd l)) l"

definition enabled_watches_for :: "bus \<Rightarrow> int \<Rightarrow> 'a event_loop \<Rightarrow> nat list" where
  "enabled_watches_for b fd l =
     filter (\<lambda>w. watch_fd (the_watch b w) = fd \<and> watch_enabled (the_watch b w)) (watches l)"

text \<open>The first component is the \<open>dbus_bool_t\<close> returned; \<open>ctl_ok\<close> is the result of \<open>epoll_ctl\<close>.\<close>

definition add_watch :: "bus \<Rightarrow> bool \<Rightarrow> nat \<Rightarrow> 'a event_loop \<Rightarrow> bool \<times> 'a event_loop" where
  "add_watch b ctl_ok w l =
     (let fd = watch_fd (the_watch b w)
      in if \<not> is_watched b fd l \<and> \<not> ctl_ok then (False, l)
         else
           let l1 = (if is_watched b fd l then l else call_epoll (EpollAdd fd 0) l);
               l2 = l1\<lparr>watches := watches l1 @ [w]\<rparr>
           in (True, update_events_for_watch_fd b fd l2))"

definition remove_watch :: "bus \<Rightarrow> nat \<Rightarrow> 'a event_loop \<Rightarrow> 'a event_loop" where
  "remove_watch b w l =
     (let l1 = l\<lparr>watches := filter (\<lambda>v. v \<noteq> w) (watches l)\<rparr>;
          fd = watch_fd (the_watch b w)
      in if \<not> is_watched b fd l1 then call_epoll (EpollDel fd) l1
         else update_events_for_watch_fd b fd l1)"

definition toggle_watch :: "bus \<Rightarrow> nat \<Rightarrow> 'a event_loop \<Rightarrow> 'a event_loop" where
  "toggle_watch b w l = update_events_for_watch_fd b (watch_fd (the_watch b w)) l"

section \<open>Timeouts\<close>

definition timer_fd_for :: "nat \<Rightarrow> 'a event_loop \<Rightarrow> int" where
  "timer_fd_for t l = (case List.find (\<lambda>(u, fd). u = t) (timeouts l) of None \<Rightarrow> -1 | Some (u, fd) \<Rightarrow> fd)"

definition enabled_timeout_for :: "bus \<Rightarrow> int \<Rightarrow> 'a event_loop \<Rightarrow> nat option" where
  "enabled_timeout_for b fd l =
     map_option fst (List.find (\<lambda>(t, tfd). tfd = fd \<and> timeout_enabled (the_timeout b t)) (timeouts l))"

definition update_timer_fd_for :: "bus \<Rightarrow> bool \<Rightarrow> nat \<Rightarrow> 'a event_loop \<Rightarrow> bool \<times> 'a event_loop" where
  "update_timer_fd_for b set_ok t l =
     (let tfd = timer_fd_for t l;
          spec = (if timeout_enabled (the_timeout b t)
                  then Some (msec_to_timespec (timeout_interval (the_timeout b t))) else None)
      in (set_ok, call_epoll (TimerSet tfd spec) l))"

definition add_timeout ::
  "bus \<Rightarrow> int \<Rightarrow> bool \<Rightarrow> bool \<Rightarrow> nat \<Rightarrow> 'a event_loop \<Rightarrow> bool \<times> 'a event_loop" where
  "add_timeout b tfd ctl_ok set_ok t l =
     (if \<not> ctl_ok then (False, l)
      else
        let l1 = call_epoll (EpollAdd tfd EPOLLIN) l
        in update_timer_fd_for b set_ok t (l1\<lparr>timeouts := timeouts l1 @ [(t, tfd)]\<rparr>))"

definition remove_timeout :: "nat \<Rightarrow> 'a event_loop \<Rightarrow> 'a event_loop" where
  "remove_timeout t l =
     (let l1 = call_epoll (EpollDel (timer_fd_for t l)) l
      in l1\<lparr>timeouts := filter (\<lambda>(u, fd). u \<noteq> t) (timeouts l1)\<rparr>)"

definition toggle_timeout :: "bus \<Rightarrow> bool \<Rightarrow> nat \<Rightarrow> 'a event_loop \<Rightarrow> 'a event_loop" where
  "toggle_timeout b set_ok t l = snd (update_timer_fd_for b set_ok t l)"

section \<open>Actions\<close>

definition wake_up_loop :: "'a event_loop \<Rightarrow> 'a event_loop" where
  "wake_up_loop l = l\<lparr>wake_up_bytes := wake_up_bytes l + 1\<rparr>"

text \<open>The part of \<open>enqueue\<close> under the lock, and all of it.\<close>

definition push_action :: "'a \<Rightarrow> 'a event_loop \<Rightarrow> 'a event_loop" where
  "push_action a l = l\<lparr>actions := actions l @ [a]\<rparr>"

definition enqueue :: "'a \<Rightarrow> 'a event_loop \<Rightarrow> 'a event_loop" where
  "enqueue a l = wake_up_loop (push_action a l)"

definition stop :: "'a event_loop \<Rightarrow> 'a event_loop" where
  "stop l = wake_up_loop (l\<lparr>running := False\<rparr>)"

definition swap_actions :: "'a event_loop \<Rightarrow> 'a list \<times> 'a event_loop" where
  "swap_actions l = (actions l, l\<lparr>actions := []\<rparr>)"

definition dispatch_actions :: "'a event_loop \<Rightarrow> 'a event_loop" where
  "dispatch_actions l =
     (let (actions_to_dispatch, l1) = swap_actions l
      in fold (\<lambda>a. call_bus (PerformAction a)) actions_to_dispatch l1)"

section \<open>The loop\<close>

text \<open>One answer of \<open>epoll_wait\<close>.\<close>

datatype epoll_answer = Interrupted | WaitFailed | Ready int "32 word"

definition handle_ready :: "bus \<Rightarrow> int \<Rightarrow> 32 word \<Rightarrow> 'a event_loop \<Rightarrow> 'a event_loop" where
  "handle_ready b fd events l =
     (if fd = wake_up_fd l then l\<lparr>wake_up_bytes := wake_up_bytes l - 1\<rparr>
      else
        let matching_watches = enabled_watches_for b fd l;
            l1 = fold (\<lambda>w. call_bus (WatchHandle w (epoll_events_to_dbus_flags events)))
                   matching_watches l
        in if matching_watches = [] then
             (case enabled_timeout_for b fd l1 of
                Some t \<Rightarrow> call_bus (TimeoutHandle t) l1
              | None \<Rightarrow> l1)
           else l1)"

definition serve_connection :: "bus \<Rightarrow> nat \<Rightarrow> 'a event_loop \<Rightarrow> 'a event_loop" where
  "serve_connection b c l =
     fold call_bus (replicate (data_remains b c + 1) (DispatchConnection c))
       (call_bus (FlushConnection c) l)"

text \<open>The body of \<open>run\<close>'s loop after \<open>epoll_wait\<close>.\<close>

definition loop_body :: "bus \<Rightarrow> epoll_answer \<Rightarrow> 'a event_loop \<Rightarrow> 'a event_loop res" where
  "loop_body b ans l =
     (case ans of
        Interrupted \<Rightarrow> Inr l
      | WaitFailed \<Rightarrow> Inl (SystemError ''epoll_wait'')
      | Ready fd events \<Rightarrow>
          let l1 = dispatch_actions (handle_ready b fd events l)
          in Inr (fold (serve_connection b) (connections l1) l1))"

text \<open>What other threads do while the loop waits.\<close>

datatype 'a loop_input = Enqueue 'a | Stop | Answer epoll_answer

text \<open>
  \<open>run\<close>, driven by a sequence of inputs. The flag says whether the thread is still in the loop: the
  condition is tested after the body, and on leaving the loop every connection is flushed.
\<close>

fun loop_step :: "bus \<Rightarrow> 'a loop_input \<Rightarrow> bool \<times> 'a event_loop \<Rightarrow> (bool \<times> 'a event_loop) res" where
  "loop_step b (Enqueue a) (in_loop, l) = Inr (in_loop, enqueue a l)"
| "loop_step b Stop (in_loop, l) = Inr (in_loop, stop l)"
| "loop_step b (Answer ans) (in_loop, l) =
     (if in_loop then
        bind_res (loop_body b ans l) (\<lambda>l1.
          if running l1 then Inr (True, l1)
          else Inr (False, fold (\<lambda>c. call_bus (FlushConnection c)) (connections l1) l1))
      else Inr (in_loop, l))"

definition run_loop ::
  "bus \<Rightarrow> 'a loop_input list \<Rightarrow> 'a event_loop \<Rightarrow> (bool \<times> 'a event_loop) res" where
  "run_loop b inputs l = for_each (loop_step b) inputs (True, l\<lparr>running := True\<rparr>)"

end
