(* ===== verification/Event_Loop_Props.thy ===== *)
theory Event_Loop_Props
  imports Event_Loop
begin

text \<open>
  Properties of the D-Bus event loop: no queued action is lost, repeated, reordered or slept on under
  any interleaving of the loop with the threads that queue; the epoll set always reflects the watches
  and timeouts; the flags' translations; the time settings.
\<close>

section \<open>Interleavings of the loop with other threads\<close>

text \<open>
  Where the loop's thread is. \<open>enqueue\<close> and \<open>stop\<close> are two steps each, the change and the write to the
  wake-up pipe; \<open>pending_writes\<close> counts threads between the two.
\<close>

datatype 'a phase = NotStarted | Testing | Waiting | Swapping | Running "'a list" | Exited

record 'a loop_config =
  the_loop :: "'a event_loop"
  phase :: "'a phase"
  pending_writes :: nat
  pushed :: "'a list"

inductive loop_trans :: "bus \<Rightarrow> 'a loop_config \<Rightarrow> 'a loop_config \<Rightarrow> bool" for b where
  trans_start: "phase c = NotStarted \<Longrightarrow>
    loop_trans b c (c\<lparr>the_loop := (the_loop c)\<lparr>running := True\<rparr>, phase := Testing\<rparr>)"
| trans_test: "phase c = Testing \<Longrightarrow>
    loop_trans b c (c\<lparr>phase := if running (the_loop c) then Waiting else Exited\<rparr>)"
| trans_woken: "phase c = Waiting \<Longrightarrow> 0 < wake_up_bytes (the_loop c) \<Longrightarrow>
    loop_trans b c (c\<lparr>the_loop := handle_ready b (wake_up_fd (the_loop c)) e (the_loop c),
                     phase := Swapping\<rparr>)"
| trans_ready: "phase c = Waiting \<Longrightarrow> fd \<noteq> wake_up_fd (the_loop c) \<Longrightarrow>
    loop_trans b c (c\<lparr>the_loop := handle_ready b fd e (the_loop c), phase := Swapping\<rparr>)"
| trans_swap: "phase c = Swapping \<Longrightarrow> swap_actions (the_loop c) = (todo, l) \<Longrightarrow>
    loop_trans b c (c\<lparr>the_loop := l, phase := Running todo\<rparr>)"
| trans_act: "phase c = Running (a # todo) \<Longrightarrow>
    loop_trans b c (c\<lparr>the_loop := call_bus (PerformAction a) (the_loop c), phase := Running todo\<rparr>)"
| trans_served: "phase c = Running [] \<Longrightarrow>
    loop_trans b c (c\<lparr>the_loop := fold (serve_connection b) (connections (the_loop c)) (the_loop c),
                     phase := Testing\<rparr>)"
| trans_push: "loop_trans b c (c\<lparr>the_loop := push_action a (the_loop c),
                     pending_writes := pending_writes c + 1, pushed := pushed c @ [a]\<rparr>)"
| trans_stop: "loop_trans b c (c\<lparr>the_loop := (the_loop c)\<lparr>running := False\<rparr>,
                     pending_writes := pending_writes c + 1\<rparr>)"
| trans_write: "0 < pending_writes c \<Longrightarrow>
    loop_trans b c (c\<lparr>the_loop := wake_up_loop (the_loop c), pending_writes := pending_writes c - 1\<rparr>)"
| trans_libdbus_wakes: "loop_trans b c (c\<lparr>the_loop := wake_up_loop (the_loop c)\<rparr>)"

inductive loop_reachable :: "bus \<Rightarrow> 'a loop_config \<Rightarrow> bool" for b where
  reach_new: "new_event_loop True (Some fd) True = Inr l \<Longrightarrow>
    loop_reachable b \<lparr>the_loop = l, phase = NotStarted, pending_writes = 0, pushed = []\<rparr>"
| reach_trans: "loop_reachable b c \<Longrightarrow> loop_trans b c c' \<Longrightarrow> loop_reachable b c'"

definition performed :: "'a event_loop \<Rightarrow> 'a list" where
  "performed l = List.map_filter (\<lambda>c. case c of PerformAction a \<Rightarrow> Some a | _ \<Rightarrow> None) (loop_calls l)"

fun taken :: "'a phase \<Rightarrow> 'a list" where
  "taken (Running todo) = todo"
| "taken _ = []"

lemma performed_call:
  "performed (call_bus c l) = performed l @ (case c of PerformAction a \<Rightarrow> [a] | _ \<Rightarrow> [])"
  by (simp add: performed_def call_bus_def List.map_filter_def split: loop_call.split)

text \<open>Calls into libdbus other than actions change none of what the invariant speaks of.\<close>

definition same_queue :: "'a event_loop \<Rightarrow> 'a event_loop \<Rightarrow> bool" where
  "same_queue l l' \<longleftrightarrow> performed l' = performed l \<and> actions l' = actions l \<and>
     running l' = running l \<and> wake_up_fd l' = wake_up_fd l"

lemma same_queue_refl: "same_queue l l"
  by (simp add: same_queue_def)

lemma same_queue_call:
  "(\<And>a. c \<noteq> PerformAction a) \<Longrightarrow>
   same_queue l (call_bus c l') = same_queue l l' \<and> wake_up_bytes (call_bus c l') = wake_up_bytes l'"
  unfolding same_queue_def performed_call by (cases c) (auto simp: call_bus_def)

lemma same_queue_fold:
  "list_all (\<lambda>c. \<forall>a. c \<noteq> PerformAction a) cs \<Longrightarrow>
   same_queue l l' \<Longrightarrow> same_queue l (fold call_bus cs l') \<and>
     wake_up_bytes (fold call_bus cs l') = wake_up_bytes l'"
  by (induction cs arbitrary: l') (auto simp: same_queue_call)

lemma same_queue_serve: "same_queue l (fold (serve_connection b) cs l) \<and>
   wake_up_bytes (fold (serve_connection b) cs l) = wake_up_bytes l"
proof -
  have "same_queue l (fold (serve_connection b) cs l') \<and>
      wake_up_bytes (fold (serve_connection b) cs l') = wake_up_bytes l'" if "same_queue l l'" for l'
    using that
  proof (induction cs arbitrary: l')
    case (Cons c cs)
    have calls: "serve_connection b c l' = fold call_bus
        (FlushConnection c # replicate (data_remains b c + 1) (DispatchConnection c)) l'"
      by (simp add: serve_connection_def)
    have "same_queue l (serve_connection b c l') \<and>
        wake_up_bytes (serve_connection b c l') = wake_up_bytes l'"
      unfolding calls by (rule same_queue_fold) (use Cons.prems in \<open>auto simp: list_all_iff\<close>)
    then show ?case using Cons.IH[of "serve_connection b c l'"] by simp
  qed simp
  from this[OF same_queue_refl] show ?thesis .
qed

lemma same_queue_ready:
  "same_queue l (handle_ready b fd e l)"
  "fd \<noteq> wake_up_fd l \<Longrightarrow> wake_up_bytes (handle_ready b fd e l) = wake_up_bytes l"
proof -
  let ?ws = "enabled_watches_for b fd l"
  let ?l1 = "fold (\<lambda>w. call_bus (WatchHandle w (epoll_events_to_dbus_flags e))) ?ws l"
  have "?l1 = fold call_bus (map (\<lambda>w. WatchHandle w (epoll_events_to_dbus_flags e)) ?ws) l"
    by (simp add: fold_map comp_def)
  then have l1: "same_queue l ?l1 \<and> wake_up_bytes ?l1 = wake_up_bytes l"
    using same_queue_fold[OF _ same_queue_refl,
        of "map (\<lambda>w. WatchHandle w (epoll_events_to_dbus_flags e)) ?ws" l]
    by (simp add: list_all_iff)
  then have "same_queue l (call_bus (TimeoutHandle t) ?l1) \<and>
      wake_up_bytes (call_bus (TimeoutHandle t) ?l1) = wake_up_bytes l" for t
    by (simp add: same_queue_call)
  with l1 show "same_queue l (handle_ready b fd e l)"
    "fd \<noteq> wake_up_fd l \<Longrightarrow> wake_up_bytes (handle_ready b fd e l) = wake_up_bytes l"
    by (auto simp: handle_ready_def Let_def same_queue_def performed_def split: option.split)
qed

lemma performed_dispatch:
  "performed (dispatch_actions l) = performed l @ actions l" "actions (dispatch_actions l) = []"
proof -
  have "performed (fold (\<lambda>a. call_bus (PerformAction a)) as k) = performed k @ as \<and>
      actions (fold (\<lambda>a. call_bus (PerformAction a)) as k) = actions k" for as and k :: "'a event_loop"
    by (induction as arbitrary: k) (simp_all add: performed_call, simp add: call_bus_def)
  then show "performed (dispatch_actions l) = performed l @ actions l" "actions (dispatch_actions l) = []"
    by (simp_all add: dispatch_actions_def swap_actions_def performed_def)
qed

section \<open>The invariant of the queue\<close>

definition queue_inv :: "'a loop_config \<Rightarrow> bool" where
  "queue_inv c \<longleftrightarrow>
     performed (the_loop c) @ taken (phase c) @ actions (the_loop c) = pushed c \<and>
     (actions (the_loop c) \<noteq> [] \<longrightarrow>
        0 < wake_up_bytes (the_loop c) + pending_writes c \<or> phase c = Swapping) \<and>
     (phase c = Waiting \<and> \<not> running (the_loop c) \<longrightarrow>
        0 < wake_up_bytes (the_loop c) + pending_writes c)"

lemma queue_inv_trans:
  assumes "loop_trans b c c'" and "queue_inv c"
  shows "queue_inv c'"
  using assms
proof (induction rule: loop_trans.induct)
  case (trans_woken c e)
  then show ?case
    using same_queue_ready(1)[of "the_loop c" b "wake_up_fd (the_loop c)" e]
    by (simp add: queue_inv_def same_queue_def)
next
  case (trans_ready c fd e)
  then show ?case
    using same_queue_ready(1)[of "the_loop c" b fd e] same_queue_ready(2)[of fd "the_loop c" b e]
    by (simp add: queue_inv_def same_queue_def)
next
  case (trans_served c)
  then show ?case
    using same_queue_serve[of "the_loop c" b "connections (the_loop c)"]
    by (auto simp: queue_inv_def same_queue_def)
next
  case (trans_act c a todo)
  then show ?case by (auto simp: queue_inv_def performed_call) (auto simp: call_bus_def)
qed (auto simp: queue_inv_def performed_def swap_actions_def push_action_def wake_up_loop_def)

lemma queue_inv_reachable: "loop_reachable b c \<Longrightarrow> queue_inv c"
proof (induction rule: loop_reachable.induct)
  case (reach_new fd l)
  then show ?case
    by (auto simp: queue_inv_def new_event_loop_def performed_def map_filter_simps)
qed (simp add: queue_inv_trans)

text \<open>
  C6. However the loop's thread and the threads that queue actions or stop the loop interleave: the
  actions performed, those taken and those still queued are together exactly the actions queued, in
  order, so none is lost, repeated or overtaken. And the loop never sleeps on work: when it waits
  with the wake-up pipe empty and no thread about to write to it, nothing is queued and nobody has
  stopped the loop.
\<close>

theorem actions_neither_lost_nor_slept_on:
  assumes "loop_reachable b c"
  shows "performed (the_loop c) @ taken (phase c) @ actions (the_loop c) = pushed c \<and>
    (phase c = Waiting \<and> wake_up_bytes (the_loop c) = 0 \<and> pending_writes c = 0 \<longrightarrow>
      actions (the_loop c) = [] \<and> running (the_loop c) \<and> performed (the_loop c) = pushed c)"
  using queue_inv_reachable[OF assms] by (auto simp: queue_inv_def)

definition demo_bus :: bus where
  "demo_bus =
     \<lparr>the_watch = (\<lambda>w. \<lparr>watch_fd = 10, watch_enabled = True, watch_flags = of_nat w\<rparr>),
      the_timeout = (\<lambda>t. \<lparr>timeout_enabled = True, timeout_interval = 1500\<rparr>),
      data_remains = (\<lambda>c. 0)\<rparr>"

definition demo_loop :: "nat event_loop" where
  "demo_loop = \<lparr>running = False, connections = [], watches = [], timeouts = [], actions = [],
     wake_up_fd = 3, wake_up_bytes = 0, epoll_calls = [EpollAdd 3 EPOLLIN], loop_calls = []\<rparr>"

lemma demo_loop_new: "new_event_loop True (Some 3) True = Inr demo_loop"
  by (simp add: new_event_loop_def demo_loop_def)

theorem actions_neither_lost_nor_slept_on_witness:
  "\<exists>c. loop_reachable demo_bus c \<and> phase c = Waiting \<and> pushed c = [7 :: nat] \<and>
     performed (the_loop c) @ taken (phase c) @ actions (the_loop c) = [7]"
proof -
  let ?c0 = "\<lparr>the_loop = demo_loop, phase = NotStarted, pending_writes = 0, pushed = []\<rparr>"
  let ?c1 = "?c0\<lparr>the_loop := (the_loop ?c0)\<lparr>running := True\<rparr>, phase := Testing\<rparr>"
  let ?c2 = "?c1\<lparr>phase := if running (the_loop ?c1) then Waiting else Exited\<rparr>"
  let ?c3 = "?c2\<lparr>the_loop := push_action 7 (the_loop ?c2),
      pending_writes := pending_writes ?c2 + 1, pushed := pushed ?c2 @ [7]\<rparr>"
  have "loop_reachable demo_bus ?c0" by (rule reach_new[OF demo_loop_new])
  moreover have "loop_trans demo_bus ?c0 ?c1" by (rule trans_start) simp
  moreover have "loop_trans demo_bus ?c1 ?c2" by (rule trans_test) simp
  moreover have "loop_trans demo_bus ?c2 ?c3" by (rule trans_push)
  ultimately have "loop_reachable demo_bus ?c3" by (meson reach_trans)
  from this actions_neither_lost_nor_slept_on[OF this] show ?thesis
    by (intro exI[of _ ?c3]) simp
qed

section \<open>The epoll set\<close>

text \<open>The documented effect of the calls: adding registers an unregistered descriptor, modifying
  changes a registered one, deleting unregisters.\<close>

fun epoll_effect :: "epoll_call \<Rightarrow> (int \<Rightarrow> 32 word option) \<Rightarrow> int \<Rightarrow> 32 word option" where
  "epoll_effect (EpollAdd fd e) m = (if m fd = None then m(fd := Some e) else m)"
| "epoll_effect (EpollMod fd e) m = (if m fd = None then m else m(fd := Some e))"
| "epoll_effect (EpollDel fd) m = m(fd := None)"
| "epoll_effect (TimerSet fd spec) m = m"

definition interest :: "'a event_loop \<Rightarrow> int \<Rightarrow> 32 word option" where
  "interest l = fold epoll_effect (epoll_calls l) (\<lambda>_. None)"

lemma interest_call [simp]: "interest (call_epoll c l) = epoll_effect c (interest l)"
  by (simp add: interest_def call_epoll_def)

text \<open>What libdbus does with the loop. A descriptor stays open while it is watched, so the system
  gives timers other descriptors than watches and the wake-up pipe have.\<close>

datatype bus_op =
    BusAddWatch bool nat
  | BusRemoveWatch nat
  | BusToggleWatch nat bool
  | BusAddTimeout int bool bool nat
  | BusRemoveTimeout nat
  | BusToggleTimeout bool nat

definition timer_fds :: "'a event_loop \<Rightarrow> int set" where
  "timer_fds l = snd ` set (timeouts l)"

fun bus_op_ok :: "bus \<times> 'a event_loop \<Rightarrow> bus_op \<Rightarrow> bool" where
  "bus_op_ok (b, l) (BusAddWatch ok w) \<longleftrightarrow>
     watch_fd (the_watch b w) \<notin> insert (wake_up_fd l) (timer_fds l)"
| "bus_op_ok (b, l) (BusRemoveWatch w) \<longleftrightarrow> w \<in> set (watches l)"
| "bus_op_ok (b, l) (BusToggleWatch w en) \<longleftrightarrow> w \<in> set (watches l)"
| "bus_op_ok (b, l) (BusAddTimeout tfd ok set_ok t) \<longleftrightarrow>
     t \<notin> fst ` set (timeouts l) \<and> tfd \<notin> insert (wake_up_fd l) (timer_fds l) \<and> \<not> is_watched b tfd l"
| "bus_op_ok (b, l) (BusRemoveTimeout t) \<longleftrightarrow> t \<in> fst ` set (timeouts l)"
| "bus_op_ok (b, l) (BusToggleTimeout set_ok t) \<longleftrightarrow> t \<in> fst ` set (timeouts l)"

definition set_enabled :: "nat \<Rightarrow> bool \<Rightarrow> bus \<Rightarrow> bus" where
  "set_enabled w en b =
     b\<lparr>the_watch := (the_watch b)(w := (the_watch b w)\<lparr>watch_enabled := en\<rparr>)\<rparr>"

text \<open>libdbus changes a watch and then calls the toggle function.\<close>

fun bus_step :: "bus_op \<Rightarrow> bus \<times> 'a event_loop \<Rightarrow> bus \<times> 'a event_loop" where
  "bus_step (BusAddWatch ok w) (b, l) = (b, snd (add_watch b ok w l))"
| "bus_step (BusRemoveWatch w) (b, l) = (b, remove_watch b w l)"
| "bus_step (BusToggleWatch w en) (b, l) = (set_enabled w en b, toggle_watch (set_enabled w en b) w l)"
| "bus_step (BusAddTimeout tfd ok set_ok t) (b, l) = (b, snd (add_timeout b tfd ok set_ok t l))"
| "bus_step (BusRemoveTimeout t) (b, l) = (b, remove_timeout t l)"
| "bus_step (BusToggleTimeout set_ok t) (b, l) = (b, toggle_timeout b set_ok t l)"

inductive bus_reachable :: "bus \<times> 'a event_loop \<Rightarrow> bool" where
  bus_new: "new_event_loop True (Some fd) True = Inr l \<Longrightarrow> bus_reachable (b, l)"
| bus_op: "bus_reachable s \<Longrightarrow> bus_op_ok s op \<Longrightarrow> bus_reachable (bus_step op s)"

definition epoll_inv :: "bus \<times> 'a event_loop \<Rightarrow> bool" where
  "epoll_inv s \<longleftrightarrow>
     (case s of (b, l) \<Rightarrow>
        distinct (map fst (timeouts l)) \<and> distinct (map snd (timeouts l)) \<and>
        wake_up_fd l \<notin> timer_fds l \<and>
        (\<forall>w \<in> set (watches l). watch_fd (the_watch b w) \<notin> insert (wake_up_fd l) (timer_fds l)) \<and>
        (\<forall>fd. interest l fd =
           (if fd = wake_up_fd l \<or> fd \<in> timer_fds l then Some EPOLLIN
            else if is_watched b fd l then Some (epoll_events_for_watch_fd b fd l) else None)))"

text \<open>What the events of a descriptor depend on.\<close>

lemma watched_iff: "is_watched b fd l \<longleftrightarrow> (\<exists>w \<in> set (watches l). watch_fd (the_watch b w) = fd)"
  by (auto simp: is_watched_def list_ex_iff)

lemma events_cong:
  assumes "filter (\<lambda>w. watch_fd (the_watch b w) = fd) (watches l) =
      filter (\<lambda>w. watch_fd (the_watch b' w) = fd) (watches l')"
    and "\<And>w. w \<in> set (watches l) \<Longrightarrow> watch_fd (the_watch b w) = fd \<Longrightarrow> the_watch b' w = the_watch b w"
  shows "epoll_events_for_watch_fd b' fd l' = epoll_events_for_watch_fd b fd l"
proof -
  have filt: "epoll_events_for_watch_fd c fd k = fold (\<lambda>w events.
      events OR dbus_flags_to_epoll_events (the_watch c w))
        (filter (\<lambda>w. watch_fd (the_watch c w) = fd) (watches k)) 0" for c and k :: "'c event_loop"
  proof -
    have "fold (\<lambda>w events. if watch_fd (the_watch c w) = fd
        then events OR dbus_flags_to_epoll_events (the_watch c w) else events) ws e =
      fold (\<lambda>w events. events OR dbus_flags_to_epoll_events (the_watch c w))
        (filter (\<lambda>w. watch_fd (the_watch c w) = fd) ws) e" for ws e
      by (induction ws arbitrary: e) auto
    then show ?thesis by (simp add: epoll_events_for_watch_fd_def)
  qed
  show ?thesis
    unfolding filt assms(1)[symmetric] by (rule fold_cong) (auto simp: assms(2))
qed

lemma call_epoll_fields [simp]:
  "watches (call_epoll c l) = watches l" "timeouts (call_epoll c l) = timeouts l"
  "wake_up_fd (call_epoll c l) = wake_up_fd l" "timer_fds (call_epoll c l) = timer_fds l"
  "is_watched b fd (call_epoll c l) = is_watched b fd l"
  "epoll_events_for_watch_fd b fd (call_epoll c l) = epoll_events_for_watch_fd b fd l"
  by (simp_all add: call_epoll_def timer_fds_def is_watched_def epoll_events_for_watch_fd_def)

lemma set_watches [simp]:
  "interest (l\<lparr>watches := ws\<rparr>) = interest l" "timer_fds (l\<lparr>watches := ws\<rparr>) = timer_fds l"
  "interest (l\<lparr>timeouts := ts\<rparr>) = interest l"
  "is_watched b fd (l\<lparr>timeouts := ts\<rparr>) = is_watched b fd l"
  "epoll_events_for_watch_fd b fd (l\<lparr>timeouts := ts\<rparr>) = epoll_events_for_watch_fd b fd l"
  by (simp_all add: interest_def timer_fds_def is_watched_def epoll_events_for_watch_fd_def)

lemma epoll_inv_add_watch:
  assumes inv: "epoll_inv (b, l)" and ok: "bus_op_ok (b, l) (BusAddWatch ctl_ok w)"
  shows "epoll_inv (b, snd (add_watch b ctl_ok w l))"
proof (cases "\<not> is_watched b (watch_fd (the_watch b w)) l \<and> \<not> ctl_ok")
  case True
  then show ?thesis using inv by (simp add: add_watch_def)
next
  case False
  let ?fd = "watch_fd (the_watch b w)"
  have ev: "epoll_events_for_watch_fd b fd (l\<lparr>watches := watches l @ [w]\<rparr>) =
      epoll_events_for_watch_fd b fd l" if "fd \<noteq> ?fd" for fd
    by (rule events_cong) (use that in auto)
  have "epoll_events_for_watch_fd b fd ((call_epoll c l)\<lparr>watches := watches l @ [w]\<rparr>) =
      epoll_events_for_watch_fd b fd (l\<lparr>watches := watches l @ [w]\<rparr>)" for fd c
    by (simp add: epoll_events_for_watch_fd_def)
  then show ?thesis
    using inv ok False
    by (auto simp: epoll_inv_def add_watch_def update_events_for_watch_fd_def Let_def watched_iff ev)
qed

lemma epoll_inv_remove_watch:
  assumes inv: "epoll_inv (b, l)" and ok: "bus_op_ok (b, l) (BusRemoveWatch w)"
  shows "epoll_inv (b, remove_watch b w l)"
proof -
  let ?fd = "watch_fd (the_watch b w)"
  let ?l1 = "l\<lparr>watches := filter (\<lambda>v. v \<noteq> w) (watches l)\<rparr>"
  have ev: "epoll_events_for_watch_fd b fd ?l1 = epoll_events_for_watch_fd b fd l" if "fd \<noteq> ?fd" for fd
    by (rule events_cong) (use that in \<open>auto intro!: filter_cong\<close>)
  show ?thesis
    using inv ok
    by (auto simp: epoll_inv_def remove_watch_def update_events_for_watch_fd_def Let_def watched_iff ev)
qed

lemma epoll_inv_toggle_watch:
  assumes inv: "epoll_inv (b, l)" and ok: "bus_op_ok (b, l) (BusToggleWatch w en)"
  shows "epoll_inv (set_enabled w en b, toggle_watch (set_enabled w en b) w l)"
proof -
  have fd: "watch_fd (the_watch (set_enabled w en b) v) = watch_fd (the_watch b v)" for v
    by (simp add: set_enabled_def)
  have ev: "epoll_events_for_watch_fd (set_enabled w en b) fd l = epoll_events_for_watch_fd b fd l"
    if "fd \<noteq> watch_fd (the_watch b w)" for fd
    by (rule events_cong) (use that in \<open>auto simp: set_enabled_def intro!: filter_cong\<close>)
  show ?thesis
    using inv ok
    by (auto simp: epoll_inv_def toggle_watch_def update_events_for_watch_fd_def Let_def watched_iff
        ev fd)
qed

lemma timer_fd_found:
  assumes "(t, fd) \<in> set (timeouts l)" and "distinct (map fst (timeouts l))"
  shows "timer_fd_for t l = fd"
proof -
  have "List.find (\<lambda>(u, f). u = t) ts = Some (t, fd)" if "(t, fd) \<in> set ts" "distinct (map fst ts)" for ts
    using that by (induction ts) force+
  with assms show ?thesis by (simp add: timer_fd_for_def)
qed

lemma epoll_inv_add_timeout:
  assumes inv: "epoll_inv (b, l)" and ok: "bus_op_ok (b, l) (BusAddTimeout tfd ctl_ok set_ok t)"
  shows "epoll_inv (b, snd (add_timeout b tfd ctl_ok set_ok t l))"
proof (cases ctl_ok)
  case False
  then show ?thesis using inv by (simp add: add_timeout_def)
next
  case True
  have "timer_fds (l\<lparr>timeouts := timeouts l @ [(t, tfd)]\<rparr>) = insert tfd (timer_fds l)"
    and "timer_fds ((call_epoll c l)\<lparr>timeouts := timeouts l @ [(t, tfd)]\<rparr>) = insert tfd (timer_fds l)" for c
    by (simp_all add: timer_fds_def)
  moreover have "tfd \<notin> snd ` set (timeouts l)" "t \<notin> fst ` set (timeouts l)"
    using ok by (simp_all add: timer_fds_def)
  then have "distinct (map fst (timeouts l @ [(t, tfd)]))" "distinct (map snd (timeouts l @ [(t, tfd)]))"
    using inv by (simp_all add: epoll_inv_def)
  ultimately show ?thesis
    using inv ok True
    by (simp add: epoll_inv_def add_timeout_def update_timer_fd_for_def Let_def watched_iff)
qed

lemma epoll_inv_remove_timeout:
  assumes inv: "epoll_inv (b, l)" and ok: "bus_op_ok (b, l) (BusRemoveTimeout t)"
  shows "epoll_inv (b, remove_timeout t l)"
proof -
  obtain fd where fd: "(t, fd) \<in> set (timeouts l)" using ok by force
  have d: "distinct (map fst (timeouts l))" "distinct (map snd (timeouts l))"
    using inv by (simp_all add: epoll_inv_def)
  note tfd = timer_fd_found[OF fd d(1)]
  have one: "p = (t, fd)" if "p \<in> set (timeouts l)" "fst p = t \<or> snd p = fd" for p
    using that fd d[unfolded distinct_map] by (metis fst_conv inj_onD snd_conv)
  have "snd ` set (filter (\<lambda>(u, f). u \<noteq> t) (timeouts l)) = snd ` set (timeouts l) - {fd}"
  proof (intro equalityI subsetI)
    fix y
    assume "y \<in> snd ` set (filter (\<lambda>(u, f). u \<noteq> t) (timeouts l))"
    then obtain u where "(u, y) \<in> set (timeouts l)" "u \<noteq> t" by auto
    then show "y \<in> snd ` set (timeouts l) - {fd}" using one[of "(u, y)"] by force
  next
    fix y
    assume "y \<in> snd ` set (timeouts l) - {fd}"
    then obtain p where p: "p \<in> set (timeouts l)" "y = snd p" "snd p \<noteq> fd" by auto
    then have "fst p \<noteq> t" using one[of p] by (metis snd_conv)
    then show "y \<in> snd ` set (filter (\<lambda>(u, f). u \<noteq> t) (timeouts l))"
      using p by (auto intro!: image_eqI[of _ _ p])
  qed
  then have fds: "timer_fds ((call_epoll c l)\<lparr>timeouts := filter (\<lambda>(u, f). u \<noteq> t) (timeouts l)\<rparr>) =
      timer_fds l - {fd}" for c
    by (simp add: timer_fds_def)
  have mem: "fd \<in> timer_fds l" using fd by (force simp: timer_fds_def)
  show ?thesis
    using inv mem
    by (auto simp: epoll_inv_def remove_timeout_def Let_def tfd fds watched_iff distinct_map_filter)
qed

lemma epoll_inv_toggle_timeout:
  "epoll_inv (b, l) \<Longrightarrow> epoll_inv (b, toggle_timeout b set_ok t l)"
  by (auto simp: epoll_inv_def toggle_timeout_def update_timer_fd_for_def Let_def)

lemma epoll_inv_step: "epoll_inv s \<Longrightarrow> bus_op_ok s op \<Longrightarrow> epoll_inv (bus_step op s)"
proof -
  assume inv: "epoll_inv s" and ok: "bus_op_ok s op"
  obtain b l where s: "s = (b, l)" by force
  show ?thesis
    using inv ok unfolding s
    by (cases op)
      (simp_all only: bus_step.simps epoll_inv_add_watch epoll_inv_remove_watch
        epoll_inv_toggle_watch epoll_inv_add_timeout epoll_inv_remove_timeout
        epoll_inv_toggle_timeout)
qed

lemma epoll_inv_reachable: "bus_reachable s \<Longrightarrow> epoll_inv s"
proof (induction rule: bus_reachable.induct)
  case (bus_new fd l b)
  then show ?case
    by (auto simp: new_event_loop_def epoll_inv_def timer_fds_def interest_def watched_iff)
qed (rule epoll_inv_step)

text \<open>
  C13. Whatever watches and timeouts libdbus adds, removes and toggles, the epoll set is exact: a
  descriptor is registered just while it is the wake-up pipe's, a timer's or a watch's; a watched one
  is registered for the union of what its watches ask for, each enabled watch thus for all it asks,
  and a descriptor all of whose watches are disabled for nothing; removing one of two watches of a
  descriptor keeps the other one served.
\<close>

theorem epoll_set_exact:
  assumes "bus_reachable (b, l)"
  shows "interest l fd =
      (if fd = wake_up_fd l \<or> fd \<in> timer_fds l then Some EPOLLIN
       else if \<exists>w \<in> set (watches l). watch_fd (the_watch b w) = fd
       then Some (epoll_events_for_watch_fd b fd l) else None) \<and>
    (\<forall>i < 32. bit (epoll_events_for_watch_fd b fd l) i =
      (\<exists>w \<in> set (watches l). watch_fd (the_watch b w) = fd \<and>
         bit (dbus_flags_to_epoll_events (the_watch b w)) i)) \<and>
    (\<forall>w \<in> set (watches l). watch_fd (the_watch b w) \<noteq> wake_up_fd l \<and>
      watch_fd (the_watch b w) \<notin> timer_fds l)"
proof -
  have "bit (fold (\<lambda>w events. if watch_fd (the_watch b w) = fd
        then events OR dbus_flags_to_epoll_events (the_watch b w) else events) ws e) i =
      (bit e i \<or> (\<exists>w \<in> set ws. watch_fd (the_watch b w) = fd \<and>
         bit (dbus_flags_to_epoll_events (the_watch b w)) i))" for ws e i
    by (induction ws arbitrary: e) (auto simp: bit_simps)
  then have "\<forall>i < 32. bit (epoll_events_for_watch_fd b fd l) i =
      (\<exists>w \<in> set (watches l). watch_fd (the_watch b w) = fd \<and>
         bit (dbus_flags_to_epoll_events (the_watch b w)) i)"
    by (simp add: epoll_events_for_watch_fd_def)
  with epoll_inv_reachable[OF assms] show ?thesis
    by (auto simp: epoll_inv_def watched_iff)
qed

lemma demo_bus_reachable:
  "bus_reachable (bus_step (BusAddWatch True 2) (bus_step (BusAddWatch True 1) (demo_bus, demo_loop)))"
  by (intro bus_op bus_new[OF demo_loop_new])
    (auto simp: demo_bus_def demo_loop_def timer_fds_def add_watch_def is_watched_def Let_def
      update_events_for_watch_fd_def call_epoll_def)

theorem epoll_set_exact_witness:
  "\<exists>b (l :: nat event_loop). bus_reachable (b, l) \<and> watches l = [1, 2] \<and>
     interest l 10 = Some (epoll_events_for_watch_fd b 10 l)"
proof -
  obtain b l where bl: "bus_step (BusAddWatch True 2) (bus_step (BusAddWatch True 1) (demo_bus, demo_loop)) = (b, l)"
    by force
  then have l: "watches l = [1, 2]" "wake_up_fd l = 3" "timeouts l = []" "b = demo_bus"
    by (auto simp: demo_loop_def add_watch_def Let_def update_events_for_watch_fd_def call_epoll_def)
  have "bus_reachable (b, l)" using demo_bus_reachable unfolding bl .
  moreover have "\<exists>w \<in> set (watches l). watch_fd (the_watch b w) = 10"
    by (auto simp: l demo_bus_def)
  moreover have "(10 :: int) \<noteq> wake_up_fd l \<and> 10 \<notin> timer_fds l" by (simp add: l timer_fds_def)
  ultimately show ?thesis
    using epoll_set_exact[OF \<open>bus_reachable (b, l)\<close>, of 10] l(1)
    by (intro exI[of _ b] exI[of _ l]) simp
qed

section \<open>Flags and times\<close>

text \<open>
  What epoll reports of a watch is told to libdbus as it asked for it: the events registered for
  an enabled watch translate back to the readable and writable bits of its flags plus hang-up and
  error, which are always reported, and nothing else; a disabled watch is registered for nothing. A
  timer's setting has the same length as the timeout's interval, with less than a second of
  nanoseconds.
\<close>

theorem flags_and_times_translate:
  "epoll_events_to_dbus_flags (dbus_flags_to_epoll_events w) =
     (if watch_enabled w
      then (watch_flags w AND (DBUS_WATCH_READABLE OR DBUS_WATCH_WRITABLE)) OR
        DBUS_WATCH_HANGUP OR DBUS_WATCH_ERROR
      else 0) \<and>
   (case msec_to_timespec msec of (sec, nsec) \<Rightarrow>
      sec * 1000000000 + nsec = msec * 1000000 \<and> \<bar>nsec\<bar> < 1000000000)"
proof
  have b0: "x AND 1 = 0 \<longleftrightarrow> \<not> bit x 0" for x :: "32 word"
    using and_exp_eq_0_iff_not_bit[of x 0] by simp
  have b1: "x AND 2 = 0 \<longleftrightarrow> \<not> bit x 1" for x :: "32 word"
    using and_exp_eq_0_iff_not_bit[of x 1] by simp
  have low: "x AND 3 = (if bit x 0 then 1 else 0) OR (if bit x 1 then 2 else 0)" for x :: "32 word"
  proof -
    have "x AND mask 2 = (if bit x 0 then 1 else 0) OR (if bit x 1 then 2 else 0)"
      by (rule bit_word_eqI) (auto simp: bit_simps less_2_cases_iff bit_2_iff bit_1_iff intro!: gr0I)
    then show ?thesis by (simp add: mask_eq_exp_minus_1)
  qed
  show "epoll_events_to_dbus_flags (dbus_flags_to_epoll_events w) =
     (if watch_enabled w
      then (watch_flags w AND (DBUS_WATCH_READABLE OR DBUS_WATCH_WRITABLE)) OR
        DBUS_WATCH_HANGUP OR DBUS_WATCH_ERROR
      else 0)"
    unfolding epoll_events_to_dbus_flags_def dbus_flags_to_epoll_events_def Let_def
      EPOLLIN_def EPOLLOUT_def EPOLLHUP_def EPOLLERR_def DBUS_WATCH_READABLE_def
      DBUS_WATCH_WRITABLE_def DBUS_WATCH_HANGUP_def DBUS_WATCH_ERROR_def b0 b1
    by (simp add: low b0 b1 del: and_exp_eq_0_iff_not_bit)
next
  have "msec - sgn msec * (\<bar>msec\<bar> div 1000) * 1000 = sgn msec * (\<bar>msec\<bar> mod 1000)"
  proof (cases "0 \<le> msec")
    case True
    then have "msec - msec div 1000 * 1000 = msec mod 1000"
      by (simp add: minus_div_mult_eq_mod)
    with True show ?thesis by (cases "msec = 0") (simp_all add: sgn_if)
  next
    case False
    then have "msec + - msec div 1000 * 1000 = - (- msec mod 1000)"
      using minus_div_mult_eq_mod[of "- msec" 1000] by linarith
    with False show ?thesis by (simp add: sgn_if abs_if)
  qed
  moreover have "\<bar>sgn msec * (\<bar>msec\<bar> mod 1000)\<bar> < 1000"
    by (simp add: sgn_if)
  ultimately have r: "\<bar>msec - sgn msec * (\<bar>msec\<bar> div 1000) * 1000\<bar> < 1000" by simp
  have "q * 1000000000 + (msec - q * 1000) * 1000000 = msec * 1000000" for q by simp
  moreover have "\<bar>r * 1000000\<bar> < 1000000000" if "\<bar>r\<bar> < 1000" for r :: int
    using that by linarith
  ultimately show "case msec_to_timespec msec of (sec, nsec) \<Rightarrow>
      sec * 1000000000 + nsec = msec * 1000000 \<and> \<bar>nsec\<bar> < 1000000000"
    using r unfolding msec_to_timespec_def Let_def prod.case by blast
qed

end
