(* ===== verification/Dbus_Handles.thy ===== *)
theory Dbus_Handles
  imports Dbus_Types Screen_Event_Handler
begin

text \<open>
  The RAII handles over libdbus (\<open>src/dbus_message_handle.{h,cpp}\<close>,
  \<open>src/dbus_connection_handle.{h,cpp}\<close>, \<open>src/scoped_dbus_error.h\<close>) and the two sinks that turn input
  events into signals (\<open>src/unity_power_button_event_sink.cpp\<close>,
  \<open>src/unity_user_activity_event_sink.cpp\<close>). What libdbus answers is an argument; the calls made on
  it are recorded.
\<close>

section \<open>Message handles\<close>

text \<open>A handle owns the reference to a message it was built from, or nothing. The state counts how
  often each message was unreferenced.\<close>

type_synonym message_handle = "nat option"

type_synonym unrefs = "nat \<Rightarrow> nat"

definition message_unref :: "nat \<Rightarrow> unrefs \<Rightarrow> unrefs" where
  "message_unref m u = u(m := u m + 1)"

definition new_message_handle :: "nat option \<Rightarrow> message_handle" where
  "new_message_handle msg = msg"

text \<open>The two constructors with arguments: \<open>appended\<close> is the answer of
  \<open>dbus_message_append_args_valist\<close>. The state after an exception is kept.\<close>

definition new_message_handle_with_args ::
  "nat option \<Rightarrow> bool \<Rightarrow> unrefs \<Rightarrow> message_handle res \<times> unrefs" where
  "new_message_handle_with_args msg appended u =
     (case msg of
        None \<Rightarrow> (Inl (RuntimeError ''Invalid dbus message''), u)
      | Some m \<Rightarrow>
          if \<not> appended then
            (Inl (RuntimeError ''dbus_message_append_args_valist: Failed to append args''),
             message_unref m u)
          else (Inr (Some m), u))"

text \<open>The move constructor: the new handle and what is left of the other.\<close>

definition move_message_handle :: "message_handle \<Rightarrow> message_handle \<times> message_handle" where
  "move_message_handle other = (other, None)"

definition destroy_message_handle :: "message_handle \<Rightarrow> unrefs \<Rightarrow> unrefs" where
  "destroy_message_handle h u = (case h of None \<Rightarrow> u | Some m \<Rightarrow> message_unref m u)"

definition message_of_handle :: "message_handle \<Rightarrow> nat option" where
  "message_of_handle h = h"

definition handle_is_set :: "message_handle \<Rightarrow> bool" where
  "handle_is_set h \<longleftrightarrow> h \<noteq> None"

section \<open>Connection handles\<close>

text \<open>Answers of libdbus; an error is set together with its text.\<close>

record bus_answers =
  open_succeeds :: bool
  open_error :: "string option"
  register_error :: "string option"
  request_name_error :: "string option"
  primary_owner :: bool
  match_error :: "string option"
  filter_added :: bool
  is_connected :: bool

datatype connection_call =
    OpenPrivate string | BusRegister | RequestName string | AddMatch string | AddFilter
  | CloseConnection | UnrefConnection

text \<open>\<open>ScopedDBusError\<close>: whether an error is set, and its text.\<close>

definition error_is_set :: "string option \<Rightarrow> bool" where
  "error_is_set e \<longleftrightarrow> e \<noteq> None"

definition message_str :: "string option \<Rightarrow> string res" where
  "message_str e = deref e"

definition throw_with :: "string \<Rightarrow> string option \<Rightarrow> fault" where
  "throw_with what e =
     (case message_str e of Inl f \<Rightarrow> f | Inr t \<Rightarrow> RuntimeError (what @ t))"

text \<open>The operations return the calls made so far and the exception thrown, if any. The constructor
  that throws after the connection was opened leaves it open: no destructor runs.\<close>

definition new_connection_handle :: "bus_answers \<Rightarrow> string \<Rightarrow> connection_call list outcome" where
  "new_connection_handle ans address =
     (let cs = [OpenPrivate address]
      in if \<not> open_succeeds ans \<or> error_is_set (open_error ans) then
           (cs, Some (throw_with ''dbus_connection_open: '' (open_error ans)))
         else
           let cs = cs @ [BusRegister]
           in if register_error ans \<noteq> None then
                (cs, Some (throw_with ''dbus_bus_register: '' (register_error ans)))
              else (cs, None))"

definition destroy_connection_handle :: "bus_answers \<Rightarrow> connection_call list \<Rightarrow> connection_call list"
  where
  "destroy_connection_handle ans cs =
     cs @ (if is_connected ans then [CloseConnection] else []) @ [UnrefConnection]"

definition request_name ::
  "bus_answers \<Rightarrow> string \<Rightarrow> connection_call list \<Rightarrow> connection_call list outcome" where
  "request_name ans name cs =
     (let cs = cs @ [RequestName name]
      in if error_is_set (request_name_error ans) then
           (cs, Some (throw_with ''dbus_request_name: '' (request_name_error ans)))
         else if \<not> primary_owner ans then
           (cs, Some (RuntimeError ''dbus_request_name: Failed to become primary owner''))
         else (cs, None))"

definition add_match ::
  "bus_answers \<Rightarrow> string \<Rightarrow> connection_call list \<Rightarrow> connection_call list outcome" where
  "add_match ans rule cs =
     (let cs = cs @ [AddMatch rule]
      in if error_is_set (match_error ans) then
           (cs, Some (throw_with ''dbus_add_match: '' (match_error ans)))
         else (cs, None))"

definition add_filter :: "bus_answers \<Rightarrow> connection_call list \<Rightarrow> connection_call list outcome" where
  "add_filter ans cs =
     (let cs = cs @ [AddFilter]
      in if \<not> filter_added ans then
           (cs, Some (RuntimeError ''dbus_connection_add_filter: Failed to add filter''))
         else (cs, None))"

section \<open>Event sinks\<close>

datatype unity_user_activity_type = ChangingPowerState | ExtendingPowerState

fun activity_value :: "unity_user_activity_type \<Rightarrow> int" where
  "activity_value ChangingPowerState = 0"
| "activity_value ExtendingPowerState = 1"

definition notify_press :: "unit bus_message list \<Rightarrow> unit bus_message list" where
  "notify_press sent =
     sent @ [Signal ''/com/canonical/Unity/PowerButton'' ''com.canonical.Unity.PowerButton'' ''Press'' []]"

definition notify_release :: "unit bus_message list \<Rightarrow> unit bus_message list" where
  "notify_release sent =
     sent @ [Signal ''/com/canonical/Unity/PowerButton'' ''com.canonical.Unity.PowerButton'' ''Release'' []]"

definition notify_changing :: "unit bus_message list \<Rightarrow> unit bus_message list" where
  "notify_changing sent =
     sent @ [Signal ''/com/canonical/Unity/UserActivity'' ''com.canonical.Unity.UserActivity''
       ''Activity'' [DbusInt32 (activity_value ChangingPowerState)]]"

definition notify_extending :: "unit bus_message list \<Rightarrow> unit bus_message list" where
  "notify_extending sent =
     sent @ [Signal ''/com/canonical/Unity/UserActivity'' ''com.canonical.Unity.UserActivity''
       ''Activity'' [DbusInt32 (activity_value ExtendingPowerState)]]"

definition new_power_button_event_sink :: "bus_answers \<Rightarrow> string \<Rightarrow> connection_call list outcome"
  where
  "new_power_button_event_sink ans address =
     then_do (new_connection_handle ans address) (request_name ans ''com.canonical.Unity.PowerButton'')"

definition new_user_activity_event_sink :: "bus_answers \<Rightarrow> string \<Rightarrow> connection_call list outcome"
  where
  "new_user_activity_event_sink ans address =
     then_do (new_connection_handle ans address) (request_name ans ''com.canonical.Unity.UserActivity'')"

text \<open>The signals a handler's sink calls become.\<close>

definition signals_for :: "screen_event_handler \<Rightarrow> unit bus_message list" where
  "signals_for h =
     fold (\<lambda>(c, n). case c of
         NotifyPress \<Rightarrow> notify_press
       | NotifyRelease \<Rightarrow> notify_release
       | NotifyChanging \<Rightarrow> notify_changing
       | NotifyExtending \<Rightarrow> notify_extending) (sink_calls h) []"

section \<open>Every message is released once\<close>

text \<open>
  A program over handles: the handles alive by name, the messages libdbus created (each with one
  reference, none created twice) and the releases.
\<close>

record handle_store =
  handles :: "nat \<Rightarrow> message_handle option"
  created :: "nat set"
  unreferenced :: unrefs

datatype handle_op =
    Create nat nat
  | CreateWithArgs nat nat bool
  | Move nat nat
  | Destroy nat

text \<open>A name is used for one handle at a time and a message is new when it is created.\<close>

fun handle_op_ok :: "handle_store \<Rightarrow> handle_op \<Rightarrow> bool" where
  "handle_op_ok s (Create h m) \<longleftrightarrow> handles s h = None \<and> m \<notin> created s"
| "handle_op_ok s (CreateWithArgs h m appended) \<longleftrightarrow> handles s h = None \<and> m \<notin> created s"
| "handle_op_ok s (Move h g) \<longleftrightarrow> handles s h = None \<and> handles s g \<noteq> None"
| "handle_op_ok s (Destroy h) \<longleftrightarrow> handles s h \<noteq> None"

fun handle_step :: "handle_op \<Rightarrow> handle_store \<Rightarrow> handle_store" where
  "handle_step (Create h m) s =
     s\<lparr>handles := (handles s)(h := Some (new_message_handle (Some m))), created := insert m (created s)\<rparr>"
| "handle_step (CreateWithArgs h m appended) s =
     (let (r, u) = new_message_handle_with_args (Some m) appended (unreferenced s);
          s1 = s\<lparr>created := insert m (created s), unreferenced := u\<rparr>
      in case r of Inl e \<Rightarrow> s1 | Inr nh \<Rightarrow> s1\<lparr>handles := (handles s1)(h := Some nh)\<rparr>)"
| "handle_step (Move h g) s =
     (let (new, old) = move_message_handle (the (handles s g))
      in s\<lparr>handles := (handles s)(h := Some new, g := Some old)\<rparr>)"
| "handle_step (Destroy h) s =
     s\<lparr>handles := (handles s)(h := None),
       unreferenced := destroy_message_handle (the (handles s h)) (unreferenced s)\<rparr>"

inductive handle_run :: "handle_store \<Rightarrow> bool" where
  run_empty: "handle_run \<lparr>handles = (\<lambda>_. None), created = {}, unreferenced = (\<lambda>_. 0)\<rparr>"
| run_step: "handle_run s \<Longrightarrow> handle_op_ok s op \<Longrightarrow> handle_run (handle_step op s)"

definition owners :: "(nat \<Rightarrow> message_handle option) \<Rightarrow> nat \<Rightarrow> nat set" where
  "owners hs m = {h. hs h = Some (Some m)}"

definition released_once :: "handle_store \<Rightarrow> bool" where
  "released_once s \<longleftrightarrow>
     (\<forall>m. (m \<notin> created s \<longrightarrow> owners (handles s) m = {} \<and> unreferenced s m = 0) \<and>
          (m \<in> created s \<longrightarrow> (unreferenced s m = 0 \<and> (\<exists>h. owners (handles s) m = {h})) \<or>
             (unreferenced s m = 1 \<and> owners (handles s) m = {})))"

lemma owners_upd:
  "owners (hs(h := x)) m =
     (if x = Some (Some m) then insert h (owners hs m) else owners hs m - {h})"
  by (auto simp: owners_def)

lemma released_once_owner:
  assumes "released_once s" and "h \<in> owners (handles s) m"
  shows "m \<in> created s \<and> unreferenced s m = 0 \<and> owners (handles s) m = {h}"
proof -
  have "m \<in> created s \<and> unreferenced s m = 0 \<and> (\<exists>k. owners (handles s) m = {k})"
    using assms unfolding released_once_def by blast
  with assms(2) show ?thesis by auto
qed

lemma released_once_step:
  assumes inv: "released_once s" and ok: "handle_op_ok s op"
  shows "released_once (handle_step op s)"
proof (cases op)
  case (Create h m)
  have "h \<notin> owners (handles s) k" for k using ok Create by (auto simp: owners_def)
  then show ?thesis
    using inv ok Create by (auto simp: released_once_def owners_upd new_message_handle_def)
next
  case (CreateWithArgs h m appended)
  have "h \<notin> owners (handles s) k" for k using ok CreateWithArgs by (auto simp: owners_def)
  then show ?thesis
    using inv ok CreateWithArgs
    by (cases appended) (auto simp: released_once_def owners_upd new_message_handle_with_args_def
        message_unref_def Let_def)
next
  case (Move h g)
  obtain x where g: "handles s g = Some x" using ok Move by auto
  have h: "handles s h = None" using ok Move by simp
  have "owners (handles (handle_step (Move h g) s)) m =
      (if x = Some m then insert h (owners (handles s) m - {g}) else owners (handles s) m)" for m
    using g h by (auto simp: owners_def move_message_handle_def)
  moreover have "x = Some m \<longleftrightarrow> g \<in> owners (handles s) m" for m using g by (auto simp: owners_def)
  moreover note one = released_once_owner[OF inv, of g]
  ultimately have "owners (handles (handle_step (Move h g) s)) m =
      (if g \<in> owners (handles s) m then {h} else owners (handles s) m)" for m
    by auto
  moreover have "created (handle_step (Move h g) s) = created s"
    "unreferenced (handle_step (Move h g) s) = unreferenced s"
    by (simp_all add: move_message_handle_def)
  ultimately show ?thesis
    using inv one unfolding released_once_def Move by (simp del: handle_step.simps)
next
  case (Destroy h)
  obtain x where h: "handles s h = Some x" using ok Destroy by auto
  show ?thesis
  proof (cases x)
    case None
    then have "owners ((handles s)(h := None)) m = owners (handles s) m" for m
      using h by (auto simp: owners_def)
    with None show ?thesis
      using inv h Destroy unfolding released_once_def by (simp add: destroy_message_handle_def)
  next
    case (Some k)
    then have own: "h \<in> owners (handles s) k" using h by (simp add: owners_def)
    note k = released_once_owner[OF inv own]
    have "owners ((handles s)(h := None)) m = (if m = k then {} else owners (handles s) m)" for m
      using k h Some by (auto simp: owners_def)
    with k Some show ?thesis
      using inv h Destroy unfolding released_once_def
      by (simp add: destroy_message_handle_def message_unref_def)
  qed
qed

lemma released_once_run: "handle_run s \<Longrightarrow> released_once s"
proof (induction rule: handle_run.induct)
  case run_empty
  then show ?case by (simp add: released_once_def owners_def)
qed (rule released_once_step)

text \<open>
  C15. However message handles are built (with arguments or without, successfully or not), moved and
  destroyed, every message is released at most once, is not released while a handle still gives it
  out, is never owned by two handles, and has been released exactly once when no handle is left.
\<close>

theorem messages_released_exactly_once:
  assumes "handle_run s"
  shows "(\<forall>m. unreferenced s m \<le> 1) \<and>
    (\<forall>h hd m. handles s h = Some hd \<and> message_of_handle hd = Some m \<longrightarrow>
       unreferenced s m = 0 \<and> (\<forall>h'. handles s h' = Some hd \<longrightarrow> h' = h)) \<and>
    ((\<forall>h. handles s h = None) \<longrightarrow> (\<forall>m \<in> created s. unreferenced s m = 1))"
proof (intro conjI allI impI ballI)
  note inv = released_once_run[OF assms, unfolded released_once_def, rule_format]
  show "unreferenced s m \<le> 1" for m using inv[of m] by (cases "m \<in> created s") auto
  fix h hd m
  assume "handles s h = Some hd \<and> message_of_handle hd = Some m"
  then have h: "handles s h = Some hd" and hd: "hd = Some m" and own: "h \<in> owners (handles s) m"
    by (auto simp: message_of_handle_def owners_def)
  from own inv[of m] have one: "unreferenced s m = 0 \<and> (\<exists>k. owners (handles s) m = {k})"
    by (cases "m \<in> created s") auto
  then show "unreferenced s m = 0" by simp
  show "h' = h" if "handles s h' = Some hd" for h'
  proof -
    have "h' \<in> owners (handles s) m" using that hd by (simp add: owners_def)
    with own one show ?thesis by auto
  qed
next
  note inv = released_once_run[OF assms, unfolded released_once_def, rule_format]
  fix m
  assume "\<forall>h. handles s h = None" and m: "m \<in> created s"
  then have "owners (handles s) m = {}" by (simp add: owners_def)
  with inv[of m] m show "unreferenced s m = 1" by auto
qed

theorem messages_released_exactly_once_witness:
  "\<exists>s. handle_run s \<and> created s = {5} \<and> unreferenced s 5 = 1"
proof -
  let ?s0 = "\<lparr>handles = (\<lambda>_. None), created = {}, unreferenced = (\<lambda>_. 0)\<rparr> :: handle_store"
  let ?ops = "[CreateWithArgs 1 5 True, Move 2 1, Destroy 1, Destroy 2]"
  have "handle_run (handle_step (CreateWithArgs 1 5 True) ?s0)"
    by (intro run_step run_empty) simp
  then have "handle_run (handle_step (Move 2 1) (handle_step (CreateWithArgs 1 5 True) ?s0))"
    by (rule run_step) (simp add: new_message_handle_with_args_def)
  then have "handle_run (handle_step (Destroy 1)
      (handle_step (Move 2 1) (handle_step (CreateWithArgs 1 5 True) ?s0)))"
    by (rule run_step) (simp add: new_message_handle_with_args_def move_message_handle_def)
  then have "handle_run (handle_step (Destroy 2) (handle_step (Destroy 1)
      (handle_step (Move 2 1) (handle_step (CreateWithArgs 1 5 True) ?s0))))"
    by (rule run_step) (simp add: new_message_handle_with_args_def move_message_handle_def)
  then have run: "handle_run (fold handle_step ?ops ?s0)" by (simp only: fold_simps)
  have "handles (fold handle_step ?ops ?s0) h = None" for h
    by (simp add: new_message_handle_with_args_def move_message_handle_def)
  moreover have "created (fold handle_step ?ops ?s0) = {5}"
    by (simp add: new_message_handle_with_args_def move_message_handle_def)
  ultimately show ?thesis using messages_released_exactly_once[OF run] run by blast
qed

end
