(* ===== verification/Compositor_System.thy ===== *)
theory Compositor_System
  imports Switcher_Runs Display_Service Dbus_Handles Event_Loop_Props
begin

text \<open>
  The parts put together as \<open>src/server.cpp\<close> does: the session switcher and the display service both
  listen to the screen, the service through the D-Bus event loop's queue. The screen's listeners are
  the state \<open>world\<close> of the switcher and the loop; the display service holds the screen. Each step is
  one entry point run to its end, as the components' locks make it; \<open>Loop_Thread\<close> splits the turns
  of the loop, which holds no lock while it performs its actions.
\<close>

section \<open>The listeners\<close>

text \<open>The loop's actions are the counts to publish, which is what the closures queued capture;
  \<open>os_of\<close> is what the operating system will answer when the spinner is started.\<close>

record world =
  switcher_of :: switcher
  loop_of :: "active_outputs event_loop"
  os_of :: spinner_os

definition switcher_handler :: "world ao_handler" where
  "switcher_handler ao w =
     (case active_outputs_handler (os_of w) ao (switcher_of w) of
        Inl e \<Rightarrow> (w, Some e)
      | Inr s \<Rightarrow> (w\<lparr>switcher_of := s\<rparr>, None))"

definition service_handler :: "world ao_handler" where
  "service_handler ao w = (w\<lparr>loop_of := enqueue ao (loop_of w)\<rparr>, None)"

text \<open>\<open>SessionSwitcher::set_screen\<close> and \<open>~SessionSwitcher\<close>: \<open>locked\<close> says that \<open>screen_weak\<close> already
  is this screen.\<close>

definition set_screen :: "nat \<Rightarrow> bool \<Rightarrow> world mir_screen \<Rightarrow> world mir_screen outcome" where
  "set_screen key locked scr =
     (let scr1 = (if locked then unregister_active_outputs_handler key scr else scr)
      in register_active_outputs_handler key switcher_handler scr1)"

definition destroy_switcher :: "nat \<Rightarrow> bool \<Rightarrow> world mir_screen \<Rightarrow> world mir_screen" where
  "destroy_switcher key locked scr =
     (if locked then unregister_active_outputs_handler key scr else scr)"

text \<open>\<open>Server::the_screen\<close>: the screen is built and handed to the switcher.\<close>

definition the_screen :: "mir_env \<Rightarrow> nat \<Rightarrow> world \<Rightarrow> world mir_screen outcome" where
  "the_screen env key w = then_do (new_mir_screen env w) (set_screen key False)"

text \<open>The constructor of the display service, with connection \<open>c\<close>; an exception of one of its steps
  ends the start-up.\<close>

definition new_display_service ::
  "bus_answers \<Rightarrow> string \<Rightarrow> nat \<Rightarrow> nat \<Rightarrow> world mir_screen \<Rightarrow> ('m, world) display_service res" where
  "new_display_service ans address c key scr =
     (case new_connection_handle ans address of
        (cs, Some e) \<Rightarrow> Inl e
      | (cs, None) \<Rightarrow>
          bind_res (add_connection c (loop_of (listeners scr))) (\<lambda>l.
          case then_do (request_name ans ''com.canonical.Unity.Display'' cs) (add_filter ans) of
            (cs2, Some e) \<Rightarrow> Inl e
          | (cs2, None) \<Rightarrow>
              let scr1 = scr\<lparr>listeners := (listeners scr)\<lparr>loop_of := l\<rparr>\<rparr>
              in case register_active_outputs_handler key service_handler scr1 of
                   (scr2, Some e) \<Rightarrow> Inl e
                 | (scr2, None) \<Rightarrow>
                     Inr \<lparr>service_screen = scr2, service_active_outputs = no_active_outputs,
                          service_messages = []\<rparr>))"

text \<open>\<open>~UnityDisplayService\<close>.\<close>

definition destroy_display_service ::
  "nat \<Rightarrow> ('m, world) display_service \<Rightarrow> world mir_screen" where
  "destroy_display_service key sys = unregister_active_outputs_handler key (service_screen sys)"

section \<open>Steps\<close>

type_synonym 'm system = "('m, world) display_service"

definition world_of :: "'m system \<Rightarrow> world" where
  "world_of sys = listeners (service_screen sys)"

definition set_world :: "world \<Rightarrow> 'm system \<Rightarrow> 'm system" where
  "set_world w sys = sys\<lparr>service_screen := (service_screen sys)\<lparr>listeners := w\<rparr>\<rparr>"

text \<open>
  A session operation comes from the display manager or the window manager; a message arrives at the
  service; Mir reports a change of the display configuration (a hotplug, say); the loop performs what is queued.
\<close>

datatype 'm system_event =
    SessionEvent switcher_op
  | BusMessage mir_env 'm
  | DisplayObserved observer_event
  | LoopActions

definition perform_actions :: "'m system \<Rightarrow> 'm system" where
  "perform_actions sys =
     (let w = world_of sys; as = actions (loop_of w)
      in fold active_outputs_action as (set_world (w\<lparr>loop_of := dispatch_actions (loop_of w)\<rparr>) sys))"

fun handle_event ::
  "('m, 'd) libdbus \<Rightarrow> string \<Rightarrow> 'm system_event \<Rightarrow> 'm system \<Rightarrow> 'm system outcome" where
  "handle_event lib introspection (SessionEvent op) sys =
     (let w = world_of sys
      in case switcher_step (os_of w, op) (switcher_of w) of
           Inl e \<Rightarrow> (sys, Some e)
         | Inr s \<Rightarrow> (set_world (w\<lparr>switcher_of := s\<rparr>) sys, None))"
| "handle_event lib introspection (BusMessage env m) sys =
     handle_dbus_message lib introspection env m sys"
| "handle_event lib introspection (DisplayObserved oe) sys =
     on_screen (observe oe) sys"
| "handle_event lib introspection LoopActions sys = (perform_actions sys, None)"

text \<open>An exception out of an entry point ends the process.\<close>

definition system_step ::
  "('m, 'd) libdbus \<Rightarrow> string \<Rightarrow> spinner_os \<times> 'm system_event \<Rightarrow> 'm system \<Rightarrow> 'm system res" where
  "system_step lib introspection x sys =
     (case x of (os, ev) \<Rightarrow>
        (case handle_event lib introspection ev (set_world ((world_of sys)\<lparr>os_of := os\<rparr>) sys) of
           (sys', None) \<Rightarrow> Inr sys'
         | (sys', Some e) \<Rightarrow> Inl e))"

definition run_system ::
  "('m, 'd) libdbus \<Rightarrow> string \<Rightarrow> (spinner_os \<times> 'm system_event) list \<Rightarrow> 'm system \<Rightarrow> 'm system res"
  where
  "run_system lib introspection evs sys = for_each (system_step lib introspection) evs sys"

section \<open>The invariant\<close>

definition listening :: "nat \<Rightarrow> nat \<Rightarrow> (nat, world ao_handler) std_map" where
  "listening ks kd = assign_key kd service_handler (assign_key ks switcher_handler [])"

definition signals_sent :: "'m bus_message list \<Rightarrow> 'm bus_message list" where
  "signals_sent ms = filter (\<lambda>m. case m of Signal p i n vs \<Rightarrow> True | _ \<Rightarrow> False) ms"

definition system_inv :: "nat \<Rightarrow> nat \<Rightarrow> 'm system \<Rightarrow> bool" where
  "system_inv ks kd sys \<longleftrightarrow>
     (let scr = service_screen sys; w = world_of sys
      in switcher_wf (switcher_of w) \<and>
         active_outputs_handlers scr = listening ks kd \<and>
         has_active_outputs (switcher_of w) = any_active (active_outputs scr) \<and>
         service_active_outputs sys = last (no_active_outputs # performed (loop_of w)) \<and>
         last (service_active_outputs sys # actions (loop_of w)) = active_outputs scr \<and>
         signals_sent (service_messages sys) = map outputs_signal (performed (loop_of w)))"

section \<open>Steps keep it\<close>

lemma both_listen:
  assumes "ks \<noteq> kd" and "switcher_wf (switcher_of (listeners scr))"
    and "fork_result (os_of (listeners scr)) \<noteq> 0"
  shows "\<exists>s'. active_outputs_handler (os_of (listeners scr)) ao (switcher_of (listeners scr)) = Inr s' \<and>
    switcher_wf s' \<and>
    each_do (\<lambda>(k, h). call_handler ao h) (listening ks kd) scr =
      (scr\<lparr>listeners := (listeners scr)\<lparr>switcher_of := s', loop_of := enqueue ao (loop_of (listeners scr))\<rparr>\<rparr>, None)"
proof -
  obtain s' where s': "active_outputs_handler (os_of (listeners scr)) ao (switcher_of (listeners scr)) = Inr s'"
    "switcher_wf s'"
    using switcher.step_returns[OF assms(2), of "(os_of (listeners scr), ActiveOutputsChanged ao)"] assms(3)
    by auto
  then show ?thesis
    using assms(1)
    by (cases "ks < kd")
      (simp_all add: listening_def call_handler_def switcher_handler_def service_handler_def Let_def)
qed

lemma has_active_handler:
  "active_outputs_handler os ao s = Inr s' \<Longrightarrow> switcher_wf s \<Longrightarrow> fork_result os \<noteq> 0 \<Longrightarrow>
   has_active_outputs s' = any_active ao"
proof -
  assume h: "active_outputs_handler os ao s = Inr s'" and "switcher_wf s" "fork_result os \<noteq> 0"
  then have "switcher_wf (s\<lparr>has_active_outputs := any_active ao\<rparr>)" by simp
  then obtain sp where "update_displayed_sessions os (s\<lparr>has_active_outputs := any_active ao\<rparr>) =
      Inr (planned_state sp (s\<lparr>has_active_outputs := any_active ao\<rparr>))"
    using update_returns[of _ os] \<open>fork_result os \<noteq> 0\<close> by blast
  with h show ?thesis by (auto simp: active_outputs_handler_def planned_state_def)
qed

lemma performed_enqueue: "performed (enqueue a l) = performed l"
  by (simp add: performed_def enqueue_def push_action_def wake_up_loop_def)

lemma applied_effect:
  assumes "active_outputs_handlers scr = listening ks kd" "ks \<noteq> kd"
    and "switcher_wf (switcher_of (listeners scr))" "fork_result (os_of (listeners scr)) \<noteq> 0"
  shows "\<exists>s'. active_outputs_handler (os_of (listeners scr)) (count_active_outputs cfg)
      (switcher_of (listeners scr)) = Inr s' \<and> switcher_wf s' \<and>
    configuration_applied cfg scr =
      (scr\<lparr>active_outputs := count_active_outputs cfg,
         listeners := (listeners scr)\<lparr>switcher_of := s',
           loop_of := enqueue (count_active_outputs cfg) (loop_of (listeners scr))\<rparr>\<rparr>, None)"
  using both_listen[OF \<open>ks \<noteq> kd\<close>, of "scr\<lparr>active_outputs := count_active_outputs cfg\<rparr>"
      "count_active_outputs cfg"] assms
  by (auto simp: configuration_applied_def Let_def)

lemma configured_effect:
  assumes inv: "system_inv ks kd sys" and "ks \<noteq> kd" and os: "fork_result (os_of (world_of sys)) \<noteq> 0"
  shows "\<exists>s'. active_outputs_handler (os_of (world_of sys)) (count_active_outputs cfg)
      (switcher_of (world_of sys)) = Inr s' \<and> switcher_wf s' \<and>
    configuration_applied cfg (service_screen sys) =
      ((service_screen sys)\<lparr>active_outputs := count_active_outputs cfg,
         listeners := (world_of sys)\<lparr>switcher_of := s',
           loop_of := enqueue (count_active_outputs cfg) (loop_of (world_of sys))\<rparr>\<rparr>, None)"
proof -
  have "active_outputs_handlers (service_screen sys) = listening ks kd"
    "switcher_wf (switcher_of (listeners (service_screen sys)))"
    using inv by (simp_all add: system_inv_def world_of_def Let_def)
  from applied_effect[OF this(1) \<open>ks \<noteq> kd\<close> this(2) os[unfolded world_of_def]]
  show ?thesis unfolding world_of_def .
qed

lemma configured_inv:
  assumes inv: "system_inv ks kd sys" and "ks \<noteq> kd" and os: "fork_result (os_of (world_of sys)) \<noteq> 0"
  shows "snd (configuration_applied cfg (service_screen sys)) = None \<and>
    system_inv ks kd (sys\<lparr>service_screen := fst (configuration_applied cfg (service_screen sys))\<rparr>)"
proof -
  obtain s' where
    s': "active_outputs_handler (os_of (world_of sys)) (count_active_outputs cfg)
          (switcher_of (world_of sys)) = Inr s'" "switcher_wf s'"
      "configuration_applied cfg (service_screen sys) =
        ((service_screen sys)\<lparr>active_outputs := count_active_outputs cfg,
           listeners := (world_of sys)\<lparr>switcher_of := s',
             loop_of := enqueue (count_active_outputs cfg) (loop_of (world_of sys))\<rparr>\<rparr>, None)"
    using configured_effect[OF inv \<open>ks \<noteq> kd\<close> os] by blast
  have "has_active_outputs s' = any_active (count_active_outputs cfg)"
    using has_active_handler[OF s'(1)] inv os by (simp add: system_inv_def Let_def)
  then show ?thesis
    using inv s'(2,3) by (simp add: system_inv_def world_of_def Let_def performed_enqueue)
      (simp add: enqueue_def push_action_def wake_up_loop_def)
qed

text \<open>Either a call into Mir throws, and only calls are recorded, or the configuration is applied.\<close>

lemma set_power_mode_cases:
  "(\<exists>cs. set_power_mode env mode filt scr = (scr\<lparr>screen_calls := cs\<rparr>, None)) \<or>
   (\<exists>cs cfg. configuration env = Some cfg \<and> set_power_mode env mode filt scr =
      catch_std (log_exception_in ''set_power_mode'')
        (configuration_applied (apply_power_mode mode filt cfg) (scr\<lparr>screen_calls := cs\<rparr>)))"
  by (cases "configuration env"; cases "stop_returns env"; cases "configure_returns env";
      cases "start_returns env")
    (auto simp: set_power_mode_def call_mir_def log_exception_in_def Let_def)

lemma inv_screen_calls:
  "system_inv ks kd sys \<Longrightarrow>
   system_inv ks kd (sys\<lparr>service_screen := (service_screen sys)\<lparr>screen_calls := cs\<rparr>\<rparr>)"
  by (auto simp: system_inv_def world_of_def Let_def)

lemma set_power_mode_inv:
  assumes inv: "system_inv ks kd sys" and "ks \<noteq> kd" and "fork_result (os_of (world_of sys)) \<noteq> 0"
  shows "snd (set_power_mode env mode filt (service_screen sys)) = None \<and>
    system_inv ks kd (sys\<lparr>service_screen := fst (set_power_mode env mode filt (service_screen sys))\<rparr>)"
  using set_power_mode_cases[of env mode filt "service_screen sys"]
proof (elim disjE exE conjE)
  fix cs
  assume "set_power_mode env mode filt (service_screen sys) =
    ((service_screen sys)\<lparr>screen_calls := cs\<rparr>, None)"
  then show ?thesis using inv_screen_calls[OF inv] by simp
next
  fix cs cfg
  let ?cfg = "apply_power_mode mode filt cfg"
  assume run: "set_power_mode env mode filt (service_screen sys) =
    catch_std (log_exception_in ''set_power_mode'')
      (configuration_applied ?cfg ((service_screen sys)\<lparr>screen_calls := cs\<rparr>))"
  have "fork_result (os_of (world_of (sys\<lparr>service_screen := (service_screen sys)\<lparr>screen_calls := cs\<rparr>\<rparr>))) \<noteq> 0"
    using assms(3) by (simp add: world_of_def)
  from configured_inv[OF inv_screen_calls[OF inv] \<open>ks \<noteq> kd\<close> this, of ?cfg] run show ?thesis
    by (cases "configuration_applied ?cfg ((service_screen sys)\<lparr>screen_calls := cs\<rparr>)") auto
qed

lemma signals_sent_append [simp]:
  "signals_sent (ms @ ns) = signals_sent ms @ signals_sent ns"
  by (simp add: signals_sent_def)

lemma signals_sent_replies [simp]:
  "signals_sent [MethodReturn m vs] = []" "signals_sent [ErrorReply m n t] = []"
  "signals_sent [outputs_signal ao] = [outputs_signal ao]" "signals_sent [] = []"
  by (simp_all add: signals_sent_def outputs_signal_def)

text \<open>A message leads to replies and at most one switch of the outputs.\<close>

definition replies_and_switches ::
  "mir_env \<Rightarrow> ('m, 'w) display_service \<Rightarrow> ('m, 'w) display_service outcome \<Rightarrow> bool" where
  "replies_and_switches env sys r \<longleftrightarrow>
     (\<exists>scr msgs. r = (sys\<lparr>service_screen := scr, service_messages := service_messages sys @ msgs\<rparr>, None) \<and>
       signals_sent msgs = [] \<and>
       (scr = service_screen sys \<or> (\<exists>f. scr = fst (turn_on env f (service_screen sys))) \<or>
         (\<exists>f. scr = fst (turn_off env f (service_screen sys)))))"

lemma replies_and_switches_intros:
  "signals_sent msgs = [] \<Longrightarrow>
     replies_and_switches env sys (sys\<lparr>service_messages := service_messages sys @ msgs\<rparr>, None)"
  "replies_and_switches env sys (sys, None)"
  "signals_sent msgs = [] \<Longrightarrow> replies_and_switches env sys
     (sys\<lparr>service_screen := fst (turn_on env f (service_screen sys)),
          service_messages := service_messages sys @ msgs\<rparr>, None)"
  "signals_sent msgs = [] \<Longrightarrow> replies_and_switches env sys
     (sys\<lparr>service_screen := fst (turn_off env f (service_screen sys)),
          service_messages := service_messages sys @ msgs\<rparr>, None)"
proof -
  have same: "sys\<lparr>service_messages := ms\<rparr> =
      sys\<lparr>service_screen := service_screen sys, service_messages := ms\<rparr>" for ms
    by simp
  show "signals_sent msgs = [] \<Longrightarrow>
     replies_and_switches env sys (sys\<lparr>service_messages := service_messages sys @ msgs\<rparr>, None)"
    unfolding replies_and_switches_def same by blast
  show "replies_and_switches env sys (sys, None)"
    unfolding replies_and_switches_def
    by (intro exI[of _ "service_screen sys"] exI[of _ "[]"]) simp
qed (unfold replies_and_switches_def, blast+)

lemma signals_sent_two [simp]: "signals_sent [MethodReturn m vs, ErrorReply m' n t] = []"
  by (simp add: signals_sent_def)

lemma message_effect:
  assumes on: "\<And>f. snd (turn_on env f (service_screen sys)) = None"
    and off: "\<And>f. snd (turn_off env f (service_screen sys)) = None"
  shows "replies_and_switches env sys (handle_dbus_message lib introspection env m sys)"
proof -
  have eqs: "dbus_TurnOn env fs sys =
      (sys\<lparr>service_screen := fst (turn_on env (output_filter_from_string fs) (service_screen sys))\<rparr>, None)"
    "dbus_TurnOff env fs sys =
      (sys\<lparr>service_screen := fst (turn_off env (output_filter_from_string fs) (service_screen sys))\<rparr>, None)"
    for fs
    using on[of "output_filter_from_string fs"] off[of "output_filter_from_string fs"]
    by (simp_all add: dbus_TurnOn_def dbus_TurnOff_def on_screen_def case_prod_beta Let_def)
  show ?thesis
    unfolding handle_dbus_message_def Let_def send_message_def eqs
    by (cases "get_string_args lib 1 m"; cases "get_string_args lib 2 m")
      (simp_all add: replies_and_switches_intros)
qed

lemma session_keeps_outputs:
  assumes "switcher_wf s" "fork_result os \<noteq> 0" "switcher_step (os, op) s = Inr s'"
    and "\<forall>ao. op \<noteq> ActiveOutputsChanged ao"
  shows "has_active_outputs s' = has_active_outputs s"
proof (cases "prepared op s")
  case None
  with assms(3) show ?thesis by (simp add: step_prepared)
next
  case (Some t)
  then have t: "switcher_wf t" using prepared_wf assms(1) by blast
  obtain sp where "update_displayed_sessions os t = Inr (planned_state sp t)"
    using update_returns[OF t assms(2)] by blast
  with assms(3) Some have "s' = planned_state sp t" by (simp add: step_prepared)
  moreover have "has_active_outputs t = has_active_outputs s"
    using Some assms(4) by (cases op) (auto simp: Let_def split: option.splits if_splits)
  ultimately show ?thesis by (simp add: planned_state_def)
qed

lemma fold_actions:
  "service_screen (fold active_outputs_action as sys) = service_screen sys \<and>
   service_active_outputs (fold active_outputs_action as sys) = last (service_active_outputs sys # as) \<and>
   service_messages (fold active_outputs_action as sys) = service_messages sys @ map outputs_signal as"
  by (induction as arbitrary: sys) (auto simp: action_fields)

lemma signals_sent_map [simp]: "signals_sent (map outputs_signal as) = map outputs_signal as"
  by (simp add: signals_sent_def outputs_signal_def)

lemma actions_inv:
  assumes "system_inv ks kd sys"
  shows "system_inv ks kd (perform_actions sys)"
  using assms
  by (auto simp: system_inv_def perform_actions_def Let_def world_of_def set_world_def fold_actions
      performed_dispatch)

lemma set_os_inv:
  "system_inv ks kd sys \<Longrightarrow> system_inv ks kd (set_world ((world_of sys)\<lparr>os_of := os\<rparr>) sys)"
  by (auto simp: system_inv_def set_world_def world_of_def Let_def)

lemma inv_messages:
  "system_inv ks kd sys \<Longrightarrow> signals_sent msgs = [] \<Longrightarrow>
   system_inv ks kd (sys\<lparr>service_messages := service_messages sys @ msgs\<rparr>)"
  by (auto simp: system_inv_def world_of_def Let_def)

definition event_ok :: "spinner_os \<times> 'm system_event \<Rightarrow> bool" where
  "event_ok x \<longleftrightarrow> fork_result (fst x) \<noteq> 0 \<and>
     (case snd x of SessionEvent (ActiveOutputsChanged ao) \<Rightarrow> False | _ \<Rightarrow> True)"

definition system_wf :: "'m system \<Rightarrow> bool" where
  "system_wf sys \<longleftrightarrow> (\<exists>ks kd. ks \<noteq> kd \<and> system_inv ks kd sys)"

lemma event_inv:
  assumes inv: "system_inv ks kd sys" and "ks \<noteq> kd" and os: "fork_result (os_of (world_of sys)) \<noteq> 0"
    and ev: "event_ok (os_of (world_of sys), ev)"
  shows "\<exists>sys'. handle_event lib intro ev sys = (sys', None) \<and> system_inv ks kd sys'"
proof (cases ev)
  case (SessionEvent op)
  have wf: "switcher_wf (switcher_of (world_of sys))" using inv by (simp add: system_inv_def Let_def)
  then obtain s' where s': "switcher_step (os_of (world_of sys), op) (switcher_of (world_of sys)) = Inr s'"
    "switcher_wf s'"
    using switcher.step_returns[OF wf, of "(os_of (world_of sys), op)"] os by auto
  have "\<forall>ao. op \<noteq> ActiveOutputsChanged ao" using ev SessionEvent by (auto simp: event_ok_def)
  from session_keeps_outputs[OF wf os s'(1) this] s' inv show ?thesis
    by (auto simp: SessionEvent Let_def system_inv_def set_world_def world_of_def)
next
  case (BusMessage env m)
  have on: "snd (turn_on env f (service_screen sys)) = None"
      "system_inv ks kd (sys\<lparr>service_screen := fst (turn_on env f (service_screen sys))\<rparr>)"
    and off: "snd (turn_off env f (service_screen sys)) = None"
      "system_inv ks kd (sys\<lparr>service_screen := fst (turn_off env f (service_screen sys))\<rparr>)" for f
    using set_power_mode_inv[OF inv \<open>ks \<noteq> kd\<close> os] by (simp_all add: turn_on_def turn_off_def)
  obtain scr msgs where r: "handle_dbus_message lib intro env m sys =
      (sys\<lparr>service_screen := scr, service_messages := service_messages sys @ msgs\<rparr>, None)"
    "signals_sent msgs = []"
    "scr = service_screen sys \<or> (\<exists>f. scr = fst (turn_on env f (service_screen sys))) \<or>
      (\<exists>f. scr = fst (turn_off env f (service_screen sys)))"
    using message_effect[OF on(1) off(1), unfolded replies_and_switches_def] by blast
  have "system_inv ks kd (sys\<lparr>service_screen := scr\<rparr>)" using r(3) inv on(2) off(2) by auto
  from inv_messages[OF this r(2)] r(1) show ?thesis by (simp add: BusMessage)
next
  case (DisplayObserved oe)
  from observe_cases[of oe "service_screen sys"] show ?thesis
  proof (elim disjE exE)
    fix cfg
    assume "observe oe (service_screen sys) = configuration_applied cfg (service_screen sys)"
    with configured_inv[OF inv \<open>ks \<noteq> kd\<close> os, of cfg] DisplayObserved show ?thesis
      by (simp add: on_screen_def case_prod_beta Let_def)
  next
    assume "observe oe (service_screen sys) = (service_screen sys, None)"
    with inv DisplayObserved show ?thesis by (simp add: on_screen_def)
  qed
next
  case LoopActions
  with actions_inv[OF inv] show ?thesis by simp
qed

interpretation compositor: guarded_component "system_step lib intro" system_wf event_ok
  for lib :: "('m, 'd) libdbus" and "intro" :: string
proof unfold_locales
  fix sys :: "'m system" and x :: "spinner_os \<times> 'm system_event"
  assume "system_wf sys" and ok: "event_ok x"
  then obtain ks kd where k: "ks \<noteq> kd" "system_inv ks kd sys" by (auto simp: system_wf_def)
  obtain os ev where x: "x = (os, ev)" by force
  let ?sys = "set_world ((world_of sys)\<lparr>os_of := os\<rparr>) sys"
  have "os_of (world_of ?sys) = os" by (simp add: world_of_def set_world_def)
  then have "fork_result (os_of (world_of ?sys)) \<noteq> 0" "event_ok (os_of (world_of ?sys), ev)"
    using ok x by (simp_all add: event_ok_def)
  from event_inv[OF set_os_inv[OF k(2)] k(1) this, of lib "intro"]
  obtain sys' where "handle_event lib intro ev ?sys = (sys', None)" "system_inv ks kd sys'" by blast
  then show "\<exists>s'. system_step lib intro x sys = Inr s' \<and> system_wf s'"
    using k(1) unfolding system_step_def x system_wf_def by (intro exI[of _ sys']) auto
qed

end
