(* ===== verification/System_Props.thy ===== *)
theory System_Props
  imports Compositor_System Display_Props
begin

text \<open>
  Properties of the composed system, from start-up through any sequence of session operations, bus
  messages, display changes and turns of the event loop.
\<close>

section \<open>Start-up\<close>

lemma the_screen_steps:
  assumes "the_screen env ks w = (scr, None)"
  obtains scr0 where "set_screen ks False scr0 = (scr, None)" and "active_outputs_handlers scr0 = []"
    and "listeners scr0 = w"
proof -
  obtain scr0 where scr0: "new_mir_screen env w = (scr0, None)" "set_screen ks False scr0 = (scr, None)"
    using assms unfolding the_screen_def
    by (cases "new_mir_screen env w"; cases "snd (new_mir_screen env w)") auto
  then have "active_outputs_handlers scr0 = []" "listeners scr0 = w"
    by (auto simp: new_mir_screen_def call_mir_def log_exception_in_def Let_def
        split: if_splits option.splits)
  then show ?thesis using that scr0(2) by blast
qed

lemma new_service_steps:
  assumes service: "new_display_service ans address c kd scr = Inr sys"
  obtains l scr2 where "add_connection c (loop_of (listeners scr)) = Inr l"
    and "register_active_outputs_handler kd service_handler
      (scr\<lparr>listeners := (listeners scr)\<lparr>loop_of := l\<rparr>\<rparr>) = (scr2, None)"
    and "sys = \<lparr>service_screen = scr2, service_active_outputs = no_active_outputs, service_messages = []\<rparr>"
proof -
  obtain cs where cs: "new_connection_handle ans address = (cs, None)"
    using service by (auto simp: new_display_service_def split: prod.splits option.splits)
  obtain l where l: "add_connection c (loop_of (listeners scr)) = Inr l"
    using service by (auto simp: new_display_service_def cs)
  obtain cs2 where cs2: "then_do (request_name ans ''com.canonical.Unity.Display'' cs) (add_filter ans) =
      (cs2, None)"
    using service by (auto simp: new_display_service_def cs l split: prod.splits option.splits)
  show ?thesis
    using service that[OF l]
    by (auto simp: new_display_service_def cs l cs2 Let_def split: prod.splits option.splits)
qed

lemma the_screen_started:
  assumes "the_screen env ks w = (scr, None)" and wf: "switcher_wf (switcher_of w)"
    and os: "fork_result (os_of w) \<noteq> 0"
  shows "\<exists>s'. active_outputs_handlers scr = [(ks, switcher_handler)] \<and>
    listeners scr = w\<lparr>switcher_of := s'\<rparr> \<and> switcher_wf s' \<and>
    has_active_outputs s' = any_active (active_outputs scr)"
proof -
  obtain scr0 where scr0: "set_screen ks False scr0 = (scr, None)"
    and fields: "active_outputs_handlers scr0 = []" "listeners scr0 = w"
    using the_screen_steps[OF assms(1)] .
  obtain s' where s': "active_outputs_handler (os_of w) (active_outputs scr0) (switcher_of w) = Inr s'"
    "switcher_wf s'"
    using switcher.step_returns[OF wf, of "(os_of w, ActiveOutputsChanged (active_outputs scr0))"] os
    by auto
  then show ?thesis
    using scr0 fields has_active_handler[OF s'(1) wf os]
    by (auto simp: set_screen_def register_active_outputs_handler_def call_handler_def
        switcher_handler_def Let_def)
qed

lemma started_inv:
  assumes screen: "the_screen env ks w = (scr, None)"
    and service: "new_display_service ans address c kd scr = Inr sys"
    and "ks \<noteq> kd" and wf: "switcher_wf (switcher_of w)" and os: "fork_result (os_of w) \<noteq> 0"
    and new: "new_event_loop True (Some fd) True = Inr (loop_of w)"
  shows "system_inv ks kd sys"
proof -
  obtain s' where s': "active_outputs_handlers scr = [(ks, switcher_handler)]"
    "listeners scr = w\<lparr>switcher_of := s'\<rparr>" "switcher_wf s'"
    "has_active_outputs s' = any_active (active_outputs scr)"
    using the_screen_started[OF screen wf os] by blast
  obtain l scr2 where l: "add_connection c (loop_of w) = Inr l"
    and scr2: "register_active_outputs_handler kd service_handler
      (scr\<lparr>listeners := (listeners scr)\<lparr>loop_of := l\<rparr>\<rparr>) = (scr2, None)"
    and res: "sys = \<lparr>service_screen = scr2, service_active_outputs = no_active_outputs, service_messages = []\<rparr>"
    using new_service_steps[OF service] s'(2) by auto
  have both: "listening ks kd = assign_key kd service_handler [(ks, switcher_handler)]"
    by (simp add: listening_def)
  have sys: "sys = \<lparr>service_screen = scr\<lparr>active_outputs_handlers := listening ks kd,
        listeners := w\<lparr>switcher_of := s', loop_of := enqueue (active_outputs scr) l\<rparr>\<rparr>,
      service_active_outputs = no_active_outputs, service_messages = []\<rparr>"
    using scr2 s'(1,2)
    by (auto simp: res register_active_outputs_handler_def call_handler_def service_handler_def both
        Let_def simp del: assign_key.simps)
  have "actions (loop_of w) = []" "loop_calls (loop_of w) = []"
    using new_event_loop_empty[OF new] by simp_all
  then have "actions l = []" "performed l = []"
    using l by (auto simp: add_connection_def performed_def map_filter_simps split: if_splits)
  then show ?thesis
    using s'(3,4) by (simp add: sys system_inv_def world_of_def Let_def performed_enqueue)
      (simp add: enqueue_def push_action_def wake_up_loop_def signals_sent_def)
qed

section \<open>Screen, switcher and bus agree\<close>

text \<open>
  C3. Once the screen and the display service are started, no sequence of session operations, bus
  messages (however the display answers them), reports of display changes and loop turns makes an entry point
  throw; and after each, the switcher believes outputs are active exactly when the screen counts
  some, the changes still queued lead to the screen's counts, and the signals sent are those of the
  changes performed, in order. So when the queue is empty, what a client reads from the property and
  what it was last told by a signal are the screen's counts.
\<close>

theorem screen_switcher_and_bus_agree:
  assumes "the_screen env ks w = (scr, None)"
    and "new_display_service ans address c kd scr = Inr sys" and "ks \<noteq> kd"
    and "switcher_of w = new_switcher sp" and "fork_result (os_of w) \<noteq> 0"
    and "new_event_loop True (Some fd) True = Inr (loop_of w)" and "list_all event_ok evs"
  shows "\<exists>sys'. run_system lib intro evs sys = Inr sys' \<and>
    (let scr' = service_screen sys'; queue = actions (loop_of (world_of sys'))
     in (has_active_outputs (switcher_of (world_of sys')) \<longleftrightarrow>
           internal (active_outputs scr') + external (active_outputs scr') \<noteq> 0) \<and>
        last (service_active_outputs sys' # queue) = active_outputs scr' \<and>
        signals_sent (service_messages sys') =
          map outputs_signal (performed (loop_of (world_of sys'))) \<and>
        (queue = [] \<longrightarrow>
           dbus_properties_Get ''ActiveOutputs'' sys' = [outputs_value (active_outputs scr')] \<and>
           (signals_sent (service_messages sys') \<noteq> [] \<longrightarrow>
              last (signals_sent (service_messages sys')) = outputs_signal (active_outputs scr'))))"
proof -
  have "switcher_wf (switcher_of w)" using assms(4) by simp
  from started_inv[OF assms(1-3) this assms(5,6)] have "system_wf sys"
    using assms(3) unfolding system_wf_def by blast
  from compositor.gc_run_returns[OF this assms(7), of lib "intro"] obtain sys' ks' kd' where
    run: "run_system lib intro evs sys = Inr sys'" and inv: "system_inv ks' kd' sys'"
    unfolding run_system_def system_wf_def by blast
  have "last (map outputs_signal xs) = (outputs_signal (last xs) :: 'a bus_message)" if "xs \<noteq> []" for xs
    using that by (rule last_map)
  with inv run show ?thesis
    by (auto simp: system_inv_def Let_def any_active_def dbus_properties_Get_def append_outputs
        split: if_splits)
qed

section \<open>An example\<close>

definition demo_world :: world where
  "demo_world =
     \<lparr>switcher_of = new_switcher (new_external_spinner ''spinner'' ''sock''),
      loop_of = \<lparr>running = False, connections = [], watches = [], timeouts = [], actions = [],
        wake_up_fd = 3, wake_up_bytes = 0, epoll_calls = [EpollAdd 3 EPOLLIN], loop_calls = []\<rparr>,
      os_of = \<lparr>fork_result = 100, exec_succeeds = True\<rparr>\<rparr>"

definition demo_answers :: bus_answers where
  "demo_answers =
     \<lparr>open_succeeds = True, open_error = None, register_error = None, request_name_error = None,
      primary_owner = True, match_error = None, filter_added = True, is_connected = True\<rparr>"

definition demo_system :: "(string \<times> string \<times> string list) system" where
  "demo_system =
     \<lparr>service_screen = \<lparr>active_outputs_handlers = [(1, switcher_handler), (2, service_handler)],
        active_outputs = \<lparr>internal = 1, external = 1\<rparr>,
        listeners = demo_world\<lparr>loop_of := enqueue \<lparr>internal = 1, external = 1\<rparr>
          ((loop_of demo_world)\<lparr>connections := [7]\<rparr>)\<rparr>,
        screen_calls = [CompositorStart]\<rparr>,
      service_active_outputs = no_active_outputs, service_messages = []\<rparr>"

definition demo_screen_started :: "world mir_screen" where
  "demo_screen_started =
     \<lparr>active_outputs_handlers = [(1, switcher_handler)],
      active_outputs = \<lparr>internal = 1, external = 1\<rparr>, listeners = demo_world,
      screen_calls = [CompositorStart]\<rparr>"

lemma demo_handler:
  "active_outputs_handler (os_of demo_world) \<lparr>internal = 1, external = 1\<rparr> (switcher_of demo_world) =
     Inr (switcher_of demo_world)"
  by code_simp

lemma demo_starts:
  "the_screen (env_ok demo_outputs) 1 demo_world = (demo_screen_started, None)"
  "new_display_service demo_answers ''bus'' 7 2 demo_screen_started = Inr demo_system"
proof -
  have "count_active_outputs demo_outputs = \<lparr>internal = 1, external = 1\<rparr>" by code_simp
  then show "the_screen (env_ok demo_outputs) 1 demo_world = (demo_screen_started, None)"
    using demo_handler
    by (simp add: the_screen_def new_mir_screen_def call_mir_def env_ok_def Let_def set_screen_def
        register_active_outputs_handler_def call_handler_def switcher_handler_def
        demo_screen_started_def)
  show "new_display_service demo_answers ''bus'' 7 2 demo_screen_started = Inr demo_system"
    by (simp add: new_display_service_def new_connection_handle_def demo_answers_def Let_def
        error_is_set_def request_name_def add_filter_def add_connection_def
        register_active_outputs_handler_def call_handler_def service_handler_def
        demo_screen_started_def demo_system_def demo_world_def)
qed

lemma demo_world_new:
  "switcher_of demo_world = new_switcher (new_external_spinner ''spinner'' ''sock'')"
  "fork_result (os_of demo_world) \<noteq> 0"
  "new_event_loop True (Some 3) True = Inr (loop_of demo_world)"
  by (simp_all add: demo_world_def new_event_loop_def)

theorem screen_switcher_and_bus_agree_witness:
  "\<exists>sys'. run_system plain_libdbus '''' [(os_of demo_world, DisplayObserved (ConfigurationApplied [])),
       (os_of demo_world, LoopActions)] demo_system = Inr sys' \<and>
     has_active_outputs (switcher_of (world_of sys')) =
       (internal (active_outputs (service_screen sys')) + external (active_outputs (service_screen sys')) \<noteq> 0)"
proof -
  have "list_all event_ok [(os_of demo_world, DisplayObserved (ConfigurationApplied []) :: (string \<times> string \<times> string list) system_event),
      (os_of demo_world, LoopActions)]"
    by (simp add: event_ok_def demo_world_def)
  from screen_switcher_and_bus_agree[OF demo_starts _ demo_world_new this, of plain_libdbus "''''"]
  show ?thesis by (auto simp: Let_def)
qed

section \<open>Blanking and restoring\<close>

lemma all_outputs_methods:
  assumes lib: "libdbus_ok lib" and args: "get_string_args lib 1 m = None"
  shows "is_method_call lib m ''com.canonical.Unity.Display'' ''TurnOff'' \<Longrightarrow>
      service_screen (fst (handle_dbus_message lib intro env m s)) =
        fst (turn_off env AllOutputs (service_screen s))"
    and "is_method_call lib m ''com.canonical.Unity.Display'' ''TurnOn'' \<Longrightarrow>
      service_screen (fst (handle_dbus_message lib intro env m s)) =
        fst (turn_on env AllOutputs (service_screen s))"
proof -
  assume off: "is_method_call lib m ''com.canonical.Unity.Display'' ''TurnOff''"
  show "service_screen (fst (handle_dbus_message lib intro env m s)) =
      fst (turn_off env AllOutputs (service_screen s))"
    using only_member[OF lib off] off args
    by (simp add: handle_dbus_message_def Let_def dbus_display_interface_def reply_keeps_screen
        dbus_TurnOff_def on_screen_fields output_filter_from_string_def)
next
  assume on: "is_method_call lib m ''com.canonical.Unity.Display'' ''TurnOn''"
  show "service_screen (fst (handle_dbus_message lib intro env m s)) =
      fst (turn_on env AllOutputs (service_screen s))"
    using only_member[OF lib on] on args
    by (simp add: handle_dbus_message_def Let_def dbus_display_interface_def reply_keeps_screen
        dbus_TurnOn_def on_screen_fields output_filter_from_string_def)
qed

text \<open>A switch by way of the bus ends in an update of the switcher with the new counts.\<close>

lemma switched_world:
  assumes inv: "system_inv ks kd sys" and "ks \<noteq> kd" and os: "fork_result (os_of (world_of sys)) \<noteq> 0"
  shows "\<exists>sp. spinner_update (os_of (world_of sys)) ((switcher_of (world_of sys))
      \<lparr>has_active_outputs := any_active (count_active_outputs (apply_power_mode mode filt cfg))\<rparr>) = Inr sp \<and>
    switcher_of (listeners (fst (set_power_mode (env_ok cfg) mode filt (service_screen sys)))) =
    planned_state sp ((switcher_of (world_of sys))
      \<lparr>has_active_outputs := any_active (count_active_outputs (apply_power_mode mode filt cfg))\<rparr>)"
proof -
  let ?cfg = "apply_power_mode mode filt cfg" and ?sw = "switcher_of (world_of sys)"
  let ?calls = "screen_calls (service_screen sys) @ [CompositorStop, DisplayConfigure ?cfg] @
      (if config_has_active_outputs ?cfg then [CompositorStart] else [])"
  let ?sys = "sys\<lparr>service_screen := (service_screen sys)\<lparr>screen_calls := ?calls\<rparr>\<rparr>"
  have w: "world_of ?sys = world_of sys" by (simp add: world_of_def)
  have "fork_result (os_of (world_of ?sys)) \<noteq> 0" using os unfolding w .
  from configured_effect[OF inv_screen_calls[OF inv] \<open>ks \<noteq> kd\<close> this, of ?cfg]
  obtain s' where s': "active_outputs_handler (os_of (world_of sys)) (count_active_outputs ?cfg) ?sw = Inr s'"
    and run: "configuration_applied ?cfg (service_screen ?sys) = ((service_screen ?sys)
        \<lparr>active_outputs := count_active_outputs ?cfg, listeners := (world_of sys)\<lparr>switcher_of := s',
           loop_of := enqueue (count_active_outputs ?cfg) (loop_of (world_of sys))\<rparr>\<rparr>, None)"
    unfolding w by blast
  have "switcher_wf (?sw\<lparr>has_active_outputs := any_active (count_active_outputs ?cfg)\<rparr>)"
    using inv by (simp add: system_inv_def Let_def)
  then obtain sp where "spinner_update (os_of (world_of sys))
      (?sw\<lparr>has_active_outputs := any_active (count_active_outputs ?cfg)\<rparr>) = Inr sp"
    "s' = planned_state sp (?sw\<lparr>has_active_outputs := any_active (count_active_outputs ?cfg)\<rparr>)"
    using update_returns[OF _ os] s' by (metis active_outputs_handler_def sum.inject(2))
  then show ?thesis using run by (auto simp: set_power_mode_ok)
qed

lemma bus_switch_step:
  assumes inv: "system_inv ks kd s" and "ks \<noteq> kd" and os: "fork_result os \<noteq> 0"
    and scr: "\<And>t :: 'm system. service_screen (fst (handle_dbus_message lib intro (env_ok cfg) m t)) =
      fst (set_power_mode (env_ok cfg) mode filt (service_screen t))"
  shows "\<exists>s' sp. system_step lib intro (os, BusMessage (env_ok cfg) m) s = Inr s' \<and>
    system_inv ks kd s' \<and>
    spinner_update os ((switcher_of (world_of s))
      \<lparr>has_active_outputs := any_active (count_active_outputs (apply_power_mode mode filt cfg))\<rparr>) = Inr sp \<and>
    switcher_of (world_of s') = planned_state sp ((switcher_of (world_of s))
      \<lparr>has_active_outputs := any_active (count_active_outputs (apply_power_mode mode filt cfg))\<rparr>)"
proof -
  let ?s = "set_world ((world_of s)\<lparr>os_of := os\<rparr>) s"
  have w: "os_of (world_of ?s) = os" "switcher_of (world_of ?s) = switcher_of (world_of s)"
    by (simp_all add: world_of_def set_world_def)
  have o2: "fork_result (os_of (world_of ?s)) \<noteq> 0"
      "event_ok (os_of (world_of ?s), BusMessage (env_ok cfg) m)"
    using os by (simp_all add: w event_ok_def)
  obtain s' where s': "handle_dbus_message lib intro (env_ok cfg) m ?s = (s', None)"
      "system_inv ks kd s'"
    using event_inv[OF set_os_inv[OF inv] \<open>ks \<noteq> kd\<close> o2, of lib "intro"] by auto
  from switched_world[OF set_os_inv[OF inv] \<open>ks \<noteq> kd\<close> o2(1), where cfg = cfg and mode = mode and filt = filt] scr[of ?s]
  show ?thesis using s' by (auto simp: system_step_def world_of_def[of s'] w)
qed

lemma blank_plan:
  assumes "switcher_wf s" "\<not> has_active_outputs s" "tracked (planned_state sp s) n = Some us"
  shows "\<not> visible (calls (planned_state sp s)) us"
proof -
  have "tracked s n = Some us" using assms(3) by (simp add: planned_state_def tracked_def)
  from plan_visibility[OF assms(1) this] assms(2) show ?thesis by (simp add: should_be_visible_def)
qed

lemma lit_plan:
  assumes "switcher_wf s" "has_active_outputs s" "active_shown s"
  shows "\<exists>us. tracked s (active_name s) = Some us \<and> visible (calls (planned_state sp s)) us \<and>
    focused (calls (planned_state sp s)) = Some us"
proof -
  obtain us where us: "tracked s (active_name s) = Some us"
    using active_shown_tracked[OF assms(3)] by blast
  from plan_visibility[OF assms(1) us] plan_focus[of sp s] us assms(2,3) show ?thesis
    by (auto simp: should_be_visible_def)
qed

lemma blanked_keeps:
  "active_shown ((planned_state sp (s\<lparr>has_active_outputs := False\<rparr>))\<lparr>has_active_outputs := b\<rparr>) =
     active_shown s"
  "tracked ((planned_state sp (s\<lparr>has_active_outputs := False\<rparr>))\<lparr>has_active_outputs := b\<rparr>) =
     tracked s"
  "active_name ((planned_state sp (s\<lparr>has_active_outputs := False\<rparr>))\<lparr>has_active_outputs := b\<rparr>) =
     active_name s"
  "spinner_mode ((planned_state sp (s\<lparr>has_active_outputs := False\<rparr>))\<lparr>has_active_outputs := b\<rparr>) =
     spinner_mode s"
  by (simp_all add: fun_eq_iff planned_state_def active_shown_def is_session_ready_for_display_def
      tracked_def spinner_mode_def)

lemma all_outputs_off:
  "any_active (count_active_outputs (apply_power_mode PowerOff
     (get_power_mode_filter_for_output_filter AllOutputs) cfg)) = False"
  by (simp only: power_off_counts) (simp add: any_active_def no_active_outputs_def)

lemma all_outputs_on:
  assumes "out \<in> set cfg" "connected out" "used out"
  shows "any_active (count_active_outputs (apply_power_mode PowerOn
     (get_power_mode_filter_for_output_filter AllOutputs) cfg)) = True"
proof -
  have "any_active (count_active_outputs (apply_power_mode PowerOn
      (get_power_mode_filter_for_output_filter AllOutputs) cfg))"
    unfolding any_active_count
  proof
    show "out\<lparr>power_mode := PowerOn\<rparr> \<in>
        set (apply_power_mode PowerOn (get_power_mode_filter_for_output_filter AllOutputs) cfg)"
      using assms by (auto simp: apply_power_mode_def intro!: image_eqI[of _ _ out])
    show "output_active (out\<lparr>power_mode := PowerOn\<rparr>)" using assms by (simp add: output_active_def)
  qed
  then show ?thesis by blast
qed



end
