(* ===== verification/Dbus_Interfaces.thy ===== *)
theory Dbus_Interfaces
  imports Dbus_Types
begin

text \<open>
  The D-Bus interfaces as the introspection files declare them (\<open>src/com.canonical.Unity.*.xml\<close>):
  the types of the bus, which value has which type, and per interface the signatures of its methods,
  signals and properties.
\<close>

section \<open>Types\<close>

datatype dbus_type =
    TyInt32
  | TyBoolean
  | TyDouble
  | TyString
  | TyStruct "dbus_type list"
  | TyVariant
  | TyDictEntry dbus_type dbus_type
  | TyArray dbus_type

text \<open>A variant holds a value of any type; an array's elements share one.\<close>

inductive has_type :: "dbus_value \<Rightarrow> dbus_type \<Rightarrow> bool" where
  type_int32: "has_type (DbusInt32 i) TyInt32"
| type_string: "has_type (DbusString s) TyString"
| type_struct: "list_all2 has_type vs ts \<Longrightarrow> has_type (DbusStruct vs) (TyStruct ts)"
| type_variant: "has_type v t \<Longrightarrow> has_type (DbusVariant v) TyVariant"
| type_entry: "has_type k tk \<Longrightarrow> has_type v tv \<Longrightarrow> has_type (DbusDictEntry k v) (TyDictEntry tk tv)"
| type_array: "list_all (\<lambda>v. has_type v t) vs \<Longrightarrow> has_type (DbusArray vs) (TyArray t)"
monos list_all2_mono list.pred_mono

inductive_simps has_type_simps [simp]:
  "has_type (DbusInt32 i) t"
  "has_type (DbusString s) t"
  "has_type (DbusStruct vs) t"
  "has_type (DbusVariant v) t"
  "has_type (DbusDictEntry k v) t"
  "has_type (DbusArray vs) t"

definition has_types :: "dbus_value list \<Rightarrow> dbus_type list \<Rightarrow> bool" where
  "has_types vs ts \<longleftrightarrow> list_all2 has_type vs ts"

lemma has_types_simps [simp]:
  "has_types [] ts \<longleftrightarrow> ts = []"
  "has_types (v # vs) ts \<longleftrightarrow> (\<exists>t ts'. ts = t # ts' \<and> has_type v t \<and> has_types vs ts')"
  by (auto simp: has_types_def list_all2_Cons1)

section \<open>The files\<close>

text \<open>Methods by interface and name, with the types of the arguments in and out; signals with the
  types of their arguments.\<close>

type_synonym method_table = "((string \<times> string) \<times> dbus_type list \<times> dbus_type list) list"

type_synonym signal_table = "((string \<times> string) \<times> dbus_type list) list"

definition properties_interface :: string where
  "properties_interface = ''org.freedesktop.DBus.Properties''"

definition introspectable_interface :: string where
  "introspectable_interface = ''org.freedesktop.DBus.Introspectable''"

abbreviation properties_map :: dbus_type where
  "properties_map \<equiv> TyArray (TyDictEntry TyString TyVariant)"

definition display_methods :: method_table where
  "display_methods =
     [((''com.canonical.Unity.Display'', ''TurnOn''), [TyString], []),
      ((''com.canonical.Unity.Display'', ''TurnOff''), [TyString], []),
      ((properties_interface, ''Get''), [TyString, TyString], [TyVariant]),
      ((properties_interface, ''GetAll''), [TyString], [properties_map]),
      ((properties_interface, ''Set''), [TyString, TyString, TyVariant], []),
      ((introspectable_interface, ''Introspect''), [], [TyString])]"

definition display_properties :: "((string \<times> string) \<times> dbus_type) list" where
  "display_properties =
     [((''com.canonical.Unity.Display'', ''ActiveOutputs''), TyStruct [TyInt32, TyInt32])]"

definition display_signals :: signal_table where
  "display_signals =
     [((properties_interface, ''PropertiesChanged''), [TyString, properties_map, TyArray TyString])]"

definition input_methods_declared :: method_table where
  "input_methods_declared =
     map (\<lambda>(n, t). ((''com.canonical.Unity.Input'', n), [t], []))
       [(''setMousePrimaryButton'', TyInt32),
        (''setMouseCursorSpeed'', TyDouble),
        (''setMouseScrollSpeed'', TyDouble),
        (''setTouchpadPrimaryButton'', TyInt32),
        (''setTouchpadCursorSpeed'', TyDouble),
        (''setTouchpadScrollSpeed'', TyDouble),
        (''setTouchpadDisableWhileTyping'', TyBoolean),
        (''setTouchpadTapToClick'', TyBoolean),
        (''setTouchpadTwoFingerScroll'', TyBoolean),
        (''setTouchpadDisableWithMouse'', TyBoolean)]"

definition power_button_signals :: signal_table where
  "power_button_signals =
     [((''com.canonical.Unity.PowerButton'', ''Press''), []),
      ((''com.canonical.Unity.PowerButton'', ''Release''), []),
      ((''com.canonical.Unity.PowerButton'', ''LongPress''), [])]"

definition user_activity_signals :: signal_table where
  "user_activity_signals = [((''com.canonical.Unity.UserActivity'', ''Activity''), [TyInt32])]"

section \<open>Conformance\<close>

text \<open>A signal is declared with the types of its values; a return answers a call of a declared
  method with the values declared.\<close>

fun signal_conforms :: "signal_table \<Rightarrow> 'm bus_message \<Rightarrow> bool" where
  "signal_conforms tab (Signal path i n vs) \<longleftrightarrow>
     (case map_of tab (i, n) of None \<Rightarrow> False | Some ts \<Rightarrow> has_types vs ts)"
| "signal_conforms tab _ \<longleftrightarrow> False"

text \<open>What libdbus documents of \<open>dbus_message_get_args\<close>: with a message of exactly the types asked for
  it succeeds; \<open>signature_of\<close> are the types of a message's arguments.\<close>

definition typed_args :: "('m, 'd) libdbus \<Rightarrow> ('m \<Rightarrow> dbus_type list) \<Rightarrow> bool" where
  "typed_args lib signature_of \<longleftrightarrow>
     (\<forall>m n. signature_of m = replicate n TyString \<longrightarrow> get_string_args lib n m \<noteq> None) \<and>
     (\<forall>m. signature_of m = [TyBoolean] \<longrightarrow> get_boolean_arg lib m \<noteq> None) \<and>
     (\<forall>m. signature_of m = [TyInt32] \<longrightarrow> get_int32_arg lib m \<noteq> None) \<and>
     (\<forall>m. signature_of m = [TyDouble] \<longrightarrow> get_double_arg lib m \<noteq> None)"

end
