(* ===== verification/Bus_Props.thy ===== *)
theory Bus_Props
  imports System_Props Input_Service Screen_Event_Props Dbus_Interfaces
begin

text \<open>
  What the compositor says on the bus, against its declared interfaces: whatever is sent has the
  declared types, every declared call is answered as declared, and the power key reaches the bus.
\<close>

section \<open>The effect of a message as functions\<close>

text \<open>The display service's answers to a message, given the counts it last published, and the switch
  of the outputs it asks for.\<close>

definition display_replies ::
  "('m, 'd) libdbus \<Rightarrow> string \<Rightarrow> active_outputs \<Rightarrow> 'm \<Rightarrow> 'm bus_message list" where
  "display_replies lib introspection ao m =
     (let invalid = (\<lambda>args. if args = None
            then [ErrorReply m ''org.freedesktop.DBus.Error.Failed'' ''Invalid arguments''] else [])
      in if is_method_call lib m ''org.freedesktop.DBus.Introspectable'' ''Introspect'' then
           [MethodReturn m [DbusString introspection]]
         else if is_method_call lib m ''com.canonical.Unity.Display'' ''TurnOn'' \<or>
           is_method_call lib m ''com.canonical.Unity.Display'' ''TurnOff'' then
           MethodReturn m [] # invalid (get_string_args lib 1 m)
         else if is_method_call lib m ''org.freedesktop.DBus.Properties'' ''Get'' then
           MethodReturn m
             (case get_string_args lib 2 m of
                None \<Rightarrow> []
              | Some xs \<Rightarrow> if xs ! 0 = ''com.canonical.Unity.Display'' \<and> xs ! 1 = ''ActiveOutputs''
                           then [outputs_value ao] else []) # invalid (get_string_args lib 2 m)
         else if is_method_call lib m ''org.freedesktop.DBus.Properties'' ''GetAll'' then
           MethodReturn m
             (case get_string_args lib 1 m of
                None \<Rightarrow> []
              | Some xs \<Rightarrow> if xs ! 0 = ''com.canonical.Unity.Display''
                           then [DbusArray [DbusDictEntry (DbusString ''ActiveOutputs'') (outputs_value ao)]]
                           else []) # invalid (get_string_args lib 1 m)
         else if has_method_call_type lib m then
           [ErrorReply m ''org.freedesktop.DBus.Error.Failed'' ''Not supported'']
         else [])"

definition switch_wanted :: "('m, 'd) libdbus \<Rightarrow> 'm \<Rightarrow> (power_mode \<times> output_filter) option" where
  "switch_wanted lib m =
     (let filt = output_filter_from_string
            (case get_string_args lib 1 m of None \<Rightarrow> ''all'' | Some xs \<Rightarrow> xs ! 0)
      in if is_method_call lib m ''org.freedesktop.DBus.Introspectable'' ''Introspect'' then None
         else if is_method_call lib m ''com.canonical.Unity.Display'' ''TurnOn'' then Some (PowerOn, filt)
         else if is_method_call lib m ''com.canonical.Unity.Display'' ''TurnOff'' then Some (PowerOff, filt)
         else None)"

definition switch_screen ::
  "mir_env \<Rightarrow> (power_mode \<times> output_filter) option \<Rightarrow> 'w mir_screen \<Rightarrow> 'w mir_screen" where
  "switch_screen env wanted scr =
     (case wanted of
        None \<Rightarrow> scr
      | Some (mode, filt) \<Rightarrow>
          fst (set_power_mode env mode (get_power_mode_filter_for_output_filter filt) scr))"

lemma message_result:
  assumes "\<And>mode filt. snd (set_power_mode env mode filt (service_screen s)) = None"
  shows "handle_dbus_message lib introspection env m s =
    (s\<lparr>service_screen := switch_screen env (switch_wanted lib m) (service_screen s),
       service_messages := service_messages s @ display_replies lib introspection (service_active_outputs s) m\<rparr>,
     None)"
proof -
  have eqs: "dbus_TurnOn env fs s = (s\<lparr>service_screen := fst (set_power_mode env PowerOn
        (get_power_mode_filter_for_output_filter (output_filter_from_string fs)) (service_screen s))\<rparr>, None)"
    "dbus_TurnOff env fs s = (s\<lparr>service_screen := fst (set_power_mode env PowerOff
        (get_power_mode_filter_for_output_filter (output_filter_from_string fs)) (service_screen s))\<rparr>, None)"
    for fs
    using assms
    by (simp_all add: dbus_TurnOn_def dbus_TurnOff_def on_screen_def turn_on_def turn_off_def
        case_prod_beta Let_def)
  note defs = handle_dbus_message_def display_replies_def switch_wanted_def switch_screen_def
    send_message_def dbus_display_interface_def dbus_properties_Get_def dbus_properties_GetAll_def
    append_outputs Let_def
  show ?thesis
    unfolding eqs defs
    by (cases "get_string_args lib 1 m"; cases "get_string_args lib 2 m") simp_all
qed

lemma message_step:
  assumes inv: "system_inv ks kd sys" and "ks \<noteq> kd" and os: "fork_result os \<noteq> 0"
  shows "\<exists>sys'. system_step lib intro (os, BusMessage env m) sys = Inr sys' \<and> system_inv ks kd sys' \<and>
    service_messages sys' = service_messages sys @ display_replies lib intro (service_active_outputs sys) m"
proof -
  let ?sys = "set_world ((world_of sys)\<lparr>os_of := os\<rparr>) sys"
  have os': "fork_result (os_of (world_of ?sys)) \<noteq> 0" using os by (simp add: world_of_def set_world_def)
  have inv': "system_inv ks kd ?sys" by (rule set_os_inv[OF inv])
  have ok: "event_ok (os_of (world_of ?sys), BusMessage env m)" using os' by (simp add: event_ok_def)
  obtain sys' where sys': "handle_event lib intro (BusMessage env m) ?sys = (sys', None)"
    "system_inv ks kd sys'"
    using event_inv[OF inv' assms(2) os' ok, of lib "intro"] by blast
  moreover have "snd (set_power_mode env mode filt (service_screen ?sys)) = None" for mode filt
    using set_power_mode_inv[OF inv' assms(2) os'] by blast
  from message_result[OF this, of lib "intro" m] sys'(1)
  have "service_messages sys' = service_messages sys @ display_replies lib intro (service_active_outputs sys) m"
    by (auto simp: set_world_def)
  ultimately show ?thesis by (auto simp: system_step_def)
qed

section \<open>What is sent has the declared types\<close>

text \<open>A call for properties asks for one the object has, or for all of an interface it has.\<close>

definition properties_known :: "('m, 'd) libdbus \<Rightarrow> 'm \<Rightarrow> string \<Rightarrow> bool" where
  "properties_known lib m n \<longleftrightarrow>
     (n = ''Get'' \<longrightarrow> (case get_string_args lib 2 m of
        Some [iface, prop] \<Rightarrow> map_of display_properties (iface, prop) \<noteq> None | _ \<Rightarrow> False)) \<and>
     (n = ''GetAll'' \<longrightarrow> (case get_string_args lib 1 m of
        Some [iface] \<Rightarrow> iface \<in> (fst \<circ> fst) ` set display_properties | _ \<Rightarrow> False))"

text \<open>A return answers a call of a declared method with values of the declared types.\<close>

fun message_conforms :: "('m, 'd) libdbus \<Rightarrow> method_table \<Rightarrow> signal_table \<Rightarrow> 'm bus_message \<Rightarrow> bool" where
  "message_conforms lib methods signals (MethodReturn m vs) \<longleftrightarrow>
     (\<exists>((i, n), ins, outs) \<in> set methods. is_method_call lib m i n \<and>
        has_types vs outs)"
| "message_conforms lib methods signals (ErrorReply m e t) \<longleftrightarrow> has_method_call_type lib m"
| "message_conforms lib methods signals (Signal path i n vs) \<longleftrightarrow>
     signal_conforms signals (Signal path i n vs :: 'm bus_message)"

text \<open>What is sent although it is not declared: nothing, where a value is, in return to a call for
  properties the object does not have; and the introspection text of the input service, whose file
  leaves out the interface it is read with.\<close>

definition empty_for_unknown :: "('m, 'd) libdbus \<Rightarrow> 'm bus_message \<Rightarrow> bool" where
  "empty_for_unknown lib msg \<longleftrightarrow>
     (\<exists>m. msg = MethodReturn m [] \<and> (\<exists>n \<in> {''Get'', ''GetAll''}.
        is_method_call lib m properties_interface n \<and> \<not> properties_known lib m n))"

definition introspection_text :: "('m, 'd) libdbus \<Rightarrow> string \<Rightarrow> 'm bus_message \<Rightarrow> bool" where
  "introspection_text lib introspection msg \<longleftrightarrow>
     (\<exists>m. msg = MethodReturn m [DbusString introspection] \<and>
        is_method_call lib m introspectable_interface ''Introspect'')"

abbreviation display_service_sends :: "('m, 'd) libdbus \<Rightarrow> 'm bus_message \<Rightarrow> bool" where
  "display_service_sends lib msg \<equiv>
     message_conforms lib display_methods display_signals msg \<or> empty_for_unknown lib msg"

abbreviation input_service_sends :: "('m, 'd) libdbus \<Rightarrow> string \<Rightarrow> 'm bus_message \<Rightarrow> bool" where
  "input_service_sends lib introspection msg \<equiv>
     message_conforms lib input_methods_declared [] msg \<or> introspection_text lib introspection msg"

lemma outputs_value_type: "has_type (outputs_value ao) t \<longleftrightarrow> t = TyVariant"
  by (auto simp: outputs_value_def list_all2_Cons1)

lemma outputs_signal_conforms:
  "message_conforms lib methods display_signals (outputs_signal ao)"
  by (simp add: outputs_signal_def display_signals_def properties_interface_def outputs_value_type)

lemma replies_all:
  assumes "is_method_call lib m ''org.freedesktop.DBus.Introspectable'' ''Introspect'' \<Longrightarrow>
      P (MethodReturn m [DbusString intro])"
    and "is_method_call lib m ''com.canonical.Unity.Display'' ''TurnOn'' \<or>
      is_method_call lib m ''com.canonical.Unity.Display'' ''TurnOff'' \<Longrightarrow> P (MethodReturn m [])"
    and "is_method_call lib m ''org.freedesktop.DBus.Properties'' ''Get'' \<Longrightarrow>
      P (MethodReturn m (case get_string_args lib 2 m of None \<Rightarrow> []
        | Some xs \<Rightarrow> if xs ! 0 = ''com.canonical.Unity.Display'' \<and> xs ! 1 = ''ActiveOutputs''
                     then [outputs_value ao] else []))"
    and "is_method_call lib m ''org.freedesktop.DBus.Properties'' ''GetAll'' \<Longrightarrow>
      P (MethodReturn m (case get_string_args lib 1 m of None \<Rightarrow> []
        | Some xs \<Rightarrow> if xs ! 0 = ''com.canonical.Unity.Display''
                     then [DbusArray [DbusDictEntry (DbusString ''ActiveOutputs'') (outputs_value ao)]] else []))"
    and call: "\<And>i n. is_method_call lib m i n \<Longrightarrow> has_method_call_type lib m"
    and "\<And>e t. has_method_call_type lib m \<Longrightarrow> P (ErrorReply m e t)"
  shows "list_all P (display_replies lib intro ao m)"
  unfolding display_replies_def Let_def using assms by auto

lemma replies_conform:
  assumes lib: "libdbus_ok lib"
  shows "list_all (display_service_sends lib) (display_replies lib intro ao m)"
proof -
  have call: "is_method_call lib m i n \<Longrightarrow> has_method_call_type lib m" for i n
    using lib unfolding libdbus_ok_def by blast
  have get: "display_service_sends lib (MethodReturn m (case get_string_args lib 2 m of None \<Rightarrow> []
      | Some xs \<Rightarrow> if xs ! 0 = ''com.canonical.Unity.Display'' \<and> xs ! 1 = ''ActiveOutputs''
                   then [outputs_value ao] else []))"
    if "is_method_call lib m ''org.freedesktop.DBus.Properties'' ''Get''"
  proof (cases "get_string_args lib 2 m")
    case None
    with that show ?thesis
      by (auto simp: empty_for_unknown_def properties_known_def properties_interface_def)
  next
    case (Some xs)
    then have "length xs = 2" using lib unfolding libdbus_ok_def by blast
    then obtain a b where "xs = [a, b]" by (auto simp: numeral_2_eq_2 length_Suc_conv)
    with Some that show ?thesis
      by (auto simp: empty_for_unknown_def properties_known_def properties_interface_def display_methods_def
          display_properties_def outputs_value_type)
  qed
  have all: "display_service_sends lib (MethodReturn m (case get_string_args lib 1 m of None \<Rightarrow> []
      | Some xs \<Rightarrow> if xs ! 0 = ''com.canonical.Unity.Display''
                   then [DbusArray [DbusDictEntry (DbusString ''ActiveOutputs'') (outputs_value ao)]] else []))"
    if "is_method_call lib m ''org.freedesktop.DBus.Properties'' ''GetAll''"
  proof (cases "get_string_args lib 1 m")
    case None
    with that show ?thesis
      by (auto simp: empty_for_unknown_def properties_known_def properties_interface_def)
  next
    case (Some xs)
    then have "length xs = 1" using lib unfolding libdbus_ok_def by blast
    then obtain a where "xs = [a]" by (auto simp: length_Suc_conv)
    with Some that show ?thesis
      by (auto simp: empty_for_unknown_def properties_known_def properties_interface_def display_methods_def
          display_properties_def outputs_value_type)
  qed
  have others: "is_method_call lib m ''org.freedesktop.DBus.Introspectable'' ''Introspect'' \<Longrightarrow>
      display_service_sends lib (MethodReturn m [DbusString intro])"
    "is_method_call lib m ''com.canonical.Unity.Display'' ''TurnOn'' \<or>
      is_method_call lib m ''com.canonical.Unity.Display'' ''TurnOff'' \<Longrightarrow>
      display_service_sends lib (MethodReturn m [])"
    "has_method_call_type lib m \<Longrightarrow> display_service_sends lib (ErrorReply m e t)" for e t
    by (auto simp: display_methods_def introspectable_interface_def)
  show ?thesis
    by (rule replies_all[where P = "display_service_sends lib", OF others(1,2) get all call others(3)])
qed

lemma system_messages_conform:
  assumes inv: "system_inv ks kd sys" "ks \<noteq> kd" and lib: "libdbus_ok lib" and ok: "event_ok (os, ev)"
    and msgs: "list_all (display_service_sends lib) (service_messages sys)"
    and step: "system_step lib intro (os, ev) sys = Inr sys'"
  shows "list_all (display_service_sends lib) (service_messages sys')"
proof (cases ev)
  case (SessionEvent op)
  with step msgs show ?thesis
    by (auto simp: system_step_def Let_def set_world_def split: sum.splits prod.splits option.splits)
next
  case (BusMessage env m)
  have "fork_result os \<noteq> 0" using ok by (simp add: event_ok_def)
  from message_step[OF inv this, of lib "intro" env m] step msgs replies_conform[OF lib] show ?thesis
    by (auto simp: BusMessage)
next
  case (DisplayObserved oe)
  with step msgs show ?thesis
    by (auto simp: system_step_def set_world_def on_screen_def split: prod.splits option.splits)
next
  case LoopActions
  have "list_all (display_service_sends lib) (map outputs_signal as)" for as
    by (induction as) (simp_all add: outputs_signal_conforms)
  with LoopActions step msgs show ?thesis
    by (auto simp: system_step_def perform_actions_def Let_def fold_actions set_world_def)
qed

lemma input_return_conforms:
  assumes "is_method_call lib m dbus_input_interface n" and "n \<in> (snd \<circ> fst) ` set input_methods_declared"
  shows "message_conforms lib input_methods_declared [] (MethodReturn m [])"
proof -
  obtain x where x: "x \<in> set input_methods_declared" "snd (fst x) = n" using assms(2) by auto
  then have "fst (fst x) = dbus_input_interface" "snd (snd x) = []"
    by (auto simp: input_methods_declared_def dbus_input_interface_def)
  with x assms(1) show ?thesis
    by (force intro!: bexI[of _ x])
qed

lemma input_message_conforms:
  assumes msgs: "list_all (input_service_sends lib intro) (input_messages s)"
  shows "list_all (input_service_sends lib intro) (input_messages (handle_input_message lib intro pf m s))"
proof -
  let ?ok = "\<lambda>s :: 'a input_service. list_all (input_service_sends lib intro) (input_messages s)"
  have branch: "(c \<Longrightarrow> ?ok x) \<Longrightarrow> (\<not> c \<Longrightarrow> ?ok y) \<Longrightarrow> ?ok (if c then x else y)" for c x y by simp
  have sent: "input_service_sends lib intro r \<Longrightarrow> ?ok (send_input_message r s)" for r
    using msgs by (simp add: send_input_message_def)
  have answered: "?ok (handle_message_bool lib m f1 s)" "?ok (handle_message_double lib m f2 s)"
    "?ok (handle_message_int32 lib m f3 s)"
    if "is_method_call lib m dbus_input_interface n" "n \<in> (snd \<circ> fst) ` set input_methods_declared"
    for n f1 f2 f3
    using input_return_conforms[OF that] msgs
    by (simp_all add: handle_message_bool_def handle_message_double_def handle_message_int32_def
        send_input_message_def split: option.split)
  have "input_service_sends lib intro (MethodReturn m [DbusString intro])"
    if "is_method_call lib m ''org.freedesktop.DBus.Introspectable'' ''Introspect''"
    using that by (simp add: introspection_text_def introspectable_interface_def)
  note first = sent[OF this]
  have declared: "n \<in> (snd \<circ> fst) ` set input_methods_declared" if "n \<in> set
      [''setMousePrimaryButton'', ''setMouseCursorSpeed'', ''setMouseScrollSpeed'',
        ''setTouchpadPrimaryButton'', ''setTouchpadCursorSpeed'', ''setTouchpadScrollSpeed'',
        ''setTouchpadDisableWhileTyping'', ''setTouchpadTapToClick'', ''setTouchpadTwoFingerScroll'',
        ''setTouchpadDisableWithMouse'']" for n
    using that by (simp add: input_methods_declared_def)
  show ?thesis
    unfolding handle_input_message_def Let_def if_False
    by (rule branch, erule first, (rule branch, erule answered, rule declared, simp)+, rule branch,
        rule sent, simp, rule msgs)
qed

lemma sink_signals_conform:
  "list_all (signal_conforms (power_button_signals @ user_activity_signals)) (signals_for h)"
proof -
  let ?ok = "list_all (signal_conforms (power_button_signals @ user_activity_signals))"
  have notified: "?ok (notify_press sent) = ?ok sent" "?ok (notify_release sent) = ?ok sent"
    "?ok (notify_changing sent) = ?ok sent" "?ok (notify_extending sent) = ?ok sent" for sent
    by (simp_all add: notify_press_def notify_release_def notify_changing_def notify_extending_def
        power_button_signals_def user_activity_signals_def)
  have all: "?ok (fold (\<lambda>(c, n). case c of
         NotifyPress \<Rightarrow> notify_press
       | NotifyRelease \<Rightarrow> notify_release
       | NotifyChanging \<Rightarrow> notify_changing
       | NotifyExtending \<Rightarrow> notify_extending) cs sent)"
    if "?ok sent" for cs sent
    using that
    by (induction cs arbitrary: sent) (simp_all add: notified split: prod.split sink_call.split)
  show ?thesis unfolding signals_for_def by (rule all) simp
qed

lemma service_starts_silent:
  assumes "new_display_service ans address c kd scr = Inr sys"
  shows "service_messages sys = []"
  by (rule new_service_steps[OF assms]) simp

text \<open>
  C12. Whatever happens to the compositor after its start, what its services and sinks send has the
  types their introspection files declare: each return answers a call of a declared method with
  values of the declared types, each error answers a method call, and each signal is a declared one
  with the declared values. There are two exceptions, and no others: a call for properties the
  display object does not have is answered by a return without a value, where the file declares
  one; and the input service answers a call of Introspect, which its file does not declare.
\<close>

theorem bus_messages_conform:
  assumes "the_screen env ks w = (scr, None)"
    and "new_display_service ans address c kd scr = Inr sys" and "ks \<noteq> kd"
    and "switcher_of w = new_switcher sp" and "fork_result (os_of w) \<noteq> 0"
    and "new_event_loop True (Some fd) True = Inr (loop_of w)" and "list_all event_ok evs"
    and lib: "libdbus_ok lib" and "input_messages inp = []"
  shows "(\<exists>sys'. run_system lib intro evs sys = Inr sys' \<and>
      list_all (display_service_sends lib) (service_messages sys')) \<and>
    list_all (input_service_sends lib' intro)
      (input_messages (fold (handle_input_message lib' intro pf) ms inp)) \<and>
    list_all (signal_conforms (power_button_signals @ user_activity_signals))
      (signals_for (handle_all clock inputs new_screen_event_handler))"
proof (intro conjI)
  let ?P = "\<lambda>sys. list_all (display_service_sends lib) (service_messages sys)"
  have "switcher_wf (switcher_of w)" using assms(4) by simp
  from started_inv[OF assms(1-3) this assms(5,6)] have wf: "system_wf sys"
    using assms(3) unfolding system_wf_def by blast
  from compositor.gc_run_returns[OF this assms(7), of lib "intro"] obtain sys' where
    run: "for_each (system_step lib intro) evs sys = Inr sys'" by blast
  have "?P sys" by (simp add: service_starts_silent[OF assms(2)])
  have "?P sys'"
  proof (rule compositor.gc_run_preserves[where P = ?P, OF _ wf \<open>?P sys\<close> assms(7) run])
    fix x :: "spinner_os \<times> 'a system_event" and s s'
    assume wf: "system_wf s" and ok: "event_ok x" and "?P s" "system_step lib intro x s = Inr s'"
    obtain os ev where x: "x = (os, ev)" by force
    obtain ks kd where inv: "ks \<noteq> kd" "system_inv ks kd s" using wf by (auto simp: system_wf_def)
    show "?P s'"
      by (rule system_messages_conform[OF inv(2,1) lib ok[unfolded x] \<open>?P s\<close>
            \<open>system_step lib intro x s = Inr s'\<close>[unfolded x]])
  qed
  with run show "\<exists>sys'. run_system lib intro evs sys = Inr sys' \<and> ?P sys'"
    unfolding run_system_def by blast
next
  have "list_all (input_service_sends lib' intro)
      (input_messages (fold (handle_input_message lib' intro pf) ms s))"
    if "list_all (input_service_sends lib' intro) (input_messages s)" for s
    using that by (induction ms arbitrary: s) (simp_all add: input_message_conforms)
  then show "list_all (input_service_sends lib' intro)
      (input_messages (fold (handle_input_message lib' intro pf) ms inp))"
    using assms(9) by simp
qed (rule sink_signals_conform)

theorem bus_messages_conform_witness:
  "\<exists>sys'. run_system plain_libdbus ''xml''
      [(os_of demo_world, BusMessage (env_ok []) (properties_interface, ''Get'',
         [''com.canonical.Unity.Display'', ''ActiveOutputs''])),
       (os_of demo_world, LoopActions)] demo_system = Inr sys' \<and>
    list_all (display_service_sends plain_libdbus) (service_messages sys')"
proof -
  let ?evs = "[(os_of demo_world, BusMessage (env_ok []) (properties_interface, ''Get'',
         [''com.canonical.Unity.Display'', ''ActiveOutputs''])),
       (os_of demo_world, LoopActions)]"
  have ok: "list_all event_ok ?evs" by (simp add: event_ok_def demo_world_def)
  have "input_messages \<lparr>input_config = new_input_configuration mc tc, input_messages = []\<rparr> = []" for mc tc
    by simp
  then obtain inp :: "(string \<times> bool option) input_service" where none: "input_messages inp = []" by blast
  have ne: "(1 :: nat) \<noteq> 2" by simp
  show ?thesis
    by (rule bus_messages_conform[OF demo_starts ne demo_world_new ok plain_libdbus_ok none, THEN conjunct1])
qed

section \<open>What is declared is answered\<close>

lemma string_args:
  assumes "libdbus_ok lib" "typed_args lib signature_of" "signature_of m = replicate k TyString"
  obtains xs where "get_string_args lib k m = Some xs" "length xs = k"
  using assms unfolding libdbus_ok_def typed_args_def by blast

lemma declared_replies:
  assumes lib: "libdbus_ok lib" and typed: "typed_args lib signature_of"
    and call: "is_method_call lib m i n" and declared: "map_of display_methods (i, n) = Some (ins, outs)"
    and args: "signature_of m = ins" and "n \<noteq> ''Set''"
  shows "\<exists>vs. display_replies lib intro ao m = [MethodReturn m vs] \<and>
    (if properties_known lib m n then has_types vs outs else vs = [])"
proof -
  note other = only_member[OF lib call]
  have introspect: "?thesis" if "i = introspectable_interface" "n = ''Introspect''" "outs = [TyString]"
    using that call by (simp add: display_replies_def introspectable_interface_def properties_known_def)
  have switch: "?thesis" if "i = ''com.canonical.Unity.Display''" "n = ''TurnOn'' \<or> n = ''TurnOff''"
    "ins = [TyString]" "outs = []"
  proof -
    note h = that
    obtain xs where xs: "get_string_args lib 1 m = Some xs"
      using string_args[OF lib typed, of m 1] args h(3) by auto
    from h(2) show ?thesis
    proof
      assume "n = ''TurnOn''"
      with h(1,4) xs call other[of "''Introspect''"] show ?thesis
        by (simp add: display_replies_def properties_known_def)
    next
      assume "n = ''TurnOff''"
      with h(1,4) xs call other[of "''Introspect''"] show ?thesis
        by (simp add: display_replies_def properties_known_def)
    qed
  qed
  have get: "?thesis" if "i = properties_interface" "n = ''Get''" "ins = [TyString, TyString]" "outs = [TyVariant]"
  proof -
    note h = that
    obtain xs where xs: "get_string_args lib 2 m = Some xs" "length xs = 2"
      using string_args[OF lib typed, of m 2] args h(3) by (auto simp: numeral_2_eq_2)
    then obtain a b where "xs = [a, b]" by (auto simp: numeral_2_eq_2 length_Suc_conv)
    with xs h call other[of "''Introspect''"] other[of "''TurnOn''"] other[of "''TurnOff''"] show ?thesis
      by (simp add: display_replies_def properties_known_def properties_interface_def display_properties_def
          outputs_value_type)
  qed
  have all: "?thesis" if "i = properties_interface" "n = ''GetAll''" "ins = [TyString]" "outs = [properties_map]"
  proof -
    note h = that
    obtain xs where xs: "get_string_args lib 1 m = Some xs" "length xs = 1"
      using string_args[OF lib typed, of m 1] args h(3) by auto
    then obtain a where "xs = [a]" by (auto simp: length_Suc_conv)
    with xs h call other[of "''Introspect''"] other[of "''TurnOn''"] other[of "''TurnOff''"]
      other[of "''Get''"] show ?thesis
      by (simp add: display_replies_def properties_known_def properties_interface_def display_properties_def
          outputs_value_type)
  qed
  note mem = map_of_SomeD[OF declared, unfolded display_methods_def list.set(1,2) insert_iff empty_iff
      prod.inject]
  from mem show ?thesis
  proof (elim disjE conjE FalseE)
    assume "i = ''com.canonical.Unity.Display''" "n = ''TurnOn''" "ins = [TyString]" "outs = []"
    then show ?thesis by (intro switch disjI1)
  next
    assume "i = ''com.canonical.Unity.Display''" "n = ''TurnOff''" "ins = [TyString]" "outs = []"
    then show ?thesis by (intro switch disjI2)
  next
    assume "i = properties_interface" "n = ''Get''" "ins = [TyString, TyString]" "outs = [TyVariant]"
    then show ?thesis by (rule get)
  next
    assume "i = properties_interface" "n = ''GetAll''" "ins = [TyString]" "outs = [properties_map]"
    then show ?thesis by (rule all)
  next
    assume "n = ''Set''"
    with assms(6) show ?thesis by contradiction
  next
    assume "i = introspectable_interface" "n = ''Introspect''" "outs = [TyString]"
    then show ?thesis by (rule introspect)
  qed
qed

text \<open>
  C16. In every state of the running compositor a call of a method the display service declares, with
  arguments of the declared types, is answered by exactly one message: a return with values of the
  declared types (of nothing when it asks for properties the object does not have), except that the
  declared method that sets a property is answered by an error; and what is returned for the counts
  of active outputs has the property's own type.
\<close>

theorem declared_calls_answered:
  assumes lib: "libdbus_ok lib" and typed: "typed_args lib signature_of"
    and call: "is_method_call lib m i n" and declared: "map_of display_methods (i, n) = Some (ins, outs)"
    and args: "signature_of m = ins"
    and sys: "system_inv ks kd sys" "ks \<noteq> kd" and os: "fork_result os \<noteq> 0"
  shows "\<exists>sys' r. system_step lib intro (os, BusMessage env m) sys = Inr sys' \<and>
    service_messages sys' = service_messages sys @ [r] \<and>
    (if n = ''Set'' then r = ErrorReply m ''org.freedesktop.DBus.Error.Failed'' ''Not supported''
     else \<exists>vs. r = MethodReturn m vs \<and> (if properties_known lib m n then has_types vs outs else vs = [])) \<and>
    (\<forall>v. r = MethodReturn m [DbusVariant v] \<longrightarrow>
       (\<exists>t. map_of display_properties (''com.canonical.Unity.Display'', ''ActiveOutputs'') = Some t \<and>
          has_type v t))"
proof -
  obtain sys' where sys': "system_step lib intro (os, BusMessage env m) sys = Inr sys'"
    "service_messages sys' = service_messages sys @ display_replies lib intro (service_active_outputs sys) m"
    using message_step[OF sys os, of lib "intro" env m] by blast
  have variant: "has_type v (TyStruct [TyInt32, TyInt32])"
    if "MethodReturn m [DbusVariant v] \<in> set (display_replies lib intro (service_active_outputs sys) m)" for v
    using that
    by (auto simp: display_replies_def outputs_value_def Let_def split: if_splits option.splits)
  obtain r where r: "display_replies lib intro (service_active_outputs sys) m = [r]"
    "(if n = ''Set'' then r = ErrorReply m ''org.freedesktop.DBus.Error.Failed'' ''Not supported''
     else \<exists>vs. r = MethodReturn m vs \<and> (if properties_known lib m n then has_types vs outs else vs = []))"
  proof (cases "n = ''Set''")
    case True
    have "has_method_call_type lib m" using lib call unfolding libdbus_ok_def by blast
    with True only_member[OF lib call] that show ?thesis by (simp add: display_replies_def)
  next
    case False
    with declared_replies[OF lib typed call declared args False, of "intro" "service_active_outputs sys"]
    obtain vs where "display_replies lib intro (service_active_outputs sys) m = [MethodReturn m vs]"
      "if properties_known lib m n then has_types vs outs else vs = []" by blast
    with False that[of "MethodReturn m vs"] show ?thesis by (simp split del: if_split)
  qed
  have "\<exists>t. map_of display_properties (''com.canonical.Unity.Display'', ''ActiveOutputs'') = Some t \<and>
      has_type v t" if "r = MethodReturn m [DbusVariant v]" for v
    using that variant[of v] r(1) by (simp add: display_properties_def)
  with sys' r show ?thesis by (intro exI[of _ sys'] exI[of _ r]) simp
qed

lemma plain_typed: "typed_args plain_libdbus (\<lambda>(i, n, args). replicate (length args) TyString)"
proof -
  have "replicate k TyString \<noteq> [t]" if "t \<noteq> TyString" for k t using that by (cases k) auto
  then show ?thesis unfolding typed_args_def by (auto simp: plain_libdbus_def dest: arg_cong[where f = length])
qed

lemma demo_system_inv: "system_inv 1 2 demo_system"
  using started_inv[OF demo_starts _ _ demo_world_new(2,3)] by (simp add: demo_world_new(1))

theorem declared_calls_answered_witness:
  "\<exists>sys' vs. system_step plain_libdbus ''xml'' (os_of demo_world, BusMessage (env_ok [])
      (properties_interface, ''Get'', [''com.canonical.Unity.Display'', ''ActiveOutputs''])) demo_system = Inr sys' \<and>
    service_messages sys' = service_messages demo_system @ [MethodReturn
      (properties_interface, ''Get'', [''com.canonical.Unity.Display'', ''ActiveOutputs'']) vs] \<and>
    has_types vs [TyVariant]"
proof -
  let ?m = "(properties_interface, ''Get'', [''com.canonical.Unity.Display'', ''ActiveOutputs''])"
  have call: "is_method_call plain_libdbus ?m properties_interface ''Get''"
    by (simp add: plain_libdbus_def)
  have declared: "map_of display_methods (properties_interface, ''Get'') = Some ([TyString, TyString], [TyVariant])"
    by (simp add: display_methods_def properties_interface_def)
  have args: "(\<lambda>(i, n, args). replicate (length args) TyString) ?m = [TyString, TyString]" by simp
  have known: "properties_known plain_libdbus ?m ''Get''"
    by (simp add: properties_known_def plain_libdbus_def display_properties_def)
  have ne: "(1 :: nat) \<noteq> 2" "''Get'' \<noteq> ''Set''" by simp_all
  obtain sys' r where "system_step plain_libdbus ''xml'' (os_of demo_world, BusMessage (env_ok []) ?m) demo_system = Inr sys'"
    "service_messages sys' = service_messages demo_system @ [r]" and
    r: "if ''Get'' = ''Set'' then r = ErrorReply ?m ''org.freedesktop.DBus.Error.Failed'' ''Not supported''
      else \<exists>vs. r = MethodReturn ?m vs \<and>
        (if properties_known plain_libdbus ?m ''Get'' then has_types vs [TyVariant] else vs = [])"
    using declared_calls_answered[OF plain_libdbus_ok plain_typed call declared args demo_system_inv ne(1)
        demo_world_new(2), of "''xml''" "env_ok []"] by blast
  moreover obtain vs where "r = MethodReturn ?m vs" "has_types vs [TyVariant]"
    using r ne(2) known by (simp only: if_False if_True) blast
  ultimately show ?thesis by blast
qed

section \<open>The power key reaches the bus\<close>

definition power_signals :: "unit bus_message list \<Rightarrow> string list" where
  "power_signals ms =
     List.map_filter (\<lambda>msg. case msg of
       Signal path i n vs \<Rightarrow> if i = ''com.canonical.Unity.PowerButton'' then Some n else None
     | _ \<Rightarrow> None) ms"

definition activity_signals :: "unit bus_message list \<Rightarrow> dbus_value list" where
  "activity_signals ms =
     concat (map (\<lambda>msg. case msg of
       Signal path i n vs \<Rightarrow> if i = ''com.canonical.Unity.UserActivity'' then vs else []
     | _ \<Rightarrow> []) ms)"

text \<open>What the keys mean for the listener on the bus.\<close>

definition power_signal_of :: "mir_event \<Rightarrow> string list" where
  "power_signal_of ev =
     (case ev of
        InputEvent (KeyEvent scan_code action) \<Rightarrow>
          if scan_code \<noteq> 116 then []
          else (case action of KeyDown \<Rightarrow> [''Press''] | KeyUp \<Rightarrow> [''Release''] | KeyRepeat \<Rightarrow> [])
      | _ \<Rightarrow> [])"

lemma sink_signal_kinds:
  "power_signals (notify_press ms) = power_signals ms @ [''Press'']"
  "power_signals (notify_release ms) = power_signals ms @ [''Release'']"
  "power_signals (notify_changing ms) = power_signals ms"
  "power_signals (notify_extending ms) = power_signals ms"
  "activity_signals (notify_press ms) = activity_signals ms"
  "activity_signals (notify_release ms) = activity_signals ms"
  "activity_signals (notify_changing ms) = activity_signals ms @ [DbusInt32 0]"
  "activity_signals (notify_extending ms) = activity_signals ms @ [DbusInt32 1]"
  by (simp_all add: power_signals_def activity_signals_def notify_press_def notify_release_def
      notify_changing_def notify_extending_def List.map_filter_def)

text \<open>Both readings of the signals follow from the sink calls.\<close>

lemma signals_by_kind:
  "power_signals (signals_for h) =
     map (\<lambda>c. if c = NotifyPress then ''Press'' else ''Release'') (power_calls h)"
  "activity_signals (signals_for h) =
     map (\<lambda>c. DbusInt32 (if c = NotifyChanging then 0 else 1))
       (filter (\<lambda>c. c = NotifyChanging \<or> c = NotifyExtending) (map fst (sink_calls h)))"
proof -
  let ?send = "\<lambda>(c, n). case c of NotifyPress \<Rightarrow> notify_press | NotifyRelease \<Rightarrow> notify_release
    | NotifyChanging \<Rightarrow> notify_changing | NotifyExtending \<Rightarrow> notify_extending"
  have "power_signals (fold ?send cs []) = map (\<lambda>c. if c = NotifyPress then ''Press'' else ''Release'')
        (filter (\<lambda>c. c = NotifyPress \<or> c = NotifyRelease) (map fst cs)) \<and>
      activity_signals (fold ?send cs []) = map (\<lambda>c. DbusInt32 (if c = NotifyChanging then 0 else 1))
        (filter (\<lambda>c. c = NotifyChanging \<or> c = NotifyExtending) (map fst cs))" for cs :: "(sink_call \<times> nat) list"
    by (induction cs rule: rev_induct)
      (auto simp: sink_signal_kinds power_signals_def[of "[]"] activity_signals_def[of "[]"] map_filter_simps
        split: sink_call.split)
  then show "power_signals (signals_for h) =
     map (\<lambda>c. if c = NotifyPress then ''Press'' else ''Release'') (power_calls h)"
    "activity_signals (signals_for h) = map (\<lambda>c. DbusInt32 (if c = NotifyChanging then 0 else 1))
       (filter (\<lambda>c. c = NotifyChanging \<or> c = NotifyExtending) (map fst (sink_calls h)))"
    by (simp_all add: signals_for_def power_calls_def)
qed

lemma handle_keeps_power:
  "map (\<lambda>c. if c = NotifyPress then ''Press'' else ''Release'') (power_calls (handle_all clock events h)) =
   map (\<lambda>c. if c = NotifyPress then ''Press'' else ''Release'') (power_calls h) @ concat (map power_signal_of events)"
proof -
  have one: "map (\<lambda>c. if c = NotifyPress then ''Press'' else ''Release'') (power_call ev) = power_signal_of ev" for ev
    by (auto simp: power_signal_of_def key_power_def split: mir_event.split input_event.split keyboard_action.split)
  show ?thesis
    unfolding handle_all_def
    by (induction events arbitrary: h) (simp_all add: power_calls_handle one)
qed

lemma count_stamps:
  "length (filter (\<lambda>v. v = DbusInt32 0) (activity_signals (signals_for h))) = length (stamps_of NotifyChanging h)"
  "length (filter (\<lambda>v. v = DbusInt32 1) (activity_signals (signals_for h))) = length (stamps_of NotifyExtending h)"
proof -
  have "length (filter (\<lambda>v. v = DbusInt32 0) (map (\<lambda>c. DbusInt32 (if c = NotifyChanging then 0 else 1))
      (filter (\<lambda>c. c = NotifyChanging \<or> c = NotifyExtending) (map fst cs)))) =
      length (filter (\<lambda>(d, n). d = NotifyChanging) cs) \<and>
    length (filter (\<lambda>v. v = DbusInt32 1) (map (\<lambda>c. DbusInt32 (if c = NotifyChanging then 0 else 1))
      (filter (\<lambda>c. c = NotifyChanging \<or> c = NotifyExtending) (map fst cs)))) =
      length (filter (\<lambda>(d, n). d = NotifyExtending) cs)" for cs :: "(sink_call \<times> nat) list"
    by (induction cs) auto
  then show "length (filter (\<lambda>v. v = DbusInt32 0) (activity_signals (signals_for h))) =
      length (stamps_of NotifyChanging h)"
    "length (filter (\<lambda>v. v = DbusInt32 1) (activity_signals (signals_for h))) =
      length (stamps_of NotifyExtending h)"
    by (simp_all add: signals_by_kind stamps_of_def)
qed

text \<open>
  C25. From the keyboard to the bus: the power button's signals are exactly the presses and releases
  of the power key, in order, none dropped, delayed behind the rate limit or repeated with the key;
  the activity signals of each kind are as many as the (rate limited) notifications of that kind; no
  event is consumed, and the volume keys send nothing, so playing music does not keep the screen on.
\<close>

theorem keys_reach_the_bus:
  "power_signals (signals_for (handle_all clock events new_screen_event_handler)) =
     concat (map power_signal_of events) \<and>
   length (filter (\<lambda>v. v = DbusInt32 (activity_value ChangingPowerState)) (activity_signals (signals_for h))) =
     length (stamps_of NotifyChanging h) \<and>
   length (filter (\<lambda>v. v = DbusInt32 (activity_value ExtendingPowerState)) (activity_signals (signals_for h))) =
     length (stamps_of NotifyExtending h) \<and>
   (\<forall>e. \<not> fst (handle clock e h)) \<and>
   (\<forall>a. snd (handle clock (InputEvent (KeyEvent 114 a)) h) = h \<and>
        snd (handle clock (InputEvent (KeyEvent 115 a)) h) = h)"
proof -
  have "power_calls new_screen_event_handler = []"
    by (simp add: power_calls_def new_screen_event_handler_def)
  then have "power_signals (signals_for (handle_all clock events new_screen_event_handler)) =
      concat (map power_signal_of events)"
    by (simp add: signals_by_kind(1) handle_keeps_power)
  moreover have "\<not> fst (handle clock e h)" for e by (simp add: handle_def split: mir_event.split)
  ultimately show ?thesis
    by (simp add: count_stamps handle_def key_power_def key_volume_down_def key_volume_up_def)
qed

end
