(* ===== verification/Server.thy ===== *)
theory Server
  imports Usc_Session
begin

text \<open>
  \<open>usc::Server\<close> (\<open>src/server.{h,cpp}\<close>): the options it declares and reads, the objects it hands to
  Mir, and the accessors \<open>the_...()\<close> that build each component on first use from the components it
  needs. What the built objects do is modelled in their own theories; here it matters which are
  built, with which arguments and in which order.
\<close>

section \<open>Options\<close>

text \<open>Mir parses the command line and the configuration file: a map from the names given (or
  declared with a default) to values, read by \<open>is_set\<close> and \<open>get\<close>.\<close>

datatype option_value = NullOption | IntOption int | BoolOption bool | StringOption string

type_synonym options = "string \<Rightarrow> option_value option"

datatype option_type = IntegerType | NullType | BooleanType | StringType

definition is_set :: "options \<Rightarrow> string \<Rightarrow> bool" where
  "is_set opts name \<longleftrightarrow> opts name \<noteq> None"

definition get_int :: "options \<Rightarrow> string \<Rightarrow> int \<Rightarrow> int" where
  "get_int opts name d = (case opts name of Some (IntOption i) \<Rightarrow> i | _ \<Rightarrow> d)"

definition get_bool :: "options \<Rightarrow> string \<Rightarrow> bool \<Rightarrow> bool" where
  "get_bool opts name d = (case opts name of Some (BoolOption b) \<Rightarrow> b | _ \<Rightarrow> d)"

definition get_text :: "options \<Rightarrow> string \<Rightarrow> string \<Rightarrow> string" where
  "get_text opts name d = (case opts name of Some (StringOption t) \<Rightarrow> t | _ \<Rightarrow> d)"

definition dm_from_fd :: string where "dm_from_fd = ''from-dm-fd''"

definition dm_to_fd :: string where "dm_to_fd = ''to-dm-fd''"

definition dm_stub :: string where "dm_stub = ''debug-without-dm''"

definition dm_stub_active :: string where "dm_stub_active = ''debug-active-session-name''"

text \<open>The options the constructor declares, with the default value where there is one; the last
  is declared by \<open>add_display_configuration_options_to\<close>.\<close>

definition configuration_options :: "(string \<times> option_type \<times> string option) list" where
  "configuration_options =
     [(dm_from_fd, IntegerType, None), (dm_to_fd, IntegerType, None), (dm_stub, NullType, None),
      (dm_stub_active, StringType, Some ''nested-mir@:/run/user/1000/mir_socket''),
      (''blacklist'', StringType, None), (''version'', NullType, None),
      (''spinner'', StringType, None), (''public-socket'', BooleanType, None),
      (''enable-hardware-cursor'', BooleanType, None), (''display-config'', StringType, Some ''sidebyside'')]"

definition with_defaults :: "options \<Rightarrow> options" where
  "with_defaults given name =
     (case given name of
        Some v \<Rightarrow> Some v
      | None \<Rightarrow>
          (case map_of configuration_options name of
             Some (t, Some d) \<Rightarrow> Some (StringOption d)
           | _ \<Rightarrow> None))"

definition show_version :: "options \<Rightarrow> bool" where
  "show_version opts \<longleftrightarrow> is_set opts ''version''"

definition blacklist :: "options \<Rightarrow> string" where
  "blacklist opts = get_text opts ''blacklist'' ''''"

definition public_socket :: "options \<Rightarrow> bool" where
  "public_socket opts \<longleftrightarrow> \<not> is_set opts ''no-file'' \<and> get_bool opts ''public-socket'' True"

definition get_socket_file :: "options \<Rightarrow> string" where
  "get_socket_file opts = get_text opts ''file'' ''/tmp/mir_socket''"

definition enable_hardware_cursor :: "options \<Rightarrow> bool" where
  "enable_hardware_cursor opts \<longleftrightarrow> get_bool opts ''enable-hardware-cursor'' False"

definition spinner_executable :: "options \<Rightarrow> string" where
  "spinner_executable opts = get_text opts ''spinner'' ''''"

text \<open>\<open>getenv ("DBUS_SYSTEM_BUS_ADDRESS")\<close> is the argument.\<close>

definition dbus_bus_address :: "string option \<Rightarrow> string" where
  "dbus_bus_address bus =
     (case bus of None \<Rightarrow> ''unix:path=/var/run/dbus/system_bus_socket'' | Some a \<Rightarrow> a)"

section \<open>What Mir is given\<close>

datatype cursor_listener = DefaultCursorListener | NullCursorListener

definition wrapped_cursor_listener :: "options \<Rightarrow> cursor_listener" where
  "wrapped_cursor_listener opts =
     (if enable_hardware_cursor opts then DefaultCursorListener else NullCursorListener)"

datatype display_policy = SideBySidePolicy | SinglePolicy | WrappedPolicy

definition display_configuration_policy :: "options \<Rightarrow> display_policy" where
  "display_configuration_policy opts =
     (let display_layout = get_text opts ''display-config'' '''';
          layout_selector = WrappedPolicy
      in if display_layout = ''sidebyside'' then SideBySidePolicy
         else if display_layout = ''single'' then SinglePolicy
         else layout_selector)"

text \<open>A cookie is its time stamp and its bytes.\<close>

definition stub_cookie :: "nat \<times> nat list" where
  "stub_cookie = (0, replicate 29 0)"

definition make_cookie :: "nat \<Rightarrow> nat \<times> nat list" where
  "make_cookie timestamp = stub_cookie"

definition make_cookie_from :: "nat list \<Rightarrow> nat \<times> nat list" where
  "make_cookie_from raw_cookie = stub_cookie"

text \<open>The status listener tells the focused session, if it still exists.\<close>

datatype lifecycle_call = SetLifecycleState nat lifecycle_state
and lifecycle_state = WillSuspend | Resumed

definition paused :: "nat option \<Rightarrow> lifecycle_call list" where
  "paused weak_active_session =
     (case weak_active_session of
        Some active_session \<Rightarrow> [SetLifecycleState active_session WillSuspend] | None \<Rightarrow> [])"

definition resumed :: "nat option \<Rightarrow> lifecycle_call list" where
  "resumed weak_active_session =
     (case weak_active_session of
        Some active_session \<Rightarrow> [SetLifecycleState active_session Resumed] | None \<Rightarrow> [])"

text \<open>Mir's notifications to the listener \<open>ServerStatusListener\<close>, which asks the focus controller for
  the focused session each time; \<open>focused_session\<close> is the answer, none if it has expired.\<close>

datatype status_event = Paused | ResumedEvent | Started | ReadyForUserInput | StopReceivingInput

fun status_listener :: "nat option \<Rightarrow> status_event \<Rightarrow> lifecycle_call list" where
  "status_listener focused_session Paused = paused focused_session"
| "status_listener focused_session ResumedEvent = resumed focused_session"
| "status_listener focused_session Started = []"
| "status_listener focused_session ReadyForUserInput = []"
| "status_listener focused_session StopReceivingInput = []"

text \<open>What is printed when Mir meets arguments it does not know, which do not end the start-up.\<close>

definition ignore_unknown_arguments :: "string list \<Rightarrow> string" where
  "ignore_unknown_arguments args =
     ''Warning: ignoring unrecognised arguments:'' @ concat (map (\<lambda>a. CHR '' '' # a) args) @ [CHR 0x0A]"

section \<open>The constructor\<close>

text \<open>The calls it makes on \<open>mir::Server\<close>; what a builder given to Mir does is modelled above and
  below. Mir parses the command line and the file in \<open>apply_settings\<close>.\<close>

datatype server_call =
    AddConfigurationOption string option_type "string option"
  | WrapDisplayConfigurationPolicy
  | SetCommandLine "string list"
  | SetCommandLineHandler
  | WrapCursorListener
  | OverrideServerStatusListener
  | OverrideWindowManagerBuilder
  | OverrideCookieAuthority
  | SetConfigFilename string
  | ApplySettings

definition add_display_configuration_options_to :: "server_call list" where
  "add_display_configuration_options_to =
     [AddConfigurationOption ''display-config'' StringType (Some ''sidebyside''),
      WrapDisplayConfigurationPolicy]"

definition new_server :: "string list \<Rightarrow> server_call list" where
  "new_server argv =
     [AddConfigurationOption dm_from_fd IntegerType None,
      AddConfigurationOption dm_to_fd IntegerType None,
      AddConfigurationOption dm_stub NullType None,
      AddConfigurationOption dm_stub_active StringType (Some ''nested-mir@:/run/user/1000/mir_socket''),
      AddConfigurationOption ''blacklist'' StringType None,
      AddConfigurationOption ''version'' NullType None,
      AddConfigurationOption ''spinner'' StringType None,
      AddConfigurationOption ''public-socket'' BooleanType None,
      AddConfigurationOption ''enable-hardware-cursor'' BooleanType None] @
     add_display_configuration_options_to @
     [SetCommandLine argv, SetCommandLineHandler, WrapCursorListener, OverrideServerStatusListener,
      OverrideWindowManagerBuilder, OverrideCookieAuthority,
      SetConfigFilename ''unity-system-compositor.conf'', ApplySettings]"

text \<open>The options known when the settings are applied are those of the table, each declared once.\<close>

fun options_before_settings :: "server_call list \<Rightarrow> (string \<times> option_type \<times> string option) list" where
  "options_before_settings [] = []"
| "options_before_settings (ApplySettings # cs) = []"
| "options_before_settings (AddConfigurationOption n t d # cs) = (n, t, d) # options_before_settings cs"
| "options_before_settings (c # cs) = options_before_settings cs"

lemma declared_options:
  "options_before_settings (new_server argv) = configuration_options"
  "distinct (map fst configuration_options)"
  by (simp_all add: new_server_def add_display_configuration_options_to_def configuration_options_def
      dm_from_fd_def dm_to_fd_def dm_stub_def dm_stub_active_def)

section \<open>Components built on first use\<close>

datatype startup_event =
    BuildSpinner string string
  | BuildSwitcher
  | BuildAsioDM int int
  | BuildNullDM string
  | BuildInputConfiguration
  | BuildScreen
  | RegisterInterest
  | SetScreen
  | BuildClock
  | BuildEventLoop
  | BuildConnectionThread
  | BuildPowerButtonSink string
  | BuildUserActivitySink string
  | BuildScreenEventHandler
  | BuildDisplayService string
  | BuildInputService string
  | BuildWindowManager
  | PrintVersion
  | ChmodSocket string
  | StartDM
  | AppendEventFilter
  | RunMainLoop

datatype slot =
    SpinnerSlot | SwitcherSlot | DMSlot | InputConfigurationSlot | ScreenSlot | EventHandlerSlot
  | ClockSlot | EventLoopSlot | ThreadSlot | DisplayServiceSlot | PowerButtonSlot
  | UserActivitySlot | InputServiceSlot

text \<open>
  The members of type \<open>mir::CachedPtr\<close>: Mir's documented behaviour, that a component kept there is
  returned again, is \<open>cached_ptr_ok\<close>.
\<close>

record 'c cached_ptr =
  is_cached :: "slot \<Rightarrow> 'c \<Rightarrow> bool"
  keep :: "slot \<Rightarrow> 'c \<Rightarrow> 'c"

definition cached_ptr_ok :: "'c cached_ptr \<Rightarrow> bool" where
  "cached_ptr_ok cp \<longleftrightarrow> (\<forall>a b c. is_cached cp a (keep cp b c) \<longleftrightarrow> a = b \<or> is_cached cp a c)"

definition slot_list :: "slot list cached_ptr" where
  "slot_list = \<lparr>is_cached = (\<lambda>a c. a \<in> set c), keep = (#)\<rparr>"

lemma slot_list_ok: "cached_ptr_ok slot_list"
  by (auto simp: cached_ptr_ok_def slot_list_def)

text \<open>The environment: the bus address in it, what each step throws, and whether Mir asks for the
  window manager before it runs the init callbacks.\<close>

record server_env =
  bus_variable :: "string option"
  throws :: "startup_event \<Rightarrow> fault option"
  window_manager_first :: bool

record 'c server_state =
  cache :: 'c
  startup_log :: "startup_event list"

type_synonym 'c builder = "'c server_state \<Rightarrow> 'c server_state outcome"

definition emit :: "server_env \<Rightarrow> startup_event \<Rightarrow> 'c builder" where
  "emit env ev s = (s\<lparr>startup_log := startup_log s @ [ev]\<rparr>, throws env ev)"

definition cached ::
  "'c cached_ptr \<Rightarrow> slot \<Rightarrow> 'c builder \<Rightarrow> 'c builder" where
  "cached cp sl build s =
     (if is_cached cp sl (cache s) then (s, None)
      else then_do (build s) (\<lambda>s. (s\<lparr>cache := keep cp sl (cache s)\<rparr>, None)))"

definition the_spinner ::
  "'c cached_ptr \<Rightarrow> server_env \<Rightarrow> options \<Rightarrow> 'c builder" where
  "the_spinner cp env opts =
     cached cp SpinnerSlot (emit env (BuildSpinner (spinner_executable opts) (get_socket_file opts)))"

definition the_session_switcher ::
  "'c cached_ptr \<Rightarrow> server_env \<Rightarrow> options \<Rightarrow> 'c builder" where
  "the_session_switcher cp env opts =
     cached cp SwitcherSlot (\<lambda>s. then_do (the_spinner cp env opts s) (emit env BuildSwitcher))"

definition the_dm_message_handler ::
  "'c cached_ptr \<Rightarrow> server_env \<Rightarrow> options \<Rightarrow> 'c builder" where
  "the_dm_message_handler cp env opts = the_session_switcher cp env opts"

definition the_dm_connection ::
  "'c cached_ptr \<Rightarrow> server_env \<Rightarrow> options \<Rightarrow> 'c builder" where
  "the_dm_connection cp env opts =
     cached cp DMSlot (\<lambda>s.
       if is_set opts dm_from_fd \<and> is_set opts dm_to_fd then
         then_do (the_dm_message_handler cp env opts s)
           (emit env (BuildAsioDM (get_int opts dm_from_fd (- 1)) (get_int opts dm_to_fd (- 1))))
       else if is_set opts dm_stub then
         then_do (the_dm_message_handler cp env opts s)
           (emit env (BuildNullDM (get_text opts dm_stub_active '''')))
       else (s, Some (AbnormalExit ''to and from FDs are required for display manager'')))"

definition the_input_configuration ::
  "'c cached_ptr \<Rightarrow> server_env \<Rightarrow> 'c builder" where
  "the_input_configuration cp env = cached cp InputConfigurationSlot (emit env BuildInputConfiguration)"

definition the_usc_screen ::
  "'c cached_ptr \<Rightarrow> server_env \<Rightarrow> options \<Rightarrow> 'c builder" where
  "the_usc_screen cp env opts =
     cached cp ScreenSlot (\<lambda>s.
       then_do (emit env BuildScreen s) (\<lambda>s.
       then_do (emit env RegisterInterest s) (\<lambda>s.
       then_do (the_session_switcher cp env opts s) (emit env SetScreen))))"

definition the_power_button_event_sink ::
  "'c cached_ptr \<Rightarrow> server_env \<Rightarrow> 'c builder" where
  "the_power_button_event_sink cp env =
     cached cp PowerButtonSlot (emit env (BuildPowerButtonSink (dbus_bus_address (bus_variable env))))"

definition the_user_activity_event_sink ::
  "'c cached_ptr \<Rightarrow> server_env \<Rightarrow> 'c builder" where
  "the_user_activity_event_sink cp env =
     cached cp UserActivitySlot (emit env (BuildUserActivitySink (dbus_bus_address (bus_variable env))))"

definition the_clock :: "'c cached_ptr \<Rightarrow> server_env \<Rightarrow> 'c builder" where
  "the_clock cp env = cached cp ClockSlot (emit env BuildClock)"

text \<open>C++ leaves the order of a call's arguments open; here they are evaluated from the left.\<close>

definition the_screen_event_handler ::
  "'c cached_ptr \<Rightarrow> server_env \<Rightarrow> 'c builder" where
  "the_screen_event_handler cp env =
     cached cp EventHandlerSlot (\<lambda>s.
       then_do (the_power_button_event_sink cp env s) (\<lambda>s.
       then_do (the_user_activity_event_sink cp env s) (\<lambda>s.
       then_do (the_clock cp env s) (emit env BuildScreenEventHandler))))"

definition the_dbus_event_loop ::
  "'c cached_ptr \<Rightarrow> server_env \<Rightarrow> 'c builder" where
  "the_dbus_event_loop cp env = cached cp EventLoopSlot (emit env BuildEventLoop)"

definition the_dbus_connection_thread ::
  "'c cached_ptr \<Rightarrow> server_env \<Rightarrow> 'c builder" where
  "the_dbus_connection_thread cp env =
     cached cp ThreadSlot (\<lambda>s. then_do (the_dbus_event_loop cp env s) (emit env BuildConnectionThread))"

definition the_unity_display_service ::
  "'c cached_ptr \<Rightarrow> server_env \<Rightarrow> options \<Rightarrow> 'c builder" where
  "the_unity_display_service cp env opts =
     cached cp DisplayServiceSlot (\<lambda>s.
       then_do (the_dbus_event_loop cp env s) (\<lambda>s.
       then_do (the_usc_screen cp env opts s)
         (emit env (BuildDisplayService (dbus_bus_address (bus_variable env))))))"

definition the_unity_input_service ::
  "'c cached_ptr \<Rightarrow> server_env \<Rightarrow> 'c builder" where
  "the_unity_input_service cp env =
     cached cp InputServiceSlot (\<lambda>s.
       then_do (the_dbus_event_loop cp env s) (\<lambda>s.
       then_do (the_input_configuration cp env s)
         (emit env (BuildInputService (dbus_bus_address (bus_variable env))))))"

text \<open>The window manager builder the constructor registers.\<close>

definition window_manager_builder ::
  "'c cached_ptr \<Rightarrow> server_env \<Rightarrow> options \<Rightarrow> 'c builder" where
  "window_manager_builder cp env opts s =
     then_do (the_session_switcher cp env opts s) (emit env BuildWindowManager)"

end
