(* ===== verification/Window_Manager.thy ===== *)
theory Window_Manager
  imports Switcher_Runs Dm_Props Server
begin

text \<open>
  Who drives the session switcher: the window manager's hooks (\<open>src/window_manager.{h,cpp}\<close>), which
  Mir calls as clients come and go, and the display manager, whose messages reach it through
  \<open>DMMessageHandler\<close>, or the stub connection of \<open>src/server.cpp\<close> when there is no display manager.
\<close>

section \<open>The hooks\<close>

definition on_session_added :: "spinner_os \<Rightarrow> scene_session \<Rightarrow> switcher \<Rightarrow> switcher res" where
  "on_session_added os sc s =
     (let us = \<lparr>scene_session = sc\<rparr> in add os us (process_id sc) s)"

definition on_session_removed :: "spinner_os \<Rightarrow> scene_session \<Rightarrow> switcher \<Rightarrow> switcher res" where
  "on_session_removed os sc s = remove os sc s"

definition on_session_ready :: "spinner_os \<Rightarrow> scene_session \<Rightarrow> switcher \<Rightarrow> switcher res" where
  "on_session_ready os sc s = mark_ready os (scene_id sc) s"

section \<open>The display manager's calls\<close>

text \<open>The message handler the server gives to the connection is the switcher.\<close>

fun handle_dm_call :: "spinner_os \<Rightarrow> dm_call \<Rightarrow> switcher \<Rightarrow> switcher res" where
  "handle_dm_call os (CallSetActiveSession n) s = set_active_session os n s"
| "handle_dm_call os (CallSetNextSession n) s = set_next_session os n s"

text \<open>\<open>NullDMMessageHandler::start\<close>, with the client name it was built with.\<close>

definition null_dm_start :: "string \<Rightarrow> spinner_os \<Rightarrow> switcher \<Rightarrow> switcher res" where
  "null_dm_start client_name os s = set_active_session os client_name s"

section \<open>A session's life\<close>

lemma update_keeps:
  assumes "switcher_wf s" "fork_result os \<noteq> 0"
  shows "\<exists>s'. update_displayed_sessions os s = Inr s' \<and> switcher_wf s' \<and> sessions s' = sessions s \<and>
    active_name s' = active_name s \<and> next_name s' = next_name s \<and> spinner_name s' = spinner_name s \<and>
    has_active_outputs s' = has_active_outputs s \<and> (\<exists>cs. calls s' = calls s @ cs)"
proof -
  obtain sp where "update_displayed_sessions os s = Inr (planned_state sp s)"
    using update_returns[OF assms] .
  then show ?thesis using assms(1) by (simp add: planned_state_def switcher_wf_def)
qed

text \<open>An operation that prepares a state updates the display from it and keeps its sessions.\<close>

lemma step_keeps:
  assumes "switcher_wf s" "fork_result os \<noteq> 0" and "prepared op s = Some t"
  shows "\<exists>s' cs. switcher_step (os, op) s = Inr s' \<and> switcher_wf s' \<and> sessions s' = sessions t \<and>
    active_name s' = active_name t \<and> next_name s' = next_name t \<and> calls s' = calls t @ cs"
  using update_keeps[OF prepared_wf[OF assms(1,3)] assms(2)] by (auto simp: step_prepared assms(3))

lemma mark_one_ready:
  assumes "\<forall>(k, info) \<in> set m. \<forall>us. session info = Some us \<longrightarrow> \<not> corresponds_to us i"
  shows "map (\<lambda>(k, info). (k, case session info of
      Some us \<Rightarrow> if corresponds_to us i then info\<lparr>ready := True\<rparr> else info | None \<Rightarrow> info)) m = m"
  using assms by (induction m) (auto split: option.splits)

text \<open>
  C19. A client that Mir reports opened, ready and closed leaves the switcher tracking exactly the
  sessions it tracked before, whatever became of the spinner; on the way the client was tracked
  under its name, not ready and then ready, and the last thing done to it before it was forgotten
  was to hide it.
\<close>

theorem session_comes_and_goes:
  assumes wf: "switcher_wf s" and os: "fork_result os \<noteq> 0" "fork_result os2 \<noteq> 0" "fork_result os3 \<noteq> 0"
    and new: "find_key (sessions s) (scene_name sc) = None"
    and fresh: "\<forall>n us. tracked s n = Some us \<longrightarrow> \<not> corresponds_to us (scene_id sc)"
  shows "\<exists>s1 s2 s3. on_session_added os sc s = Inr s1 \<and> on_session_ready os2 sc s1 = Inr s2 \<and>
    on_session_removed os3 sc s2 = Inr s3 \<and>
    sessions s1 = assign_key (scene_name sc) \<lparr>session = Some \<lparr>scene_session = sc\<rparr>, ready = False\<rparr> (sessions s) \<and>
    sessions s2 = assign_key (scene_name sc) \<lparr>session = Some \<lparr>scene_session = sc\<rparr>, ready = True\<rparr> (sessions s) \<and>
    sessions s3 = sessions s \<and> switcher_wf s3 \<and> (\<exists>cs. calls s3 = calls s2 @ Hide \<lparr>scene_session = sc\<rparr> # cs)"
proof -
  let ?us = "\<lparr>scene_session = sc\<rparr>" and ?n = "scene_name sc"
  obtain s1 where s1: "on_session_added os sc s = Inr s1" "switcher_wf s1"
    "sessions s1 = assign_key ?n \<lparr>session = Some ?us, ready = False\<rparr> (sessions s)"
    using step_keeps[OF wf os(1), of "Add ?us (process_id sc)"]
    by (auto simp: on_session_added_def Let_def session_name_def session_info_of_def)
  have others: "\<forall>(k, info) \<in> set (sessions s). \<forall>us. session info = Some us \<longrightarrow> \<not> corresponds_to us (scene_id sc)"
    proof (clarsimp simp: std_map.elems_lookup[OF wf[unfolded switcher_wf_def, THEN conjunct1]])
    fix k info us
    assume "find_key (sessions s) k = Some info" "session info = Some us" "corresponds_to us (scene_id sc)"
    moreover from this have "tracked s k = Some us" by (simp add: tracked_def)
    ultimately show False using fresh by blast
  qed
  have "corresponds_to ?us (scene_id sc)" by (simp add: corresponds_to_def)
  then obtain s2 where s2: "on_session_ready os2 sc s1 = Inr s2" "switcher_wf s2"
    "sessions s2 = assign_key ?n \<lparr>session = Some ?us, ready = True\<rparr> (sessions s)"
    using step_keeps[OF s1(2) os(2), of "MarkReady (scene_id sc)"] mark_one_ready[OF others]
    by (auto simp: on_session_ready_def s1(3) map_values_assign)
  have "tracked s2 ?n = Some ?us" by (simp add: tracked_def s2(3) std_map.lookup_put)
  then obtain t where t: "prepared (Remove sc) s2 = Some t" "calls t = calls s2 @ [Hide ?us]"
    "sessions t = erase_key ?n (sessions s2)"
    by (simp add: corresponds_to_def)
  then obtain s3 cs where s3: "on_session_removed os3 sc s2 = Inr s3" "switcher_wf s3"
    "sessions s3 = sessions s" "calls s3 = calls s2 @ Hide ?us # cs"
    using step_keeps[OF s2(2) os(3) t(1)] wf new
    by (auto simp: on_session_removed_def s2(3) erase_assigned switcher_wf_def)
  with s1 s2 show ?thesis by blast
qed

theorem session_comes_and_goes_witness:
  "\<exists>s3. on_session_removed \<lparr>fork_result = 7, exec_succeeds = True\<rparr>
      \<lparr>scene_id = 1, scene_name = ''a'', process_id = 5\<rparr>
      (case on_session_added \<lparr>fork_result = 7, exec_succeeds = True\<rparr>
        \<lparr>scene_id = 1, scene_name = ''a'', process_id = 5\<rparr>
        (new_switcher (new_external_spinner '''' ''sock'')) of Inr s1 \<Rightarrow>
          (case on_session_ready \<lparr>fork_result = 7, exec_succeeds = True\<rparr>
             \<lparr>scene_id = 1, scene_name = ''a'', process_id = 5\<rparr> s1 of Inr s2 \<Rightarrow> s2)) = Inr s3 \<and>
    sessions s3 = []"
proof -
  let ?os = "\<lparr>fork_result = 7, exec_succeeds = True\<rparr>"
    and ?sc = "\<lparr>scene_id = 1, scene_name = ''a'', process_id = 5\<rparr>"
    and ?s = "new_switcher (new_external_spinner '''' ''sock'')"
  have "switcher_wf ?s" "find_key (sessions ?s) (scene_name ?sc) = None"
    "\<forall>n us. tracked ?s n = Some us \<longrightarrow> \<not> corresponds_to us (scene_id ?sc)"
    by (simp_all add: switcher_wf_def new_switcher_def tracked_def)
  from session_comes_and_goes[OF this(1) _ _ _ this(2,3), of ?os ?os ?os] show ?thesis
    by (auto simp: new_switcher_def)
qed

section \<open>What the display manager asks for\<close>

definition active_asked :: "dm_call list \<Rightarrow> string list" where
  "active_asked cs = List.map_filter (\<lambda>c. case c of CallSetActiveSession n \<Rightarrow> Some n | _ \<Rightarrow> None) cs"

definition next_asked :: "dm_call list \<Rightarrow> string list" where
  "next_asked cs = List.map_filter (\<lambda>c. case c of CallSetNextSession n \<Rightarrow> Some n | _ \<Rightarrow> None) cs"

lemma dm_calls_followed:
  assumes "switcher_wf s" "fork_result os \<noteq> 0"
  shows "\<exists>s'. for_each (handle_dm_call os) cs s = Inr s' \<and> switcher_wf s' \<and> sessions s' = sessions s \<and>
    active_name s' = last (active_name s # active_asked cs) \<and>
    next_name s' = last (next_name s # next_asked cs)"
  using assms(1)
proof (induction cs arbitrary: s)
  case Nil
  then show ?case by (simp add: active_asked_def next_asked_def map_filter_simps)
next
  case (Cons c cs)
  show ?case
  proof (cases c)
    case (CallSetActiveSession n)
    with step_keeps[OF Cons.prems assms(2), of "SetActiveSession n"] obtain s1 where
      "handle_dm_call os c s = Inr s1" "switcher_wf s1" "sessions s1 = sessions s"
      "active_name s1 = n" "next_name s1 = next_name s" by auto
    with Cons.IH[of s1] CallSetActiveSession show ?thesis
      by (auto simp: active_asked_def next_asked_def map_filter_simps)
  next
    case (CallSetNextSession n)
    with step_keeps[OF Cons.prems assms(2), of "SetNextSession n"] obtain s1 where
      "handle_dm_call os c s = Inr s1" "switcher_wf s1" "sessions s1 = sessions s"
      "active_name s1 = active_name s" "next_name s1 = n" by auto
    with Cons.IH[of s1] CallSetNextSession show ?thesis
      by (auto simp: active_asked_def next_asked_def map_filter_simps)
  qed
qed

text \<open>
  Whatever bytes the display manager sends, the connection and the switcher behind it handle
  them without fault, and the switcher ends with the active and the next session named last in the
  messages cut out of the stream (or as before, if none names one), tracking the same sessions. The
  stub connection has the same effect as a stream that names its client.
\<close>

theorem display_manager_drives_switcher:
  assumes "exact_reader rd contents sent" and "accepting_writer wr contents sent" and "length hdr = 4"
    and "switcher_wf s" and "fork_result os \<noteq> 0"
  shows "\<exists>d s'. start rd wr (new_dm_connection hdr p) = Some (Inr d) \<and>
    for_each (handle_dm_call os) (dm_calls d) s = Inr s' \<and> sessions s' = sessions s \<and>
    (let asked = calls_for (parse_stream (contents p)) []
     in active_name s' = last (active_name s # active_asked asked) \<and>
        next_name s' = last (next_name s # next_asked asked) \<and>
        (asked = [CallSetActiveSession client] \<longrightarrow> null_dm_start client os s = Inr s'))"
proof -
  obtain d where d: "start rd wr (new_dm_connection hdr p) = Some (Inr d)"
    "dm_calls d = calls_for (parse_stream (contents p)) []"
    using start_parses[OF assms(1,2), of "new_dm_connection hdr p"] assms(3)
    by (auto simp: new_dm_connection_def)
  obtain s' where s': "for_each (handle_dm_call os) (dm_calls d) s = Inr s'" "sessions s' = sessions s"
    "active_name s' = last (active_name s # active_asked (dm_calls d))"
    "next_name s' = last (next_name s # next_asked (dm_calls d))"
    using dm_calls_followed[OF assms(4,5)] by blast
  have "null_dm_start client os s = Inr s'" if "dm_calls d = [CallSetActiveSession client]"
    using s'(1) that by (simp add: null_dm_start_def)
  with d s' show ?thesis by (auto simp: Let_def)
qed

theorem display_manager_drives_switcher_witness:
  "\<exists>d s'. start list_reader list_writer (new_dm_connection [0, 0, 0, 0]
        ([0, 4, 0, 1, 97, 0, 0, 0, 0, 0, 5, 0, 1, 98, 0, 4], [])) = Some (Inr d) \<and>
    for_each (handle_dm_call \<lparr>fork_result = 7, exec_succeeds = True\<rparr>) (dm_calls d)
      (new_switcher (new_external_spinner '''' ''sock'')) = Inr s' \<and>
    active_name s' = ''a'' \<and> next_name s' = ''b''"
proof -
  let ?bs = "[0, 4, 0, 1, 97, 0, 0, 0, 0, 0, 5, 0, 1, 98, 0, 4] :: byte list"
  have "parse_stream ?bs = [(MsgSetActiveSession, [97]), (MsgPing, []), (MsgSetNextSession, [98])]"
    by (simp add: be16_eq message_id_of_def)
  moreover have "text_of [97] = ''a''" "text_of [98] = ''b''" by code_simp+
  moreover have "switcher_wf (new_switcher (new_external_spinner '''' ''sock''))"
    by (simp add: switcher_wf_def new_switcher_def)
  ultimately show ?thesis
    using display_manager_drives_switcher[OF list_pipes, of "[0, 0, 0, 0]" _
        "\<lparr>fork_result = 7, exec_succeeds = True\<rparr>" "(?bs, [])"]
    by (force simp: active_asked_def next_asked_def map_filter_simps Let_def
        simp del: parse_stream.simps)
qed

end
