(* ===== verification/Compositor_Interleaving.thy ===== *)
theory Compositor_Interleaving
  imports Bus_Props Window_Manager Switcher_History
begin

text \<open>
  The display manager's thread and the others: its calls take effect between the entry points the
  other threads run, in any interleaving. What the rest of the compositor sees of a run (the
  sessions tracked, the counts, the calls into Mir, the messages on the bus) is a function of the
  other events alone, and the display that results of the names the display manager gave last.
\<close>

section \<open>Unwinding\<close>

text \<open>Some inputs are silent: they change nothing in the view. Equal inputs keep views equal.\<close>

locale unwinding = guarded_component step wf_state admissible
  for step :: "'op \<Rightarrow> 's \<Rightarrow> 's res" and wf_state :: "'s \<Rightarrow> bool" and admissible :: "'op \<Rightarrow> bool" +
  fixes view :: "'s \<Rightarrow> 'v"
    and input :: "'op \<Rightarrow> 'i"
    and silent :: "'i \<Rightarrow> bool"
  assumes silent_step: "wf_state s \<Longrightarrow> admissible op \<Longrightarrow> silent (input op) \<Longrightarrow> step op s = Inr s' \<Longrightarrow>
      view s' = view s"
    and view_step: "wf_state s \<Longrightarrow> wf_state t \<Longrightarrow> admissible op \<Longrightarrow> admissible op' \<Longrightarrow>
      input op = input op' \<Longrightarrow> view s = view t \<Longrightarrow> step op s = Inr s' \<Longrightarrow> step op' t = Inr t' \<Longrightarrow>
      view s' = view t'"
begin

lemma uw_silent_run:
  assumes "wf_state s" "list_all admissible ops" "\<forall>op \<in> set ops. silent (input op)"
    and run: "for_each step ops s = Inr s'"
  shows "view s' = view s"
  using assms
proof (induction ops arbitrary: s)
  case (Cons op ops)
  then obtain s1 where s1: "step op s = Inr s1" "for_each step ops s1 = Inr s'" by auto
  have "wf_state s1" using gc_step_wf[OF Cons.prems(1) _ s1(1)] Cons.prems(2) by simp
  then have "view s' = view s1" using Cons.IH s1(2) Cons.prems(2,3) by simp
  then show ?case using silent_step[OF Cons.prems(1) _ _ s1(1)] Cons.prems(2,3) by simp
qed simp

text \<open>Runs with the same inputs, the silent ones left out, end in the same view.\<close>

lemma uw_same_view:
  assumes "wf_state s" "wf_state t" "list_all admissible ops" "list_all admissible ops'"
    and "filter (\<lambda>i. \<not> silent i) (map input ops) = filter (\<lambda>i. \<not> silent i) (map input ops')"
    and "view s = view t" "for_each step ops s = Inr s'" "for_each step ops' t = Inr t'"
  shows "view s' = view t'"
  using assms
proof (induction ops arbitrary: s t ops')
  case Nil
  have "\<forall>op \<in> set ops'. silent (input op)"
    using Nil(5)[symmetric] by (auto simp: filter_empty_conv)
  with Nil show ?case using uw_silent_run[of t ops' t'] by simp
next
  case (Cons op ops)
  obtain s1 where s1: "step op s = Inr s1" "for_each step ops s1 = Inr s'"
    using Cons.prems(7) by auto
  have wf1: "wf_state s1" using gc_step_wf[OF Cons.prems(1) _ s1(1)] Cons.prems(3) by simp
  show ?case
  proof (cases "silent (input op)")
    case True
    then have "view s1 = view t" using silent_step[OF Cons.prems(1) _ _ s1(1)] Cons.prems(3,6) by simp
    then show ?thesis using Cons.IH[OF wf1 Cons.prems(2) _ Cons.prems(4) _ _ s1(2) Cons.prems(8)]
      Cons.prems(3,5) True by simp
  next
    case False
    then obtain pre y post where ops': "ops' = pre @ y # post" "\<forall>x \<in> set pre. silent (input x)"
      "input y = input op"
      "filter (\<lambda>i. \<not> silent i) (map input post) = filter (\<lambda>i. \<not> silent i) (map input ops)"
      using Cons.prems(5)[symmetric]
      by (auto simp: filter_map o_def filter_eq_Cons_iff map_eq_Cons_conv)
    obtain t1 t2 where t: "for_each step pre t = Inr t1" "step y t1 = Inr t2"
      "for_each step post t2 = Inr t'"
      using Cons.prems(8) by (auto simp: ops'(1) for_each_append)
    have adm: "list_all admissible pre" "admissible y" "list_all admissible post"
      using Cons.prems(4) by (simp_all add: ops'(1))
    have t1: "wf_state t1" by (rule gc_run_wf[OF Cons.prems(2) adm(1) t(1)])
    have "view t1 = view t" by (rule uw_silent_run[OF Cons.prems(2) adm(1) ops'(2) t(1)])
    then have "view s1 = view t2"
      using view_step[OF Cons.prems(1) t1 _ adm(2) _ _ s1(1) t(2)] Cons.prems(3,6) ops'(3) by simp
    then show ?thesis
      using Cons.IH[OF wf1 gc_step_wf[OF t1 adm(2) t(2)] _ adm(3) _ _ s1(2) t(3)] Cons.prems(3) ops'(4)
      by simp
  qed
qed

end

section \<open>The view of the other threads\<close>

record 'm view =
  seen_sessions :: "(string, session_info) std_map"
  seen_outputs :: active_outputs
  seen_screen_calls :: "screen_call list"
  seen_published :: active_outputs
  seen_messages :: "'m bus_message list"
  seen_loop :: "active_outputs event_loop"

definition seen :: "'m system \<Rightarrow> 'm view" where
  "seen sys =
     \<lparr>seen_sessions = sessions (switcher_of (world_of sys)),
      seen_outputs = active_outputs (service_screen sys),
      seen_screen_calls = screen_calls (service_screen sys),
      seen_published = service_active_outputs sys, seen_messages = service_messages sys,
      seen_loop = loop_of (world_of sys)\<rparr>"

text \<open>A display manager's call as an operation of the switcher, and so as an event.\<close>

fun dm_op :: "dm_call \<Rightarrow> switcher_op" where
  "dm_op (CallSetActiveSession n) = SetActiveSession n"
| "dm_op (CallSetNextSession n) = SetNextSession n"

lemma handle_dm_call_step: "handle_dm_call os c s = switcher_step (os, dm_op c) s"
  by (cases c) simp_all

definition dm_input :: "dm_call \<Rightarrow> 'm system_event" where
  "dm_input c = SessionEvent (dm_op c)"

fun naming :: "'m system_event \<Rightarrow> bool" where
  "naming (SessionEvent (SetActiveSession n)) \<longleftrightarrow> True"
| "naming (SessionEvent (SetNextSession n)) \<longleftrightarrow> True"
| "naming ev \<longleftrightarrow> False"

lemma naming_is_dm_input: "naming ev \<longleftrightarrow> (\<exists>c. ev = dm_input c)"
proof
  show "naming ev \<Longrightarrow> \<exists>c. ev = dm_input c"
    by (induction ev rule: naming.induct) (auto simp: dm_input_def intro: dm_op.simps[symmetric])
  show "\<exists>c. ev = dm_input c \<Longrightarrow> naming ev"
    by (elim exE) (rename_tac c, case_tac c, simp_all add: dm_input_def)
qed

section \<open>Each event and the view\<close>

text \<open>A session operation changes the sessions by what they were, whoever is active.\<close>

lemma prepared_sessions:
  assumes "prepared op s = Some s1" "prepared op t = Some t1" "sessions s = sessions t"
  shows "sessions s1 = sessions t1"
  using assms by (cases op) (auto simp: Let_def tracked_def split: option.splits if_splits)

lemma prepared_none:
  "sessions s = sessions t \<Longrightarrow> prepared op s = None \<longleftrightarrow> prepared op t = None"
  by (cases op) (auto simp: Let_def tracked_def split: option.splits)

lemma step_sessions:
  assumes "switcher_wf s" "switcher_wf t" "fork_result os \<noteq> 0" "fork_result os' \<noteq> 0"
    and "sessions s = sessions t"
    and "switcher_step (os, op) s = Inr s'" "switcher_step (os', op) t = Inr t'"
  shows "sessions s' = sessions t'"
proof (cases "prepared op s")
  case None
  with assms prepared_none[OF assms(5), of op] show ?thesis by (simp add: step_prepared)
next
  case (Some s1)
  then obtain t1 where t1: "prepared op t = Some t1"
    using prepared_none[OF assms(5), of op] by fastforce
  from step_keeps[OF assms(1,3) Some] step_keeps[OF assms(2,4) t1] assms(6,7)
    prepared_sessions[OF Some t1 assms(5)] show ?thesis by auto
qed

text \<open>What applying a configuration does to the view.\<close>

definition see_configuration :: "display_output list \<Rightarrow> 'm view \<Rightarrow> 'm view" where
  "see_configuration cfg v =
     v\<lparr>seen_outputs := count_active_outputs cfg,
       seen_loop := enqueue (count_active_outputs cfg) (seen_loop v)\<rparr>"

lemma configured_seen:
  assumes "system_inv ks kd sys" "ks \<noteq> kd" "fork_result (os_of (world_of sys)) \<noteq> 0"
  shows "seen (sys\<lparr>service_screen := fst (configuration_applied cfg (service_screen sys))\<rparr>) =
    see_configuration cfg (seen sys)"
proof -
  obtain s' where s': "active_outputs_handler (os_of (world_of sys)) (count_active_outputs cfg)
      (switcher_of (world_of sys)) = Inr s'"
    "configuration_applied cfg (service_screen sys) =
      ((service_screen sys)\<lparr>active_outputs := count_active_outputs cfg,
         listeners := (world_of sys)\<lparr>switcher_of := s',
           loop_of := enqueue (count_active_outputs cfg) (loop_of (world_of sys))\<rparr>\<rparr>, None)"
    using configured_effect[OF assms] by blast
  have "switcher_wf (switcher_of (world_of sys))" using assms(1) by (simp add: system_inv_def Let_def)
  from step_keeps[OF this assms(3), of "ActiveOutputsChanged (count_active_outputs cfg)"] s'(1)
  have "sessions s' = sessions (switcher_of (world_of sys))" by auto
  then show ?thesis by (simp add: s'(2) seen_def see_configuration_def world_of_def)
qed

text \<open>What an entry point of the screen does: calls into Mir, and possibly a configuration applied.\<close>

definition screen_effect ::
  "screen_call list \<Rightarrow> display_output list option \<Rightarrow> world mir_screen \<Rightarrow> world mir_screen" where
  "screen_effect xs oc scr =
     (let scr1 = scr\<lparr>screen_calls := screen_calls scr @ xs\<rparr>
      in case oc of None \<Rightarrow> scr1 | Some cfg \<Rightarrow> fst (configuration_applied cfg scr1))"

definition see_screen :: "screen_call list \<Rightarrow> display_output list option \<Rightarrow> 'm view \<Rightarrow> 'm view" where
  "see_screen xs oc v =
     (let v1 = v\<lparr>seen_screen_calls := seen_screen_calls v @ xs\<rparr>
      in case oc of None \<Rightarrow> v1 | Some cfg \<Rightarrow> see_configuration cfg v1)"

abbreviation parent_inv :: "nat \<Rightarrow> nat \<Rightarrow> 'm system \<Rightarrow> bool" where
  "parent_inv ks kd sys \<equiv> system_inv ks kd sys \<and> ks \<noteq> kd \<and> fork_result (os_of (world_of sys)) \<noteq> 0"

lemma with_calls:
  assumes "parent_inv ks kd sys"
  shows "parent_inv ks kd (sys\<lparr>service_screen := (service_screen sys)\<lparr>screen_calls := cs\<rparr>\<rparr>)"
  using assms inv_screen_calls[of ks kd sys cs] by (simp add: world_of_def)

lemma screen_effect_seen:
  assumes "parent_inv ks kd sys"
  shows "seen (sys\<lparr>service_screen := screen_effect xs oc (service_screen sys)\<rparr>) = see_screen xs oc (seen sys)"
proof (cases oc)
  case None
  then show ?thesis by (simp add: screen_effect_def see_screen_def seen_def world_of_def)
next
  case (Some cfg)
  let ?sys = "sys\<lparr>service_screen := (service_screen sys)
      \<lparr>screen_calls := screen_calls (service_screen sys) @ xs\<rparr>\<rparr>"
  have "seen ?sys = (seen sys)\<lparr>seen_screen_calls := seen_screen_calls (seen sys) @ xs\<rparr>"
    by (simp add: seen_def world_of_def)
  moreover have "system_inv ks kd ?sys" "ks \<noteq> kd" "fork_result (os_of (world_of ?sys)) \<noteq> 0"
    using with_calls[OF assms] by blast+
  note configured_seen[OF this, of cfg]
  ultimately show ?thesis by (simp add: Some screen_effect_def see_screen_def)
qed

text \<open>The switcher's part in it: an update, or nothing.\<close>

lemma screen_effect_switcher:
  assumes "parent_inv ks kd sys"
  shows "switcher_of (listeners (screen_effect xs oc (service_screen sys))) = switcher_of (world_of sys) \<or>
    (\<exists>sp b. spinner_update (os_of (world_of sys)) ((switcher_of (world_of sys))\<lparr>has_active_outputs := b\<rparr>) = Inr sp \<and>
       switcher_of (listeners (screen_effect xs oc (service_screen sys))) =
       planned_state sp ((switcher_of (world_of sys))\<lparr>has_active_outputs := b\<rparr>))"
proof (cases oc)
  case None
  then show ?thesis by (simp add: screen_effect_def world_of_def)
next
  case (Some cfg)
  let ?sys = "sys\<lparr>service_screen := (service_screen sys)
      \<lparr>screen_calls := screen_calls (service_screen sys) @ xs\<rparr>\<rparr>"
    and ?s = "switcher_of (world_of sys)" and ?os = "os_of (world_of sys)"
  have w: "world_of ?sys = world_of sys" by (simp add: world_of_def)
  have inv: "system_inv ks kd ?sys" "ks \<noteq> kd" "fork_result (os_of (world_of ?sys)) \<noteq> 0"
    using with_calls[OF assms] by blast+
  obtain s' where s': "active_outputs_handler ?os (count_active_outputs cfg) ?s = Inr s'"
    "switcher_of (listeners (fst (configuration_applied cfg (service_screen ?sys)))) = s'"
    using configured_effect[OF inv, of cfg] unfolding w by (auto simp: world_of_def)
  have "switcher_wf (?s\<lparr>has_active_outputs := any_active (count_active_outputs cfg)\<rparr>)"
    using assms by (simp add: system_inv_def Let_def)
  then obtain sp where "spinner_update ?os (?s\<lparr>has_active_outputs := any_active (count_active_outputs cfg)\<rparr>) = Inr sp"
    "s' = planned_state sp (?s\<lparr>has_active_outputs := any_active (count_active_outputs cfg)\<rparr>)"
    using update_returns[of _ ?os] assms s'(1) by (metis active_outputs_handler_def sum.inject(2))
  then show ?thesis using s'(2) by (auto simp: Some screen_effect_def)
qed

definition calm :: "world mir_screen \<Rightarrow> bool" where
  "calm scr \<longleftrightarrow> (\<forall>cfg cs. snd (configuration_applied cfg (scr\<lparr>screen_calls := cs\<rparr>)) = None)"

lemma inv_calm:
  assumes "parent_inv ks kd sys"
  shows "calm (service_screen sys)"
proof -
  have "snd (configuration_applied cfg (service_screen
      (sys\<lparr>service_screen := (service_screen sys)\<lparr>screen_calls := cs\<rparr>\<rparr>))) = None" for cfg cs
    using configured_inv[of ks kd _ cfg] with_calls[OF assms, of cs] by blast
  then show ?thesis by (simp add: calm_def)
qed

lemma set_power_mode_effect:
  "\<exists>xs oc. \<forall>scr. calm scr \<longrightarrow> set_power_mode env mode filt scr = (screen_effect xs oc scr, None)"
proof -
  have "(\<exists>xs. \<forall>scr :: world mir_screen. set_power_mode env mode filt scr =
        (scr\<lparr>screen_calls := screen_calls scr @ xs\<rparr>, None)) \<or>
     (\<exists>xs cfg. \<forall>scr :: world mir_screen. set_power_mode env mode filt scr =
        catch_std (log_exception_in ''set_power_mode'')
          (configuration_applied cfg (scr\<lparr>screen_calls := screen_calls scr @ xs\<rparr>)))"
    by (cases "configuration env"; cases "stop_returns env"; cases "configure_returns env";
        cases "start_returns env")
      (auto simp: set_power_mode_def call_mir_def log_exception_in_def Let_def)
  then show ?thesis
  proof (elim disjE exE)
    fix xs
    assume "\<forall>scr :: world mir_screen. set_power_mode env mode filt scr = (scr\<lparr>screen_calls := screen_calls scr @ xs\<rparr>, None)"
    then show ?thesis by (intro exI[of _ xs] exI[of _ None]) (simp add: screen_effect_def)
  next
    fix xs cfg
    assume run: "\<forall>scr :: world mir_screen. set_power_mode env mode filt scr = catch_std (log_exception_in ''set_power_mode'')
        (configuration_applied cfg (scr\<lparr>screen_calls := screen_calls scr @ xs\<rparr>))"
    have "set_power_mode env mode filt scr = (screen_effect xs (Some cfg) scr, None)" if "calm scr" for scr
      using that[unfolded calm_def, rule_format, of cfg "screen_calls scr @ xs"] run
      by (cases "configuration_applied cfg (scr\<lparr>screen_calls := screen_calls scr @ xs\<rparr>)")
        (simp add: screen_effect_def)
    then show ?thesis by blast
  qed
qed

lemma observe_effect: "\<exists>oc. \<forall>scr. calm scr \<longrightarrow> observe ev scr = (screen_effect [] oc scr, None)"
proof (cases "\<exists>cfg. \<forall>scr :: world mir_screen. observe ev scr = configuration_applied cfg scr")
  case True
  then obtain cfg where run: "\<forall>scr :: world mir_screen. observe ev scr = configuration_applied cfg scr" ..
  have "observe ev scr = (screen_effect [] (Some cfg) scr, None)" if "calm scr" for scr
    using that[unfolded calm_def, rule_format, of cfg "screen_calls scr"] run
    by (cases "configuration_applied cfg scr") (simp add: screen_effect_def)
  then show ?thesis by blast
next
  case False
  then have "\<forall>scr :: world mir_screen. observe ev scr = (scr, None)"
    by (cases ev) (auto simp: initial_configuration_def configuration_applied_def)
  then show ?thesis by (intro exI[of _ None]) (simp add: screen_effect_def)
qed

text \<open>The events that reach the screen: a message answered from what was published, and an effect
  on the screen that depends on the event only.\<close>

lemma screen_event:
  assumes "\<forall>op. ev \<noteq> SessionEvent op" "ev \<noteq> LoopActions"
  shows "\<exists>xs oc replies. \<forall>sys. calm (service_screen sys) \<longrightarrow> handle_event lib intro ev sys =
    (sys\<lparr>service_screen := screen_effect xs oc (service_screen sys),
         service_messages := service_messages sys @ replies (service_active_outputs sys)\<rparr>, None)"
proof (cases ev)
  case (BusMessage env m)
  have "\<exists>xs oc. \<forall>scr. calm scr \<longrightarrow> switch_screen env (switch_wanted lib m) scr = screen_effect xs oc scr"
  proof (cases "switch_wanted lib m")
    case None
    then show ?thesis
      by (intro exI[of _ "[]"] exI[of _ None]) (simp add: switch_screen_def screen_effect_def)
  next
    case (Some w)
    obtain mode filt where w: "w = (mode, filt)" by (cases w)
    from set_power_mode_effect[of env mode "get_power_mode_filter_for_output_filter filt"]
    obtain xs oc where "\<forall>scr. calm scr \<longrightarrow> set_power_mode env mode
        (get_power_mode_filter_for_output_filter filt) scr = (screen_effect xs oc scr, None)" by blast
    then show ?thesis by (intro exI[of _ xs] exI[of _ oc]) (simp add: Some w switch_screen_def)
  qed
  then obtain xs oc where switch:
    "\<And>scr. calm scr \<Longrightarrow> switch_screen env (switch_wanted lib m) scr = screen_effect xs oc scr" by blast
  have "snd (set_power_mode env mode filt scr) = None" if "calm scr" for mode filt scr
    using set_power_mode_effect[of env mode filt] that by auto
  then have "handle_dbus_message lib intro env m sys =
      (sys\<lparr>service_screen := screen_effect xs oc (service_screen sys),
           service_messages := service_messages sys @ display_replies lib intro (service_active_outputs sys) m\<rparr>,
       None)" if "calm (service_screen sys)" for sys :: "'a system"
    using message_result[of env sys lib "intro" m] switch that by simp
  then show ?thesis unfolding BusMessage by (intro exI[of _ xs] exI[of _ oc]) auto
next
  case (DisplayObserved oe)
  obtain oc where oc: "\<And>scr. calm scr \<Longrightarrow> observe oe scr = (screen_effect [] oc scr, None)"
    using observe_effect[of oe] by blast
  show ?thesis
    unfolding DisplayObserved
    by (intro exI[of _ "[]"] exI[of _ oc] exI[of _ "\<lambda>_. []"]) (simp add: on_screen_def oc)
qed (use assms in auto)

lemma loop_seen:
  "seen (perform_actions sys) =
     (let v = seen sys; as = actions (seen_loop v)
      in v\<lparr>seen_published := last (seen_published v # as),
           seen_messages := seen_messages v @ map outputs_signal as,
           seen_loop := dispatch_actions (seen_loop v)\<rparr>)"
  by (simp add: seen_def perform_actions_def Let_def world_of_def set_world_def fold_actions)

lemma seen_messages_update:
  "seen (sys\<lparr>service_screen := scr, service_messages := service_messages sys @ ms\<rparr>) =
     (seen (sys\<lparr>service_screen := scr\<rparr>))\<lparr>seen_messages := seen_messages (seen sys) @ ms\<rparr>"
  by (simp add: seen_def world_of_def)

lemma event_seen:
  assumes sys: "parent_inv ks kd sys" and sys2: "parent_inv ks2 kd2 sys2"
    and same: "seen sys = seen sys2"
    and run: "handle_event lib intro ev sys = (sys', None)" "handle_event lib intro ev sys2 = (sys2', None)"
  shows "seen sys' = seen sys2'"
proof (cases "\<exists>op. ev = SessionEvent op")
  case True
  then obtain op where ev: "ev = SessionEvent op" ..
  have wf: "switcher_wf (switcher_of (world_of sys))" "switcher_wf (switcher_of (world_of sys2))"
    using sys sys2 by (simp_all add: system_inv_def Let_def)
  obtain s s2 where s: "switcher_step (os_of (world_of sys), op) (switcher_of (world_of sys)) = Inr s"
    "sys' = set_world ((world_of sys)\<lparr>switcher_of := s\<rparr>) sys"
    "switcher_step (os_of (world_of sys2), op) (switcher_of (world_of sys2)) = Inr s2"
    "sys2' = set_world ((world_of sys2)\<lparr>switcher_of := s2\<rparr>) sys2"
    using run by (auto simp: ev Let_def split: sum.splits)
  have "sessions s = sessions s2"
    using step_sessions[OF wf _ _ _ s(1,3)] sys sys2 same by (simp add: seen_def)
  then show ?thesis using same by (simp add: s(2,4) seen_def set_world_def world_of_def)
next
  case False
  show ?thesis
  proof (cases "ev = LoopActions")
    case True
    with run same show ?thesis by (auto simp: loop_seen)
  next
    case no_loop: False
    obtain xs oc replies where ev: "\<And>sys. calm (service_screen sys) \<Longrightarrow> handle_event lib intro ev sys =
      (sys\<lparr>service_screen := screen_effect xs oc (service_screen sys),
           service_messages := service_messages sys @ replies (service_active_outputs sys)\<rparr>, None)"
      using screen_event[OF _ no_loop, of lib "intro"] False by blast
    have "service_active_outputs sys = service_active_outputs sys2"
      using same by (simp add: seen_def)
    then show ?thesis
      using run ev[OF inv_calm[OF sys]] ev[OF inv_calm[OF sys2]] screen_effect_seen[OF sys, of xs oc]
        screen_effect_seen[OF sys2, of xs oc] same
      by (auto simp: seen_messages_update)
  qed
qed

lemma naming_seen:
  assumes "parent_inv ks kd sys" "naming ev" "handle_event lib intro ev sys = (sys', None)"
  shows "seen sys' = seen sys"
proof -
  obtain c where ev: "ev = dm_input c" using assms(2) naming_is_dm_input by blast
  obtain s where s: "switcher_step (os_of (world_of sys), dm_op c) (switcher_of (world_of sys)) = Inr s"
    "sys' = set_world ((world_of sys)\<lparr>switcher_of := s\<rparr>) sys"
    using assms(3) by (auto simp: ev dm_input_def Let_def split: sum.splits)
  obtain t where t: "prepared (dm_op c) (switcher_of (world_of sys)) = Some t"
    "sessions t = sessions (switcher_of (world_of sys))" by (cases c) auto
  have "switcher_wf (switcher_of (world_of sys))" using assms(1) by (simp add: system_inv_def Let_def)
  moreover have "fork_result (os_of (world_of sys)) \<noteq> 0" using assms(1) by blast
  note step_keeps[OF _ this t(1)]
  ultimately have "sessions s = sessions (switcher_of (world_of sys))"
    using s(1) t(2) by auto
  then show ?thesis by (simp add: s(2) seen_def set_world_def world_of_def)
qed

text \<open>A step is the handling of its event once the operating system's answers are in place.\<close>

lemma step_handles:
  assumes "system_inv ks kd sys" "ks \<noteq> kd" "event_ok x"
  shows "parent_inv ks kd (set_world ((world_of sys)\<lparr>os_of := fst x\<rparr>) sys)"
    and "seen (set_world ((world_of sys)\<lparr>os_of := fst x\<rparr>) sys) = seen sys"
    and "switcher_of (world_of (set_world ((world_of sys)\<lparr>os_of := fst x\<rparr>) sys)) = switcher_of (world_of sys)"
    and "system_step lib intro x sys = Inr sys' \<Longrightarrow>
      handle_event lib intro (snd x) (set_world ((world_of sys)\<lparr>os_of := fst x\<rparr>) sys) = (sys', None)"
  using assms set_os_inv[OF assms(1), of "fst x"]
  by (auto simp: event_ok_def seen_def world_of_def set_world_def system_step_def case_prod_beta
      prod_eq_iff split: option.splits)

interpretation dm_unwinding: unwinding "system_step lib intro" system_wf event_ok seen snd naming
  for lib :: "('m, 'd) libdbus" and "intro" :: string
proof unfold_locales
  fix sys sys' :: "'m system" and x :: "spinner_os \<times> 'm system_event"
  assume "system_wf sys" and ok: "event_ok x" and nm: "naming (snd x)"
    and run: "system_step lib intro x sys = Inr sys'"
  then obtain ks kd where k: "system_inv ks kd sys" "ks \<noteq> kd" by (auto simp: system_wf_def)
  note h = step_handles[OF k ok]
  from naming_seen[OF h(1) nm h(4)[OF run]] h(2) show "seen sys' = seen sys" by simp
next
  fix sys sys' sys2 sys2' :: "'m system" and x y :: "spinner_os \<times> 'm system_event"
  assume "system_wf sys" "system_wf sys2" and ok: "event_ok x" "event_ok y" and ev: "snd x = snd y"
    and same: "seen sys = seen sys2"
    and run: "system_step lib intro x sys = Inr sys'" "system_step lib intro y sys2 = Inr sys2'"
  then obtain ks kd ks2 kd2 where k: "system_inv ks kd sys" "ks \<noteq> kd"
    and k2: "system_inv ks2 kd2 sys2" "ks2 \<noteq> kd2" by (auto simp: system_wf_def)
  note h = step_handles[OF k ok(1)] and h2 = step_handles[OF k2 ok(2)]
  from event_seen[OF h(1) h2(1) _ h(4)[OF run(1)] h2(4)[OF run(2), folded ev]] h(2) h2(2) same
  show "seen sys' = seen sys2'" by simp
qed

section \<open>The names and the display\<close>

text \<open>The active and the next name after an event.\<close>

fun named :: "'m system_event \<Rightarrow> string \<times> string \<Rightarrow> string \<times> string" where
  "named (SessionEvent (SetActiveSession n)) (a, b) = (n, b)"
| "named (SessionEvent (SetNextSession n)) (a, b) = (a, n)"
| "named ev p = p"

definition names_of :: "switcher \<Rightarrow> string \<times> string" where
  "names_of s = (active_name s, next_name s)"

lemma fold_named_filter: "fold named evs p = fold named (filter naming evs) p"
proof (induction evs arbitrary: p)
  case (Cons ev evs)
  have "\<not> naming ev \<Longrightarrow> named ev p = p"
    by (cases p; cases ev rule: naming.cases) simp_all
  with Cons show ?case by simp
qed simp

lemma fold_named_calls:
  "fold named (map dm_input cs) (a, b) = (last (a # active_asked cs), last (b # next_asked cs))"
  by (induction cs arbitrary: a b rule: list.induct)
    (auto simp: active_asked_def next_asked_def map_filter_simps dm_input_def split: dm_call.splits)

text \<open>
  The display the names ask for, in every state. A tracked session is visible only if an output is
  active and it is the active one, the next one or the spinner's while the spinner stands in; the
  active and the next one are if they are ready and the active one may be shown, and the next one,
  when ready, only then; the spinner's is while it stands in. The session last focused is the active
  one, or the spinner's that stands in for it; a spinner that is not needed has no process. So if the
  active session and the next one, if one is named, are ready, those two are visible and no other
  named session.
\<close>

definition displays_as_asked :: "switcher \<Rightarrow> bool" where
  "displays_as_asked s \<longleftrightarrow>
     (\<forall>n us. tracked s n = Some us \<longrightarrow>
        (visible (calls s) us \<longrightarrow> has_active_outputs s \<and>
           (n = active_name s \<or> n = next_name s \<or> n = spinner_name s \<and> spinner_mode s \<noteq> None)) \<and>
        (visible (calls s) us \<longrightarrow> n = next_name s \<longrightarrow> is_session_ready_for_display n s \<longrightarrow>
           n \<noteq> spinner_name s \<longrightarrow> active_shown s) \<and>
        (has_active_outputs s \<and> active_shown s \<and> is_session_ready_for_display n s \<and>
           (n = active_name s \<or> n = next_name s) \<longrightarrow> visible (calls s) us) \<and>
        (has_active_outputs s \<and> n = spinner_name s \<and> spinner_mode s \<noteq> None \<longrightarrow> visible (calls s) us)) \<and>
     (has_active_outputs s \<longrightarrow>
        (active_shown s \<longrightarrow> focused (calls s) = tracked s (active_name s)) \<and>
        (spinner_mode s = Some AsActive \<and> tracked s (spinner_name s) \<noteq> None \<longrightarrow>
           focused (calls s) = tracked s (spinner_name s)) \<and>
        (spinner_mode s = None \<longrightarrow> spinner_pid (spinner_process s) = 0)) \<and>
     (has_active_outputs s \<and> is_session_ready_for_display (active_name s) s \<and>
      (next_name s = '''' \<or> is_session_ready_for_display (next_name s) s) \<longrightarrow>
        (\<forall>n us. n \<noteq> '''' \<longrightarrow> tracked s n = Some us \<longrightarrow>
           (visible (calls s) us \<longleftrightarrow> n = active_name s \<or> n = next_name s)))"

lemma planned_displays:
  assumes "switcher_wf s" and upd: "spinner_update os s = Inr sp"
  shows "displays_as_asked (planned_state sp s)"
proof -
  let ?p = "planned_state sp s"
  have fields: "has_active_outputs ?p = has_active_outputs s" "active_name ?p = active_name s"
    "next_name ?p = next_name s" "tracked ?p = tracked s" "spinner_name ?p = spinner_name s"
    "is_session_ready_for_display n ?p = is_session_ready_for_display n s" "spinner_process ?p = sp" for n
    by (simp_all add: planned_state_def tracked_def fun_eq_iff is_session_ready_for_display_def)
  have on: "active_shown ?p = active_shown s" "spinner_mode ?p = spinner_mode s" if "has_active_outputs s"
    using that by (auto simp: active_shown_def spinner_mode_def fields planned_same)
  have vis: "visible (calls ?p) us \<longleftrightarrow> should_be_visible s n (visible (calls s) us)"
    if "tracked s n = Some us" for n us
    by (rule plan_visibility[OF assms(1) that])
  have focus: "active_shown s \<Longrightarrow> spinner_mode s \<noteq> Some AsActive"
    by (simp add: spinner_mode_def)
  show ?thesis
  proof (cases "has_active_outputs s")
    case False
    then have "\<not> visible (calls ?p) us" if "tracked s n = Some us" for n us
      using vis[OF that] by (simp add: should_be_visible_def)
    with False show ?thesis unfolding displays_as_asked_def fields by blast
  next
    case True
    have named: "visible (calls ?p) us \<longleftrightarrow> n = active_name s \<or> n = next_name s"
      if "is_session_ready_for_display (active_name s) s"
        "next_name s = '''' \<or> is_session_ready_for_display (next_name s) s" "n \<noteq> ''''" "tracked s n = Some us"
      for n us
    proof -
      have "active_shown s" "spinner_mode s = None"
        using that(1,2) by (auto simp: active_shown_def spinner_mode_def)
      with vis[OF that(4)] that True show ?thesis by (auto simp: should_be_visible_def)
    qed
    have "spinner_mode s = None \<Longrightarrow> spinner_pid sp = 0"
      using upd True by (auto simp: spinner_update_def)
    moreover have "active_shown s \<Longrightarrow> focused (calls ?p) = tracked s (active_name s)"
      "spinner_mode s = Some AsActive \<and> tracked s (spinner_name s) \<noteq> None \<Longrightarrow>
        focused (calls ?p) = tracked s (spinner_name s)"
      using plan_focus[of sp s] True focus by auto
    ultimately show ?thesis
      unfolding displays_as_asked_def fields on[OF True]
      using should_be_visible_meaning[OF vis] named by blast
  qed
qed

lemma planned_names: "names_of (planned_state sp s) = names_of s"
  by (simp add: names_of_def planned_state_def)

lemma event_names:
  assumes sys: "parent_inv ks kd sys" and run: "handle_event lib intro ev sys = (sys', None)"
  shows "(switcher_of (world_of sys') = switcher_of (world_of sys) \<or>
      (\<exists>os sp t. switcher_wf t \<and> spinner_update os t = Inr sp \<and>
         switcher_of (world_of sys') = planned_state sp t)) \<and>
    names_of (switcher_of (world_of sys')) = named ev (names_of (switcher_of (world_of sys)))"
proof (cases "\<exists>op. ev = SessionEvent op")
  case True
  let ?s = "switcher_of (world_of sys)" and ?os = "os_of (world_of sys)"
  obtain op where ev: "ev = SessionEvent op" using True ..
  have wf: "switcher_wf ?s" using sys by (simp add: system_inv_def Let_def)
  obtain s where s: "switcher_step (?os, op) ?s = Inr s" "switcher_of (world_of sys') = s"
    using run by (auto simp: ev Let_def set_world_def world_of_def split: sum.splits)
  show ?thesis
  proof (cases "prepared op ?s")
    case None
    then have "named ev (names_of ?s) = names_of ?s" by (cases op) (auto simp: ev names_of_def)
    then show ?thesis using s None by (simp add: step_prepared)
  next
    case (Some t)
    then have t: "switcher_wf t" using prepared_wf wf by blast
    then obtain sp where sp: "spinner_update ?os t = Inr sp" "s = planned_state sp t"
      using update_returns[OF t, of ?os] sys s(1) Some by (auto simp: step_prepared)
    moreover have "names_of t = named ev (names_of ?s)"
      using Some by (cases op) (auto simp: ev names_of_def Let_def split: option.splits if_splits)
    ultimately have "names_of (switcher_of (world_of sys')) = named ev (names_of ?s)"
      using s(2) planned_names by simp
    with sp s(2) t show ?thesis by blast
  qed
next
  case False
  then have nm: "named ev p = p" for p by (cases p; cases ev rule: naming.cases) auto
  show ?thesis
  proof (cases "ev = LoopActions")
    case True
    then show ?thesis
      using run nm by (auto simp: perform_actions_def Let_def fold_actions world_of_def set_world_def)
  next
    case no_loop: False
    let ?s = "switcher_of (world_of sys)"
    obtain xs oc replies where ev: "\<And>sys. calm (service_screen sys) \<Longrightarrow> handle_event lib intro ev sys =
      (sys\<lparr>service_screen := screen_effect xs oc (service_screen sys),
           service_messages := service_messages sys @ replies (service_active_outputs sys)\<rparr>, None)"
      using screen_event[OF _ no_loop, of lib "intro"] False by blast
    have "switcher_of (world_of sys') = switcher_of (listeners (screen_effect xs oc (service_screen sys)))"
      using ev[OF inv_calm[OF sys]] run by (auto simp: world_of_def)
    moreover have "switcher_wf (?s\<lparr>has_active_outputs := b\<rparr>)"
      "names_of (?s\<lparr>has_active_outputs := b\<rparr>) = names_of ?s" for b
      using sys by (simp_all add: system_inv_def Let_def names_of_def)
    ultimately show ?thesis
      using screen_effect_switcher[OF sys, of xs oc] unfolding nm by (metis planned_names)
  qed
qed

lemma run_names:
  assumes "system_wf sys" "list_all event_ok zs" "run_system lib intro zs sys = Inr sys'"
    and "displays_as_asked (switcher_of (world_of sys))"
  shows "displays_as_asked (switcher_of (world_of sys')) \<and>
    names_of (switcher_of (world_of sys')) = fold named (map snd zs) (names_of (switcher_of (world_of sys)))"
  using assms
proof (induction zs arbitrary: sys)
  case Nil
  then show ?case by (simp add: run_system_def)
next
  case (Cons z zs)
  obtain sys1 where sys1: "system_step lib intro z sys = Inr sys1" "run_system lib intro zs sys1 = Inr sys'"
    using Cons.prems(3) by (auto simp: run_system_def)
  obtain ks kd where k: "system_inv ks kd sys" "ks \<noteq> kd"
    using Cons.prems(1) by (auto simp: system_wf_def)
  have ok: "event_ok z" "list_all event_ok zs" using Cons.prems(2) by simp_all
  note h = step_handles[OF k ok(1)]
  from event_names[OF h(1) h(4)[OF sys1(1)]] planned_displays Cons.prems(4)
  have "displays_as_asked (switcher_of (world_of sys1))"
    "names_of (switcher_of (world_of sys1)) = named (snd z) (names_of (switcher_of (world_of sys)))"
    unfolding h(3) by metis+
  with Cons.IH[OF compositor.gc_step_wf[OF Cons.prems(1) ok(1) sys1(1)] ok(2) sys1(2)] show ?case by simp
qed

section \<open>Any interleaving\<close>

lemma service_keeps_switcher:
  assumes service: "new_display_service ans address c kd scr = Inr sys"
  shows "switcher_of (world_of sys) = switcher_of (listeners scr)"
  by (rule new_service_steps[OF service])
    (auto simp: register_active_outputs_handler_def call_handler_def service_handler_def
      world_of_def Let_def)

lemma started_display:
  assumes "the_screen env ks w = (scr, None)" "new_display_service ans address c kd scr = Inr sys"
    and w: "switcher_of w = new_switcher sp" "fork_result (os_of w) \<noteq> 0"
  shows "names_of (switcher_of (world_of sys)) = ('''', '''') \<and>
    displays_as_asked (switcher_of (world_of sys))"
proof -
  obtain scr0 where scr0: "set_screen ks False scr0 = (scr, None)"
    and fields: "active_outputs_handlers scr0 = []" "listeners scr0 = w"
    using the_screen_steps[OF assms(1)] .
  let ?s = "(new_switcher sp)\<lparr>has_active_outputs := any_active (active_outputs scr0)\<rparr>"
  have wf: "switcher_wf ?s" by simp
  obtain sp2 where sp2: "spinner_update (os_of w) ?s = Inr sp2"
    "update_displayed_sessions (os_of w) ?s = Inr (planned_state sp2 ?s)"
    using update_returns[OF wf w(2)] by blast
  have "switcher_of (listeners scr) = planned_state sp2 ?s"
    using sp2(2) scr0 fields w(1)
    by (auto simp: set_screen_def register_active_outputs_handler_def call_handler_def
        switcher_handler_def active_outputs_handler_def Let_def)
  moreover have "names_of ?s = ('''', '''')" by (simp add: names_of_def new_switcher_def)
  ultimately show ?thesis
    using service_keeps_switcher[OF assms(2)] planned_displays[OF wf sp2(1)] planned_names by metis
qed

text \<open>
  C4. The display manager runs on its own thread; here every entry point takes effect as one step (as
  the switcher's lock makes it, but for the handler of the screen, which takes none: C36). Take any
  run \<open>zs\<close> of the started compositor in which the calls its byte stream causes are interleaved, in
  their order, with session operations, bus messages, display changes and turns of the loop; and the
  run \<open>evs\<close> of those others alone. Both return, and the calls have no effect on the sessions tracked
  and which are ready, on the counts, the calls into Mir's display, the messages on the bus, the loop
  and its queue. They act on the rest of the switcher only: the names, the end of booting, the spinner
  and which sessions are shown. Of these, the active and the next session in the end are those the
  stream named last, wherever the calls fell, and the display and the spinner's process are in the
  state \<open>displays_as_asked\<close> describes.
\<close>

theorem display_manager_calls_interleave:
  assumes "the_screen env ks w = (scr, None)"
    and "new_display_service ans address c kd scr = Inr sys" and "ks \<noteq> kd"
    and "switcher_of w = new_switcher sp" and "fork_result (os_of w) \<noteq> 0"
    and "new_event_loop True (Some fd) True = Inr (loop_of w)"
    and dm: "exact_reader rd contents sent" "accepting_writer wr contents sent" "length hdr = 4"
      "start rd wr (new_dm_connection hdr p) = Some (Inr d)"
    and zs: "list_all event_ok zs" "filter naming (map snd zs) = map dm_input (dm_calls d)"
    and evs: "list_all event_ok evs" "map snd evs = filter (\<lambda>ev. \<not> naming ev) (map snd zs)"
  shows "\<exists>s t. run_system lib intro zs sys = Inr s \<and> run_system lib intro evs sys = Inr t \<and>
    seen s = seen t \<and>
    (let asked = calls_for (parse_stream (contents p)) []
     in names_of (switcher_of (world_of s)) =
          (last ('''' # active_asked asked), last ('''' # next_asked asked))) \<and>
    displays_as_asked (switcher_of (world_of s))"
proof -
  have "switcher_wf (switcher_of w)" using assms(4) by simp
  from started_inv[OF assms(1-3) this assms(5,6)] have wf: "system_wf sys"
    using assms(3) unfolding system_wf_def by blast
  obtain s t where run: "run_system lib intro zs sys = Inr s" "run_system lib intro evs sys = Inr t"
    using compositor.gc_run_returns[OF wf zs(1), of lib "intro"]
      compositor.gc_run_returns[OF wf evs(1), of lib "intro"] unfolding run_system_def by blast
  have "filter (\<lambda>ev. \<not> naming ev) (map snd zs) = filter (\<lambda>ev. \<not> naming ev) (map snd evs)"
    by (simp add: evs(2))
  from dm_unwinding.uw_same_view[OF wf wf zs(1) evs(1) this refl run[unfolded run_system_def]]
  have same: "seen s = seen t" .
  have calls: "dm_calls d = calls_for (parse_stream (contents p)) []"
    using start_parses[OF dm(1,2), of "new_dm_connection hdr p"] dm(3,4)
    by (auto simp: new_dm_connection_def)
  note fold_named_filter[of "map snd zs" "('''', '''')", unfolded zs(2)]
  with run_names[OF wf zs(1) run(1)] started_display[OF assms(1,2,4,5)] run same show ?thesis
    by (auto simp: fold_named_calls calls Let_def)
qed

theorem display_manager_calls_interleave_witness:
  "\<exists>s t. run_system plain_libdbus ''''
      [(os_of demo_world, DisplayObserved (ConfigurationApplied [])),
       (os_of demo_world, SessionEvent (SetActiveSession ''a'')), (os_of demo_world, LoopActions)]
      demo_system = Inr s \<and>
    run_system plain_libdbus ''''
      [(os_of demo_world, DisplayObserved (ConfigurationApplied [])), (os_of demo_world, LoopActions)]
      demo_system = Inr t \<and>
    seen s = seen t \<and> names_of (switcher_of (world_of s)) = (''a'', '''')"
proof -
  let ?evs = "[(os_of demo_world, DisplayObserved (ConfigurationApplied [])), (os_of demo_world, LoopActions)]
      :: (spinner_os \<times> (string \<times> string \<times> string list) system_event) list"
  let ?zs = "[(os_of demo_world, DisplayObserved (ConfigurationApplied [])),
       (os_of demo_world, SessionEvent (SetActiveSession ''a'')), (os_of demo_world, LoopActions)]
      :: (spinner_os \<times> (string \<times> string \<times> string list) system_event) list"
  let ?bs = "[0, 4, 0, 1, 97] :: byte list"
  have parsed: "calls_for (parse_stream ?bs) [] = [CallSetActiveSession ''a'']"
  proof -
    have "parse_stream ?bs = [(MsgSetActiveSession, [97])]" by (simp add: be16_eq message_id_of_def)
    moreover have "text_of [97] = ''a''" by code_simp
    ultimately show ?thesis by simp
  qed
  obtain d where d: "start list_reader list_writer (new_dm_connection [0, 0, 0, 0] (?bs, [])) = Some (Inr d)"
    "dm_calls d = [CallSetActiveSession ''a'']"
    using start_parses[OF list_pipes, of "new_dm_connection [0, 0, 0, 0] (?bs, [])"] parsed
    by (auto simp: new_dm_connection_def simp del: parse_stream.simps)
  have ok: "list_all event_ok ?zs" "list_all event_ok ?evs"
    by (simp_all add: event_ok_def demo_world_def)
  have inputs: "filter naming (map snd ?zs) = map dm_input (dm_calls d)"
    "map snd ?evs = filter (\<lambda>ev. \<not> naming ev) (map snd ?zs)"
    by (simp_all add: d(2) dm_input_def)
  from display_manager_calls_interleave[OF demo_starts _ demo_world_new list_pipes _ d(1) ok(1)
      inputs(1) ok(2) inputs(2), of plain_libdbus "''''"]
  show ?thesis
    by (simp add: parsed active_asked_def next_asked_def map_filter_simps Let_def
        del: parse_stream.simps) blast
qed

end
