(* ===== verification/Loop_Thread.thy ===== *)
theory Loop_Thread
  imports Bus_Props
begin

text \<open>
  \<open>DBusEventLoop::dispatch_actions\<close> holds the lock only while it swaps the queue out; it performs
  what it took action by action, while other threads go on (\<open>src/dbus_event_loop.cpp\<close>,
  \<open>src/unity_display_service.cpp\<close>). Here the composed system runs with that granularity, and it
  is shown to refine the one in which a turn of the loop is a single step.
\<close>

section \<open>The loop's thread among the others\<close>

text \<open>The state all threads share, and what the loop's thread has taken and not yet performed.\<close>

record 'm threads =
  shared :: "'m system"
  todo :: "active_outputs list"

text \<open>The first half of \<open>dispatch_actions\<close>, and one turn of its loop.\<close>

definition take_actions :: "'m system \<Rightarrow> active_outputs list \<times> 'm system" where
  "take_actions sys =
     (let (as, l) = swap_actions (loop_of (world_of sys))
      in (as, set_world ((world_of sys)\<lparr>loop_of := l\<rparr>) sys))"

definition perform_action :: "active_outputs \<Rightarrow> 'm system \<Rightarrow> 'm system" where
  "perform_action a sys =
     active_outputs_action a
       (set_world ((world_of sys)\<lparr>loop_of := call_bus (PerformAction a) (loop_of (world_of sys))\<rparr>) sys)"

text \<open>Events of other threads; libdbus calls the message filter on the loop's thread.\<close>

fun other_thread :: "'m system_event \<Rightarrow> bool" where
  "other_thread (SessionEvent op) \<longleftrightarrow> True"
| "other_thread (DisplayObserved oe) \<longleftrightarrow> True"
| "other_thread ev \<longleftrightarrow> False"

inductive thread_step ::
  "('m, 'd) libdbus \<Rightarrow> string \<Rightarrow> 'm threads \<Rightarrow> (spinner_os \<times> 'm system_event) list \<Rightarrow> 'm threads \<Rightarrow> bool"
  for lib and "intro" where
  step_other: "other_thread ev \<Longrightarrow> system_step lib intro (os, ev) (shared c) = Inr s \<Longrightarrow>
    thread_step lib intro c [(os, ev)] (c\<lparr>shared := s\<rparr>)"
| step_message: "todo c = [] \<Longrightarrow> system_step lib intro (os, BusMessage env m) (shared c) = Inr s \<Longrightarrow>
    thread_step lib intro c [(os, BusMessage env m)] (c\<lparr>shared := s\<rparr>)"
| step_take: "todo c = [] \<Longrightarrow> take_actions (set_world ((world_of (shared c))\<lparr>os_of := os\<rparr>) (shared c)) = (as, s) \<Longrightarrow>
    thread_step lib intro c [(os, LoopActions)] \<lparr>shared = s, todo = as\<rparr>"
| step_perform: "todo c = a # as \<Longrightarrow>
    thread_step lib intro c [] \<lparr>shared = perform_action a (shared c), todo = as\<rparr>"

inductive thread_run ::
  "('m, 'd) libdbus \<Rightarrow> string \<Rightarrow> 'm threads \<Rightarrow> (spinner_os \<times> 'm system_event) list \<Rightarrow> 'm threads \<Rightarrow> bool"
  for lib and "intro" where
  run_none: "thread_run lib intro c [] c"
| run_more: "thread_run lib intro c es c1 \<Longrightarrow> thread_step lib intro c1 fs c2 \<Longrightarrow>
    thread_run lib intro c (es @ fs) c2"

text \<open>Finishing what was taken.\<close>

definition finish :: "'m threads \<Rightarrow> 'm system" where
  "finish c = fold perform_action (todo c) (shared c)"

section \<open>Finishing commutes with the other threads\<close>

lemma perform_fields:
  "fold perform_action as sys =
     sys\<lparr>service_screen := (service_screen sys)\<lparr>listeners := (world_of sys)\<lparr>loop_of :=
           (loop_of (world_of sys))\<lparr>loop_calls :=
              loop_calls (loop_of (world_of sys)) @ map PerformAction as\<rparr>\<rparr>\<rparr>,
         service_active_outputs := last (service_active_outputs sys # as),
         service_messages := service_messages sys @ map outputs_signal as\<rparr>"
proof (induction as arbitrary: sys)
  case Nil
  then show ?case by (simp add: world_of_def)
next
  case (Cons a as)
  then show ?case
    by (auto simp: perform_action_def action_fields set_world_def world_of_def call_bus_def
        intro!: display_service.equality)
qed

lemma inv_finishing:
  assumes "system_inv ks kd (fold perform_action as sys)"
  shows "active_outputs_handlers (service_screen sys) = listening ks kd"
    and "switcher_wf (switcher_of (world_of sys))"
  using assms unfolding perform_fields by (simp_all add: system_inv_def world_of_def Let_def)

lemma enqueue_calls:
  "(enqueue a l)\<lparr>loop_calls := cs\<rparr> = enqueue a (l\<lparr>loop_calls := cs\<rparr>)"
  "loop_calls (enqueue a l) = loop_calls l"
  by (simp_all add: enqueue_def push_action_def wake_up_loop_def)

lemma finish_os:
  "set_world ((world_of (fold perform_action as sys))\<lparr>os_of := os\<rparr>) (fold perform_action as sys) =
   fold perform_action as (set_world ((world_of sys)\<lparr>os_of := os\<rparr>) sys)"
  unfolding perform_fields
  by (auto simp: set_world_def world_of_def
      intro!: display_service.equality mir_screen.equality world.equality)

lemma other_commutes:
  assumes other: "other_thread ev" and inv: "system_inv ks kd (fold perform_action as sys)"
    and "ks \<noteq> kd" and ok: "event_ok (os, ev)"
  shows "\<exists>s. system_step lib intro (os, ev) sys = Inr s \<and>
    system_step lib intro (os, ev) (fold perform_action as sys) = Inr (fold perform_action as s)"
proof -
  obtain sys0 where sys0: "sys0 = set_world ((world_of sys)\<lparr>os_of := os\<rparr>) sys" by blast
  have os: "fork_result (os_of (world_of sys0)) \<noteq> 0"
    using ok by (simp add: sys0 event_ok_def set_world_def world_of_def)
  have scr: "active_outputs_handlers (service_screen sys0) = listening ks kd"
    "switcher_wf (switcher_of (world_of sys0))"
    using inv_finishing[OF inv] by (simp_all add: sys0 set_world_def world_of_def)
  have "\<exists>s. handle_event lib intro ev sys0 = (s, None) \<and>
      handle_event lib intro ev (fold perform_action as sys0) = (fold perform_action as s, None)"
  proof (cases ev)
    case (SessionEvent op)
    obtain s' where "switcher_step (os_of (world_of sys0), op) (switcher_of (world_of sys0)) = Inr s'"
      using switcher.step_returns[OF scr(2), of "(os_of (world_of sys0), op)"] os by auto
    then show ?thesis
      unfolding SessionEvent perform_fields
      by (auto simp: set_world_def world_of_def
          intro!: display_service.equality mir_screen.equality world.equality)
  next
    case (DisplayObserved oe)
    show ?thesis
    proof (cases "\<exists>cfg. \<forall>scr :: world mir_screen. observe oe scr = configuration_applied cfg scr")
      case True
      then obtain cfg where
        run: "\<And>scr :: world mir_screen. observe oe scr = configuration_applied cfg scr" by blast
      let ?scr = "service_screen sys0" and ?scr2 = "service_screen (fold perform_action as sys0)"
      have "active_outputs_handlers ?scr2 = listening ks kd"
        "switcher_wf (switcher_of (listeners ?scr2))" "fork_result (os_of (listeners ?scr2)) \<noteq> 0"
        using scr os unfolding perform_fields by (simp_all add: world_of_def)
      from applied_effect[OF this(1) \<open>ks \<noteq> kd\<close> this(2,3), of cfg]
        applied_effect[OF scr(1) \<open>ks \<noteq> kd\<close> scr(2) [unfolded world_of_def] os [unfolded world_of_def], of cfg]
      show ?thesis
        unfolding DisplayObserved handle_event.simps on_screen_def run perform_fields
        by (auto simp: world_of_def enqueue_calls
            intro!: display_service.equality mir_screen.equality world.equality)
    next
      case False
      then have "\<forall>scr :: world mir_screen. observe oe scr = (scr, None)"
        by (cases oe) (auto simp: initial_configuration_def configuration_applied_def)
      then show ?thesis by (simp add: DisplayObserved on_screen_def)
    qed
  qed (use other in auto)
  then show ?thesis by (auto simp: system_step_def finish_os sys0)
qed

section \<open>The composed system is refined\<close>

lemma take_finish: "take_actions sys = (as, s) \<Longrightarrow> fold perform_action as s = perform_actions sys"
proof -
  assume "take_actions sys = (as, s)"
  then have take: "as = actions (loop_of (world_of sys))"
    "s = set_world ((world_of sys)\<lparr>loop_of := (loop_of (world_of sys))\<lparr>actions := []\<rparr>\<rparr>) sys"
    by (auto simp: take_actions_def swap_actions_def)
  have "fold (\<lambda>a. call_bus (PerformAction a)) as l =
      l\<lparr>loop_calls := loop_calls l @ map PerformAction as\<rparr>" for l :: "active_outputs event_loop"
    by (induction as arbitrary: l) (simp_all add: call_bus_def)
  then show ?thesis
    unfolding perform_fields perform_actions_def Let_def take(1)
    by (intro display_service.equality)
      (simp_all add: fold_actions take set_world_def world_of_def dispatch_actions_def swap_actions_def)
qed

lemma step_refines:
  assumes "thread_step lib intro c es c'" "system_inv ks kd (finish c)" "ks \<noteq> kd" "list_all event_ok es"
  shows "run_system lib intro es (finish c) = Inr (finish c')"
  using assms
proof (induction rule: thread_step.induct)
  case (step_other ev os c s)
  have ok: "event_ok (os, ev)" using step_other.prems(3) by simp
  from other_commutes[OF step_other.hyps(1) step_other.prems(1)[unfolded finish_def]
      step_other.prems(2) ok, of lib "intro"] step_other.hyps(2)
  show ?case by (auto simp: run_system_def finish_def)
next
  case (step_message c os env m s)
  then show ?case by (simp add: run_system_def finish_def)
next
  case (step_take c os as s)
  from take_finish[OF step_take.hyps(2)] step_take.hyps(1) show ?case
    by (simp add: run_system_def finish_def system_step_def)
next
  case (step_perform c a as)
  then show ?case by (simp add: run_system_def finish_def)
qed

lemma run_system_append:
  "run_system lib intro (es @ fs) sys = bind_res (run_system lib intro es sys) (run_system lib intro fs)"
  by (cases "run_system lib intro es sys") (simp_all add: run_system_def for_each_append)

lemma run_refines:
  assumes "thread_run lib intro c es c'" "system_wf (finish c)" "list_all event_ok es"
  shows "run_system lib intro es (finish c) = Inr (finish c') \<and> system_wf (finish c')"
  using assms
proof (induction rule: thread_run.induct)
  case (run_none c)
  then show ?case by (simp add: run_system_def)
next
  case (run_more c es c1 fs c2)
  then have ok: "list_all event_ok es" "list_all event_ok fs" by simp_all
  note IH = run_more.IH[OF run_more.prems(1) ok(1)]
  then obtain ks kd where "system_inv ks kd (finish c1)" "ks \<noteq> kd" by (auto simp: system_wf_def)
  from step_refines[OF run_more.hyps(2) this ok(2)]
  have step: "run_system lib intro fs (finish c1) = Inr (finish c2)" .
  with IH compositor.gc_run_wf[OF _ ok(2) step[unfolded run_system_def]] show ?case
    by (simp add: run_system_append)
qed

lemma thread_enabled:
  assumes wf: "system_wf (finish c)" and ok: "event_ok (os, ev)" and free: "todo c = [] \<or> other_thread ev"
  shows "\<exists>c'. thread_step lib intro c [(os, ev)] c'"
proof (cases "other_thread ev")
  case True
  obtain ks kd where "system_inv ks kd (finish c)" "ks \<noteq> kd" using wf by (auto simp: system_wf_def)
  from other_commutes[OF True this(1)[unfolded finish_def] this(2) ok] show ?thesis
    using step_other[OF True] by metis
next
  case False
  then have c: "todo c = []" "finish c = shared c" using free by (simp_all add: finish_def)
  show ?thesis
  proof (cases ev)
    case (BusMessage env m)
    then show ?thesis using compositor.step_returns[OF wf ok, of lib "intro"] c step_message by metis
  next
    case LoopActions
    then show ?thesis using step_take[OF c(1)] by (metis surj_pair)
  qed (use False in auto)
qed

text \<open>What the invariant says of a state in which part of the queue is still to be performed.\<close>

lemma inv_halfway:
  assumes "system_inv ks kd (finish c)"
  shows "(has_active_outputs (switcher_of (world_of (shared c))) \<longleftrightarrow>
      any_active (active_outputs (service_screen (shared c)))) \<and>
    signals_sent (service_messages (shared c)) =
      map outputs_signal (performed (loop_of (world_of (shared c)))) \<and>
    last (service_active_outputs (shared c) # todo c @ actions (loop_of (world_of (shared c)))) =
      active_outputs (service_screen (shared c))"
proof -
  have "performed (l\<lparr>loop_calls := loop_calls l @ map PerformAction as\<rparr>) = performed l @ as"
    for l :: "active_outputs event_loop" and as
    by (induction as) (simp_all add: performed_def map_filter_simps List.map_filter_def)
  note performed = this
  have fields: "switcher_of (world_of (finish c)) = switcher_of (world_of (shared c))"
    "active_outputs (service_screen (finish c)) = active_outputs (service_screen (shared c))"
    "actions (loop_of (world_of (finish c))) = actions (loop_of (world_of (shared c)))"
    "performed (loop_of (world_of (finish c))) = performed (loop_of (world_of (shared c))) @ todo c"
    "service_messages (finish c) = service_messages (shared c) @ map outputs_signal (todo c)"
    "service_active_outputs (finish c) = last (service_active_outputs (shared c) # todo c)"
    unfolding finish_def perform_fields by (simp_all add: world_of_def performed)
  have "signals_sent (service_messages (finish c)) = map outputs_signal (performed (loop_of (world_of (finish c))))"
    "has_active_outputs (switcher_of (world_of (finish c))) = any_active (active_outputs (service_screen (finish c)))"
    "last (service_active_outputs (finish c) # actions (loop_of (world_of (finish c)))) =
      active_outputs (service_screen (finish c))"
    using assms unfolding system_inv_def Let_def by blast+
  then show ?thesis
    unfolding fields by (auto split: if_splits)
qed

text \<open>
  C5. The loop performs the actions it took one at a time while other threads open, close and
  choose sessions and Mir reports display changes. Every such run from the start-up on is a run of
  the system in which a turn is a single step, the actions still to be performed brought forward.
  So at every moment, also halfway through a turn: the switcher believes outputs are active exactly
  when the screen counts some, the signals sent are those of the actions performed, in order, and
  what was published, what was taken and what is queued lead to the screen's counts. No thread is
  ever stuck: another thread's event can always happen, a taken action can be performed, and once
  none is left the loop can take a message or a turn.
\<close>

theorem turns_of_the_loop_interleave:
  assumes "the_screen env ks w = (scr, None)"
    and "new_display_service ans address c kd scr = Inr sys" and "ks \<noteq> kd"
    and "switcher_of w = new_switcher sp" and "fork_result (os_of w) \<noteq> 0"
    and "new_event_loop True (Some fd) True = Inr (loop_of w)"
    and run: "thread_run lib intro \<lparr>shared = sys, todo = []\<rparr> evs th" and ok: "list_all event_ok evs"
  shows "run_system lib intro evs sys = Inr (finish th) \<and>
    (has_active_outputs (switcher_of (world_of (shared th))) \<longleftrightarrow>
       any_active (active_outputs (service_screen (shared th)))) \<and>
    signals_sent (service_messages (shared th)) =
      map outputs_signal (performed (loop_of (world_of (shared th)))) \<and>
    last (service_active_outputs (shared th) # todo th @ actions (loop_of (world_of (shared th)))) =
      active_outputs (service_screen (shared th)) \<and>
    (\<forall>os ev. event_ok (os, ev) \<and> (todo th = [] \<or> other_thread ev) \<longrightarrow>
       (\<exists>th'. thread_step lib intro th [(os, ev)] th')) \<and>
    (todo th \<noteq> [] \<longrightarrow> (\<exists>th'. thread_step lib intro th [] th'))"
proof -
  have "switcher_wf (switcher_of w)" using assms(4) by simp
  from started_inv[OF assms(1-3) this assms(5,6)] have wf: "system_wf (finish \<lparr>shared = sys, todo = []\<rparr>)"
    using assms(3) unfolding system_wf_def by (auto simp: finish_def)
  note refines = run_refines[OF run wf ok]
  then obtain ks' kd' where inv: "system_inv ks' kd' (finish th)" by (auto simp: system_wf_def)
  have "\<exists>th'. thread_step lib intro th [] th'" if "todo th \<noteq> []"
    using that step_perform by (metis neq_Nil_conv)
  then show ?thesis
    using refines inv_halfway[OF inv] thread_enabled[of th _ _ lib "intro"] by (simp add: finish_def)
qed

text \<open>Halfway through a turn another session is chosen.\<close>

theorem turns_of_the_loop_interleave_witness:
  "\<exists>th. thread_run plain_libdbus '''' \<lparr>shared = demo_system, todo = []\<rparr>
      [(os_of demo_world, LoopActions), (os_of demo_world, SessionEvent (SetActiveSession ''a''))] th \<and>
    todo th = [\<lparr>internal = 1, external = 1\<rparr>] \<and> signals_sent (service_messages (shared th)) = [] \<and>
    run_system plain_libdbus ''''
      [(os_of demo_world, LoopActions), (os_of demo_world, SessionEvent (SetActiveSession ''a''))]
      demo_system = Inr (finish th)"
proof -
  let ?os = "os_of demo_world"
  let ?c = "\<lparr>shared = demo_system, todo = []\<rparr>"
  let ?evs = "[(?os, LoopActions), (?os, SessionEvent (SetActiveSession ''a''))]
    :: (spinner_os \<times> (string \<times> string \<times> string list) system_event) list"
  obtain s where s: "take_actions (set_world ((world_of (shared ?c))\<lparr>os_of := ?os\<rparr>) (shared ?c)) =
      ([\<lparr>internal = 1, external = 1\<rparr>], s)" "service_messages s = []"
    by (simp add: take_actions_def swap_actions_def demo_system_def demo_world_def set_world_def
        world_of_def enqueue_def push_action_def wake_up_loop_def)
  let ?c1 = "\<lparr>shared = s, todo = [\<lparr>internal = 1, external = 1\<rparr>]\<rparr>"
  have one: "thread_step plain_libdbus '''' ?c [(?os, LoopActions)] ?c1"
    by (rule step_take[OF _ s(1)]) simp
  have run1: "thread_run plain_libdbus '''' ?c ([] @ [(?os, LoopActions)]) ?c1"
    by (rule run_more[OF run_none one])
  have ok: "list_all event_ok [(?os, LoopActions :: (string \<times> string \<times> string list) system_event)]"
    "event_ok (?os, SessionEvent (SetActiveSession ''a'') :: (string \<times> string \<times> string list) system_event)"
    "list_all event_ok ?evs"
    by (simp_all add: event_ok_def demo_world_def)
  note halfway = turns_of_the_loop_interleave[OF demo_starts _ demo_world_new run1[unfolded append_Nil] ok(1)]
  then obtain th where two: "thread_step plain_libdbus '''' ?c1
      [(?os, SessionEvent (SetActiveSession ''a''))] th"
    using ok(2) by force
  have run2: "thread_run plain_libdbus '''' ?c ?evs th"
    using run_more[OF run1 two] by simp
  have th: "todo th = [\<lparr>internal = 1, external = 1\<rparr>]" "service_messages (shared th) = []"
    using two by (cases rule: thread_step.cases;
        auto simp: system_step_def Let_def set_world_def s(2) split: sum.splits)+
  from turns_of_the_loop_interleave[OF demo_starts _ demo_world_new run2 ok(3)] run2 th
  show ?thesis by auto
qed

end
