(* ===== verification/System_Compositor.thy ===== *)
theory System_Compositor
  imports Server
begin

text \<open>
  \<open>usc::SystemCompositor\<close> (\<open>src/system_compositor.cpp\<close>) and \<open>main\<close>: the blacklist of video drivers
  and the start-up. The specification is a flat list of steps, the start-up plan; the nested
  first-use construction follows it up to the first step that throws.
\<close>

section \<open>The blacklist\<close>

text \<open>POSIX regular expressions are a parameter: compiling may fail, matching answers yes or no.\<close>

record 'r regex_lib =
  regcomp :: "string \<Rightarrow> 'r option"
  regexec :: "'r \<Rightarrow> string \<Rightarrow> bool"

text \<open>What \<open>glGetString\<close> answers, null when there is no current context.\<close>

record gl_strings =
  gl_vendor :: "string option"
  gl_renderer :: "string option"
  gl_version :: "string option"

definition or_empty :: "string option \<Rightarrow> string" where
  "or_empty p = (case p of None \<Rightarrow> '''' | Some t \<Rightarrow> t)"

text \<open>\<open>snprintf\<close> into 1024 characters, the last for the terminating zero.\<close>

definition driver_string :: "gl_strings \<Rightarrow> string" where
  "driver_string gl =
     take 1023 (or_empty (gl_vendor gl) @ [CHR 0x0A] @ or_empty (gl_renderer gl) @ [CHR 0x0A] @
       or_empty (gl_version gl))"

definition check_blacklist :: "'r regex_lib \<Rightarrow> string \<Rightarrow> gl_strings \<Rightarrow> bool" where
  "check_blacklist rx pattern gl =
     (if pattern = '''' then True
      else case regcomp rx pattern of
             Some re \<Rightarrow> if regexec rx re (driver_string gl) then False else True
           | None \<Rightarrow> True)"

section \<open>Start-up\<close>

text \<open>\<open>chmod\<close> failing is only reported.\<close>

definition make_socket_public :: "options \<Rightarrow> 'c builder" where
  "make_socket_public opts s =
     (if public_socket opts
      then (s\<lparr>startup_log := startup_log s @ [ChmodSocket (get_socket_file opts)]\<rparr>, None)
      else (s, None))"

definition init_callback ::
  "'c cached_ptr \<Rightarrow> 'r regex_lib \<Rightarrow> server_env \<Rightarrow> options \<Rightarrow> gl_strings \<Rightarrow> 'c builder" where
  "init_callback cp rx env opts gl s =
     (if \<not> check_blacklist rx (blacklist opts) gl then
        (s, Some (AbnormalExit ''Video driver is blacklisted, exiting''))
      else
        then_do (the_dm_connection cp env opts s) (\<lambda>s.
        then_do (make_socket_public opts s) (\<lambda>s.
        then_do (emit env StartDM s) (\<lambda>s.
        then_do (the_usc_screen cp env opts s) (\<lambda>s.
        then_do (the_unity_display_service cp env opts s) (\<lambda>s.
        then_do (the_screen_event_handler cp env s) (\<lambda>s.
        then_do (emit env AppendEventFilter s) (\<lambda>s.
        then_do (the_unity_input_service cp env s)
                (the_dbus_connection_thread cp env)))))))))"

text \<open>\<open>mir::Server::run\<close> runs the init callbacks and then the main loop, and builds the window
  manager on the way.\<close>

definition server_run ::
  "'c cached_ptr \<Rightarrow> 'r regex_lib \<Rightarrow> server_env \<Rightarrow> options \<Rightarrow> gl_strings \<Rightarrow> 'c builder" where
  "server_run cp rx env opts gl s =
     then_do (if window_manager_first env then window_manager_builder cp env opts s else (s, None)) (\<lambda>s.
     then_do (init_callback cp rx env opts gl s) (\<lambda>s.
     then_do (if window_manager_first env then (s, None) else window_manager_builder cp env opts s)
       (emit env RunMainLoop)))"

definition new_system_compositor :: "'c cached_ptr \<Rightarrow> server_env \<Rightarrow> options \<Rightarrow> 'c builder" where
  "new_system_compositor cp env opts = the_spinner cp env opts"

definition system_compositor_run ::
  "'c cached_ptr \<Rightarrow> 'r regex_lib \<Rightarrow> server_env \<Rightarrow> options \<Rightarrow> gl_strings \<Rightarrow> 'c builder" where
  "system_compositor_run cp rx env opts gl s =
     (if show_version opts then emit env PrintVersion s else server_run cp rx env opts gl s)"

text \<open>\<open>main\<close> from the constructed server on: the steps done and the exit status.\<close>

definition usc_main ::
  "'c cached_ptr \<Rightarrow> 'r regex_lib \<Rightarrow> server_env \<Rightarrow> options \<Rightarrow> gl_strings \<Rightarrow> 'c \<Rightarrow>
   startup_event list \<times> int" where
  "usc_main cp rx env opts gl c =
     (case then_do (new_system_compositor cp env opts \<lparr>cache = c, startup_log = []\<rparr>)
             (system_compositor_run cp rx env opts gl) of
        (s, None) \<Rightarrow> (startup_log s, 0)
      | (s, Some e) \<Rightarrow> (startup_log s, 1))"

section \<open>The plan\<close>

text \<open>A plan is a list of steps, each of which may throw; \<open>Try\<close> is a step whose failure is only
  reported, \<open>Keep\<close> records a built component and \<open>Stop\<close> is an exception thrown in any case.\<close>

datatype plan_step = Do startup_event | Try startup_event | Keep slot | Stop fault

fun follow_plan :: "server_env \<Rightarrow> plan_step list \<Rightarrow> startup_event list \<Rightarrow> startup_event list \<times> int" where
  "follow_plan env [] log = (log, 0)"
| "follow_plan env (Do ev # ps) log =
     (if throws env ev = None then follow_plan env ps (log @ [ev]) else (log @ [ev], 1))"
| "follow_plan env (Try ev # ps) log = follow_plan env ps (log @ [ev])"
| "follow_plan env (Keep sl # ps) log = follow_plan env ps log"
| "follow_plan env (Stop e # ps) log = (log, 1)"

definition service_plan :: "server_env \<Rightarrow> options \<Rightarrow> plan_step list" where
  "service_plan env opts =
     (let address = dbus_bus_address (bus_variable env)
      in (if public_socket opts then [Try (ChmodSocket (get_socket_file opts))] else []) @
         map Do [StartDM, BuildScreen, RegisterInterest, SetScreen, BuildEventLoop,
           BuildDisplayService address, BuildPowerButtonSink address, BuildUserActivitySink address,
           BuildClock, BuildScreenEventHandler, AppendEventFilter, BuildInputConfiguration,
           BuildInputService address, BuildConnectionThread])"

definition dm_event :: "options \<Rightarrow> startup_event" where
  "dm_event opts =
     (if is_set opts dm_from_fd \<and> is_set opts dm_to_fd
      then BuildAsioDM (get_int opts dm_from_fd (- 1)) (get_int opts dm_to_fd (- 1))
      else BuildNullDM (get_text opts dm_stub_active ''''))"

definition has_display_manager :: "options \<Rightarrow> bool" where
  "has_display_manager opts \<longleftrightarrow>
     is_set opts dm_from_fd \<and> is_set opts dm_to_fd \<or> is_set opts dm_stub"

definition startup_plan :: "'r regex_lib \<Rightarrow> server_env \<Rightarrow> options \<Rightarrow> gl_strings \<Rightarrow> plan_step list" where
  "startup_plan rx env opts gl =
     Do (BuildSpinner (spinner_executable opts) (get_socket_file opts)) #
     (if show_version opts then [Do PrintVersion]
      else
        (if window_manager_first env then [Do BuildSwitcher, Do BuildWindowManager] else []) @
        (if \<not> check_blacklist rx (blacklist opts) gl then
           [Stop (AbnormalExit ''Video driver is blacklisted, exiting'')]
         else if \<not> has_display_manager opts then
           [Stop (AbnormalExit ''to and from FDs are required for display manager'')]
         else
           (if window_manager_first env then [] else [Do BuildSwitcher]) @
           [Do (dm_event opts)] @ service_plan env opts @
           (if window_manager_first env then [] else [Do BuildWindowManager]) @
           [Do RunMainLoop]))"

end
