(* ===== verification/Startup_Props.thy ===== *)
theory Startup_Props
  imports System_Compositor
begin

text \<open>
  The start-up follows its plan: every accessor is a plan that depends only on what is cached
  already, plans compose as the calls do, and with nothing cached the composition is the start-up
  plan. From the plan follow the order and uniqueness of what is built.
\<close>

section \<open>Builders as plans\<close>

fun run_plan :: "'c cached_ptr \<Rightarrow> server_env \<Rightarrow> plan_step list \<Rightarrow> 'c builder" where
  "run_plan cp env [] s = (s, None)"
| "run_plan cp env (Do ev # ps) s = then_do (emit env ev s) (run_plan cp env ps)"
| "run_plan cp env (Try ev # ps) s = run_plan cp env ps (s\<lparr>startup_log := startup_log s @ [ev]\<rparr>)"
| "run_plan cp env (Keep sl # ps) s = run_plan cp env ps (s\<lparr>cache := keep cp sl (cache s)\<rparr>)"
| "run_plan cp env (Stop e # ps) s = (s, Some e)"

fun kept :: "plan_step list \<Rightarrow> slot set" where
  "kept [] = {}"
| "kept (Keep sl # ps) = insert sl (kept ps)"
| "kept (_ # ps) = kept ps"

lemma kept_append [simp]: "kept (ps @ qs) = kept ps \<union> kept qs"
  by (induction ps rule: kept.induct) auto

definition holds_exactly :: "'c cached_ptr \<Rightarrow> slot set \<Rightarrow> 'c server_state \<Rightarrow> bool" where
  "holds_exactly cp K s \<longleftrightarrow> (\<forall>a. is_cached cp a (cache s) \<longleftrightarrow> a \<in> K)"

definition builds ::
  "'c cached_ptr \<Rightarrow> server_env \<Rightarrow> slot set \<Rightarrow> 'c builder \<Rightarrow> plan_step list \<Rightarrow> bool" where
  "builds cp env K b ps \<longleftrightarrow> (\<forall>s. holds_exactly cp K s \<longrightarrow> b s = run_plan cp env ps s)"

lemma then_do_assoc: "then_do (then_do r f) g = then_do r (\<lambda>s. then_do (f s) g)"
  by (cases r; cases "snd r") auto

lemma run_plan_append: "run_plan cp env (ps @ qs) s = then_do (run_plan cp env ps s) (run_plan cp env qs)"
  by (induction cp env ps s rule: run_plan.induct) (auto simp: then_do_assoc emit_def intro!: arg_cong[where f = "then_do _"])

lemma holds_exactly_log [simp]:
  "holds_exactly cp K (s\<lparr>startup_log := l\<rparr>) \<longleftrightarrow> holds_exactly cp K s"
  by (simp add: holds_exactly_def)

lemma holds_exactly_keep:
  "cached_ptr_ok cp \<Longrightarrow> holds_exactly cp K s \<Longrightarrow>
   holds_exactly cp (insert sl K) (s\<lparr>cache := keep cp sl (cache s)\<rparr>)"
  by (simp add: holds_exactly_def cached_ptr_ok_def)

lemma run_plan_keeps:
  assumes "cached_ptr_ok cp"
  shows "holds_exactly cp K s \<Longrightarrow> run_plan cp env ps s = (s', None) \<Longrightarrow>
    holds_exactly cp (K \<union> kept ps) s'"
proof (induction ps arbitrary: K s)
  case Nil
  then show ?case by simp
next
  case (Cons x ps)
  show ?case
  proof (cases x)
    case (Do ev)
    with Cons.prems have "throws env ev = None"
      "run_plan cp env ps (s\<lparr>startup_log := startup_log s @ [ev]\<rparr>) = (s', None)"
      by (cases "throws env ev"; simp add: emit_def)+
    with Cons.IH[OF _ this(2), of K] Cons.prems(1) Do show ?thesis by simp
  next
    case (Try ev)
    with Cons.prems have "run_plan cp env ps (s\<lparr>startup_log := startup_log s @ [ev]\<rparr>) = (s', None)"
      by simp
    with Cons.IH[OF _ this, of K] Cons.prems(1) Try show ?thesis by simp
  next
    case (Keep sl)
    with Cons.prems have "run_plan cp env ps (s\<lparr>cache := keep cp sl (cache s)\<rparr>) = (s', None)" by simp
    from Cons.IH[OF holds_exactly_keep[OF assms Cons.prems(1)] this] Keep show ?thesis by simp
  qed (use Cons in auto)
qed

lemma run_plan_Nil: "run_plan cp env [] = (\<lambda>s. (s, None))"
  by (rule ext) simp

lemma builds_emit: "builds cp env K (emit env ev) [Do ev]"
  by (simp add: builds_def run_plan_Nil)

lemma builds_return: "builds cp env K (\<lambda>s. (s, None)) []"
  by (simp add: builds_def)

lemma builds_then:
  assumes "cached_ptr_ok cp" and b: "builds cp env K b ps" and c: "builds cp env (K \<union> kept ps) c qs"
  shows "builds cp env K (\<lambda>s. then_do (b s) c) (ps @ qs)"
  unfolding builds_def
proof (intro allI impI)
  fix s assume s: "holds_exactly cp K s"
  obtain s' f where r: "run_plan cp env ps s = (s', f)" by force
  show "then_do (b s) c = run_plan cp env (ps @ qs) s"
  proof (cases f)
    case None
    with run_plan_keeps[OF assms(1) s, of env ps s'] r have "holds_exactly cp (K \<union> kept ps) s'" by simp
    with b c s r None show ?thesis by (simp add: builds_def run_plan_append)
  next
    case (Some e)
    with b s r show ?thesis by (simp add: builds_def run_plan_append)
  qed
qed

definition unless :: "slot \<Rightarrow> slot set \<Rightarrow> plan_step list \<Rightarrow> plan_step list" where
  "unless sl K ps = (if sl \<in> K then [] else ps @ [Keep sl])"

lemma builds_cached:
  assumes "builds cp env K b ps"
  shows "builds cp env K (cached cp sl b) (unless sl K ps)"
  unfolding builds_def
proof (intro allI impI)
  fix s assume s: "holds_exactly cp K s"
  then have "is_cached cp sl (cache s) \<longleftrightarrow> sl \<in> K" by (simp add: holds_exactly_def)
  moreover have "run_plan cp env [Keep sl] = (\<lambda>s. (s\<lparr>cache := keep cp sl (cache s)\<rparr>, None))" by auto
  ultimately show "cached cp sl b s = run_plan cp env (unless sl K ps) s"
    using assms s by (auto simp: cached_def unless_def builds_def run_plan_append)
qed

section \<open>The accessors\<close>

definition spinner_plan :: "options \<Rightarrow> slot set \<Rightarrow> plan_step list" where
  "spinner_plan opts K =
     unless SpinnerSlot K [Do (BuildSpinner (spinner_executable opts) (get_socket_file opts))]"

definition switcher_plan :: "options \<Rightarrow> slot set \<Rightarrow> plan_step list" where
  "switcher_plan opts K = unless SwitcherSlot K (spinner_plan opts K @ [Do BuildSwitcher])"

definition screen_plan :: "options \<Rightarrow> slot set \<Rightarrow> plan_step list" where
  "screen_plan opts K =
     unless ScreenSlot K ([Do BuildScreen] @ [Do RegisterInterest] @ switcher_plan opts K @ [Do SetScreen])"

definition loop_plan :: "slot set \<Rightarrow> plan_step list" where
  "loop_plan K = unless EventLoopSlot K [Do BuildEventLoop]"

lemma the_spinner_builds: "builds cp env K (the_spinner cp env opts) (spinner_plan opts K)"
  unfolding the_spinner_def spinner_plan_def by (intro builds_cached builds_emit)

lemma the_session_switcher_builds:
  "cached_ptr_ok cp \<Longrightarrow> builds cp env K (the_session_switcher cp env opts) (switcher_plan opts K)"
  unfolding the_session_switcher_def switcher_plan_def
  by (intro builds_cached builds_then builds_emit the_spinner_builds)

lemma the_usc_screen_builds:
  "cached_ptr_ok cp \<Longrightarrow> builds cp env K (the_usc_screen cp env opts) (screen_plan opts K)"
  unfolding the_usc_screen_def screen_plan_def
  by (intro builds_cached builds_then builds_emit)
    (simp_all add: the_session_switcher_builds)

lemma the_dbus_event_loop_builds: "builds cp env K (the_dbus_event_loop cp env) (loop_plan K)"
  unfolding the_dbus_event_loop_def loop_plan_def by (intro builds_cached builds_emit)

definition event_handler_plan :: "server_env \<Rightarrow> slot set \<Rightarrow> plan_step list" where
  "event_handler_plan env K =
     unless EventHandlerSlot K
       (unless PowerButtonSlot K [Do (BuildPowerButtonSink (dbus_bus_address (bus_variable env)))] @
        unless UserActivitySlot K [Do (BuildUserActivitySink (dbus_bus_address (bus_variable env)))] @
        unless ClockSlot K [Do BuildClock] @ [Do BuildScreenEventHandler])"

definition display_service_plan :: "server_env \<Rightarrow> options \<Rightarrow> slot set \<Rightarrow> plan_step list" where
  "display_service_plan env opts K =
     unless DisplayServiceSlot K
       (loop_plan K @ screen_plan opts K @
        [Do (BuildDisplayService (dbus_bus_address (bus_variable env)))])"

definition input_service_plan :: "server_env \<Rightarrow> slot set \<Rightarrow> plan_step list" where
  "input_service_plan env K =
     unless InputServiceSlot K
       (loop_plan K @ unless InputConfigurationSlot K [Do BuildInputConfiguration] @
        [Do (BuildInputService (dbus_bus_address (bus_variable env)))])"

definition thread_plan :: "slot set \<Rightarrow> plan_step list" where
  "thread_plan K = unless ThreadSlot K (loop_plan K @ [Do BuildConnectionThread])"

definition connection_plan :: "options \<Rightarrow> slot set \<Rightarrow> plan_step list" where
  "connection_plan opts K =
     unless DMSlot K
       (if has_display_manager opts then switcher_plan opts K @ [Do (dm_event opts)]
        else [Stop (AbnormalExit ''to and from FDs are required for display manager'')])"

text \<open>A plan for a slot does not look at other slots that are filled.\<close>

lemma kept_unless: "kept (unless sl K ps) = (if sl \<in> K then {} else insert sl (kept ps))"
  by (simp add: unless_def)

lemmas accessor_plans = spinner_plan_def switcher_plan_def screen_plan_def loop_plan_def
  event_handler_plan_def display_service_plan_def input_service_plan_def thread_plan_def
  connection_plan_def

lemma the_screen_event_handler_builds:
  "cached_ptr_ok cp \<Longrightarrow> builds cp env K (the_screen_event_handler cp env) (event_handler_plan env K)"
proof -
  assume ok: "cached_ptr_ok cp"
  have p: "builds cp env L (the_power_button_event_sink cp env)
      (unless PowerButtonSlot L [Do (BuildPowerButtonSink (dbus_bus_address (bus_variable env)))])"
    and u: "builds cp env L (the_user_activity_event_sink cp env)
      (unless UserActivitySlot L [Do (BuildUserActivitySink (dbus_bus_address (bus_variable env)))])"
    and c: "builds cp env L (the_clock cp env) (unless ClockSlot L [Do BuildClock])" for L
    unfolding the_power_button_event_sink_def the_user_activity_event_sink_def the_clock_def
    by (intro builds_cached builds_emit)+
  let ?K1 = "K \<union> kept (unless PowerButtonSlot K [Do (BuildPowerButtonSink (dbus_bus_address (bus_variable env)))])"
  let ?K2 = "?K1 \<union> kept (unless UserActivitySlot K [Do (BuildUserActivitySink (dbus_bus_address (bus_variable env)))])"
  have "unless UserActivitySlot ?K1 ps = unless UserActivitySlot K ps"
    "unless ClockSlot ?K2 ps = unless ClockSlot K ps" for ps
    by (simp_all add: unless_def)
  with u[of ?K1] c[of ?K2] have "builds cp env ?K1 (the_user_activity_event_sink cp env)
      (unless UserActivitySlot K [Do (BuildUserActivitySink (dbus_bus_address (bus_variable env)))])"
    "builds cp env ?K2 (the_clock cp env) (unless ClockSlot K [Do BuildClock])"
    by simp_all
  then show ?thesis
    unfolding the_screen_event_handler_def event_handler_plan_def
    by (intro builds_cached builds_then[OF ok] builds_emit p)
qed

lemma the_unity_display_service_builds:
  "cached_ptr_ok cp \<Longrightarrow>
   builds cp env K (the_unity_display_service cp env opts) (display_service_plan env opts K)"
proof -
  assume ok: "cached_ptr_ok cp"
  have "screen_plan opts (K \<union> kept (loop_plan K)) = screen_plan opts K"
    by (simp add: accessor_plans unless_def)
  with the_usc_screen_builds[OF ok, of env "K \<union> kept (loop_plan K)" opts]
  have "builds cp env (K \<union> kept (loop_plan K)) (the_usc_screen cp env opts) (screen_plan opts K)"
    by simp
  then show ?thesis
    unfolding the_unity_display_service_def display_service_plan_def
    by (intro builds_cached builds_then[OF ok] builds_emit the_dbus_event_loop_builds)
qed

lemma the_unity_input_service_builds:
  "cached_ptr_ok cp \<Longrightarrow> builds cp env K (the_unity_input_service cp env) (input_service_plan env K)"
proof -
  assume ok: "cached_ptr_ok cp"
  have "builds cp env L (the_input_configuration cp env)
      (unless InputConfigurationSlot L [Do BuildInputConfiguration])" for L
    unfolding the_input_configuration_def by (intro builds_cached builds_emit)
  moreover have "unless InputConfigurationSlot (K \<union> kept (loop_plan K)) ps = unless InputConfigurationSlot K ps"
    for ps by (simp add: accessor_plans unless_def)
  ultimately have "builds cp env (K \<union> kept (loop_plan K)) (the_input_configuration cp env)
      (unless InputConfigurationSlot K [Do BuildInputConfiguration])"
    by metis
  then show ?thesis
    unfolding the_unity_input_service_def input_service_plan_def
    by (intro builds_cached builds_then[OF ok] builds_emit the_dbus_event_loop_builds)
qed

lemma the_dbus_connection_thread_builds:
  "cached_ptr_ok cp \<Longrightarrow> builds cp env K (the_dbus_connection_thread cp env) (thread_plan K)"
  unfolding the_dbus_connection_thread_def thread_plan_def
  by (intro builds_cached builds_then builds_emit the_dbus_event_loop_builds)

lemma the_dm_connection_builds:
  assumes ok: "cached_ptr_ok cp"
  shows "builds cp env K (the_dm_connection cp env opts) (connection_plan opts K)"
proof -
  note sw = the_session_switcher_builds[OF ok, folded the_dm_message_handler_def]
  have stop: "builds cp env K (\<lambda>s. (s, Some e)) [Stop e]" for e by (simp add: builds_def)
  show ?thesis
    unfolding the_dm_connection_def connection_plan_def has_display_manager_def dm_event_def
    using builds_then[OF ok sw builds_emit, of env K opts] stop
    by (intro builds_cached)
      (auto simp: the_dm_message_handler_def builds_def)
qed

section \<open>The start-up\<close>

definition public_plan :: "options \<Rightarrow> plan_step list" where
  "public_plan opts = (if public_socket opts then [Try (ChmodSocket (get_socket_file opts))] else [])"

lemma make_socket_public_builds: "builds cp env K (make_socket_public opts) (public_plan opts)"
  by (auto simp: builds_def make_socket_public_def public_plan_def)

text \<open>Plans in sequence: each starts with what the ones before it have cached.\<close>

fun plan_all :: "(slot set \<Rightarrow> plan_step list) list \<Rightarrow> slot set \<Rightarrow> plan_step list" where
  "plan_all [] K = []"
| "plan_all (f # fs) K = f K @ plan_all fs (K \<union> kept (f K))"

fun in_sequence :: "'c builder list \<Rightarrow> 'c builder" where
  "in_sequence [] s = (s, None)"
| "in_sequence (b # bs) s = then_do (b s) (in_sequence bs)"

lemma in_sequence_eqs:
  "in_sequence [] = (\<lambda>s. (s, None))" "in_sequence (b # bs) = (\<lambda>s. then_do (b s) (in_sequence bs))"
  by (rule ext, simp)+

lemma builds_all:
  assumes "cached_ptr_ok cp"
  shows "list_all2 (\<lambda>b f. \<forall>K. builds cp env K b (f K)) bs fs \<Longrightarrow>
    builds cp env K (in_sequence bs) (plan_all fs K)"
proof (induction bs fs arbitrary: K rule: list_all2_induct)
  case Nil
  then show ?case by (simp add: builds_def)
next
  case (Cons b bs f fs)
  then have "builds cp env K (\<lambda>s. then_do (b s) (in_sequence bs)) (f K @ plan_all fs (K \<union> kept (f K)))"
    by (intro builds_then[OF assms]) auto
  then show ?case by (simp add: builds_def)
qed

definition init_plan ::
  "'r regex_lib \<Rightarrow> server_env \<Rightarrow> options \<Rightarrow> gl_strings \<Rightarrow> slot set \<Rightarrow> plan_step list" where
  "init_plan rx env opts gl K =
     (if \<not> check_blacklist rx (blacklist opts) gl then
        [Stop (AbnormalExit ''Video driver is blacklisted, exiting'')]
      else
        plan_all [connection_plan opts, \<lambda>_. public_plan opts, \<lambda>_. [Do StartDM], screen_plan opts,
          display_service_plan env opts, event_handler_plan env, \<lambda>_. [Do AppendEventFilter],
          input_service_plan env, thread_plan] K)"

lemma init_callback_builds:
  assumes ok: "cached_ptr_ok cp"
  shows "builds cp env K (init_callback cp rx env opts gl) (init_plan rx env opts gl K)"
proof -
  let ?bs = "[the_dm_connection cp env opts, make_socket_public opts, emit env StartDM,
    the_usc_screen cp env opts, the_unity_display_service cp env opts,
    the_screen_event_handler cp env, emit env AppendEventFilter,
    the_unity_input_service cp env, the_dbus_connection_thread cp env]"
  have "builds cp env K (in_sequence ?bs)
      (plan_all [connection_plan opts, \<lambda>_. public_plan opts, \<lambda>_. [Do StartDM], screen_plan opts,
          display_service_plan env opts, event_handler_plan env, \<lambda>_. [Do AppendEventFilter],
          input_service_plan env, thread_plan] K)"
    by (intro builds_all[OF ok])
      (simp add: the_dm_connection_builds make_socket_public_builds builds_emit
        the_usc_screen_builds the_unity_display_service_builds the_screen_event_handler_builds
        the_unity_input_service_builds the_dbus_connection_thread_builds ok)
  then show ?thesis
    by (simp add: builds_def init_callback_def init_plan_def in_sequence_eqs
        del: plan_all.simps in_sequence.simps)
qed

definition manager_plan :: "options \<Rightarrow> slot set \<Rightarrow> plan_step list" where
  "manager_plan opts K = switcher_plan opts K @ [Do BuildWindowManager]"

lemma window_manager_builder_builds:
  assumes "cached_ptr_ok cp"
  shows "builds cp env K (window_manager_builder cp env opts) (manager_plan opts K)"
  unfolding window_manager_builder_def[abs_def] manager_plan_def
  by (intro builds_then builds_emit the_session_switcher_builds assms)

definition run_server_plan ::
  "'r regex_lib \<Rightarrow> server_env \<Rightarrow> options \<Rightarrow> gl_strings \<Rightarrow> slot set \<Rightarrow> plan_step list" where
  "run_server_plan rx env opts gl K =
     plan_all [\<lambda>K. if window_manager_first env then manager_plan opts K else [],
       init_plan rx env opts gl,
       \<lambda>K. if window_manager_first env then [] else manager_plan opts K, \<lambda>_. [Do RunMainLoop]] K"

lemma server_run_builds:
  assumes ok: "cached_ptr_ok cp"
  shows "builds cp env K (server_run cp rx env opts gl) (run_server_plan rx env opts gl K)"
proof -
  let ?bs = "[\<lambda>s. if window_manager_first env then window_manager_builder cp env opts s else (s, None),
    init_callback cp rx env opts gl,
    \<lambda>s. if window_manager_first env then (s, None) else window_manager_builder cp env opts s,
    emit env RunMainLoop]"
  have "builds cp env K (in_sequence ?bs) (run_server_plan rx env opts gl K)"
    unfolding run_server_plan_def
    using window_manager_builder_builds[OF ok, of env _ opts] builds_return[of cp env]
    by (intro builds_all[OF ok])
      (auto simp: init_callback_builds[OF ok] builds_emit)
  then show ?thesis
    by (simp add: builds_def server_run_def in_sequence_eqs del: in_sequence.simps)
qed

lemma follow_run_plan:
  "(case run_plan cp env ps s of (s', None) \<Rightarrow> (startup_log s', 0) | (s', Some e) \<Rightarrow> (startup_log s', 1)) =
   follow_plan env ps (startup_log s)"
proof (induction ps arbitrary: s)
  case Nil
  then show ?case by simp
next
  case (Cons x ps)
  then show ?case
  proof (cases x)
    case (Do ev)
    then show ?thesis using Cons[of "s\<lparr>startup_log := startup_log s @ [ev]\<rparr>"]
      by (cases "throws env ev") (simp_all add: emit_def)
  next
    case (Try ev)
    then show ?thesis using Cons[of "s\<lparr>startup_log := startup_log s @ [ev]\<rparr>"] by simp
  next
    case (Keep sl)
    then show ?thesis using Cons[of "s\<lparr>cache := keep cp sl (cache s)\<rparr>"] by simp
  qed simp
qed

definition main_plan :: "'r regex_lib \<Rightarrow> server_env \<Rightarrow> options \<Rightarrow> gl_strings \<Rightarrow> plan_step list" where
  "main_plan rx env opts gl =
     spinner_plan opts {} @
     (if show_version opts then [Do PrintVersion]
      else run_server_plan rx env opts gl {SpinnerSlot})"

lemma usc_main_follows:
  assumes ok: "cached_ptr_ok cp" and empty: "\<And>sl. \<not> is_cached cp sl c"
  shows "usc_main cp rx env opts gl c = follow_plan env (main_plan rx env opts gl) []"
proof -
  have "builds cp env {SpinnerSlot} (system_compositor_run cp rx env opts gl)
      (if show_version opts then [Do PrintVersion] else run_server_plan rx env opts gl {SpinnerSlot})"
    using server_run_builds[OF ok, of env "{SpinnerSlot}" rx opts gl] builds_emit[of cp env _ PrintVersion]
    by (auto simp: builds_def system_compositor_run_def)
  moreover have "kept (spinner_plan opts {}) = {SpinnerSlot}" by (simp add: spinner_plan_def unless_def)
  ultimately have "builds cp env {} (\<lambda>s. then_do (new_system_compositor cp env opts s)
      (system_compositor_run cp rx env opts gl)) (main_plan rx env opts gl)"
    unfolding main_plan_def new_system_compositor_def
    by (intro builds_then[OF ok the_spinner_builds]) simp
  moreover have "holds_exactly cp {} \<lparr>cache = c, startup_log = []\<rparr>"
    using empty by (simp add: holds_exactly_def)
  ultimately have "then_do (new_system_compositor cp env opts \<lparr>cache = c, startup_log = []\<rparr>)
      (system_compositor_run cp rx env opts gl) =
      run_plan cp env (main_plan rx env opts gl) \<lparr>cache = c, startup_log = []\<rparr>"
    unfolding builds_def by blast
  then show ?thesis
    using follow_run_plan[of cp env "main_plan rx env opts gl" "\<lparr>cache = c, startup_log = []\<rparr>"]
    by (simp add: usc_main_def)
qed

text \<open>What is left of a plan without the bookkeeping of the caches and the steps after a sure stop.\<close>

fun essential :: "plan_step list \<Rightarrow> plan_step list" where
  "essential [] = []"
| "essential (Do ev # ps) = Do ev # essential ps"
| "essential (Try ev # ps) = Try ev # essential ps"
| "essential (Keep sl # ps) = essential ps"
| "essential (Stop e # ps) = [Stop e]"

lemma follow_essential: "follow_plan env (essential ps) log = follow_plan env ps log"
  by (induction env ps log rule: follow_plan.induct) auto

lemma essential_main_plan: "essential (main_plan rx env opts gl) = startup_plan rx env opts gl"
proof -
  note plans = main_plan_def startup_plan_def run_server_plan_def init_plan_def manager_plan_def
    accessor_plans unless_def public_plan_def service_plan_def
  consider "show_version opts" | "\<not> show_version opts" "\<not> check_blacklist rx (blacklist opts) gl"
    | "\<not> show_version opts" "check_blacklist rx (blacklist opts) gl" "\<not> has_display_manager opts"
    | "\<not> show_version opts" "check_blacklist rx (blacklist opts) gl" "has_display_manager opts"
    by blast
  then show ?thesis
  proof cases
    case 4
    then show ?thesis
      by (cases "window_manager_first env") (simp_all add: plans Let_def)
  qed (cases "window_manager_first env"; simp add: plans)+
qed

text \<open>
  C8. From nothing built, the program does exactly what the start-up plan says: each component is
  built on its first use with the arguments the options and the environment give, the steps are
  done in the plan's order up to the first that throws, and the exit status is 0 when the whole
  plan was done and 1 otherwise. This holds whatever each step throws and whether Mir asks for the
  window manager before or after the init callbacks.
\<close>

theorem startup_follows_plan:
  assumes "cached_ptr_ok cp" and "\<And>sl. \<not> is_cached cp sl c"
  shows "usc_main cp rx env opts gl c = follow_plan env (startup_plan rx env opts gl) []"
  unfolding usc_main_follows[OF assms] essential_main_plan[symmetric] follow_essential ..

section \<open>What the plan guarantees\<close>

fun plan_events :: "plan_step list \<Rightarrow> startup_event list" where
  "plan_events [] = []"
| "plan_events (Do ev # ps) = ev # plan_events ps"
| "plan_events (Try ev # ps) = ev # plan_events ps"
| "plan_events (Keep sl # ps) = plan_events ps"
| "plan_events (Stop e # ps) = []"

lemma follow_plan_prefix:
  "\<exists>n. fst (follow_plan env ps log) = log @ take n (plan_events ps) \<and>
     (snd (follow_plan env ps log) = 0 \<longrightarrow> (\<forall>e. Stop e \<notin> set ps) \<and> length (plan_events ps) \<le> n)"
proof (induction env ps log rule: follow_plan.induct)
  case (2 env ev ps log)
  show ?case
  proof (cases "throws env ev = None")
    case True
    with 2 obtain n where "fst (follow_plan env ps (log @ [ev])) = (log @ [ev]) @ take n (plan_events ps) \<and>
     (snd (follow_plan env ps (log @ [ev])) = 0 \<longrightarrow> (\<forall>e. Stop e \<notin> set ps) \<and> length (plan_events ps) \<le> n)"
      by blast
    with True show ?thesis by (intro exI[of _ "Suc n"]) simp
  next
    case False
    then obtain e where "throws env ev = Some e" by auto
    then show ?thesis by (intro exI[of _ 1]) simp
  qed
next
  case (3 env ev ps log)
  then obtain n where "fst (follow_plan env ps (log @ [ev])) = (log @ [ev]) @ take n (plan_events ps) \<and>
     (snd (follow_plan env ps (log @ [ev])) = 0 \<longrightarrow> (\<forall>e. Stop e \<notin> set ps) \<and> length (plan_events ps) \<le> n)"
    by blast
  then show ?case by (intro exI[of _ "Suc n"]) simp
next
  case (4 env sl ps log)
  then show ?case by simp
qed auto

lemma follow_plan_status: "snd (follow_plan env ps log) = 0 \<or> snd (follow_plan env ps log) = 1"
  by (induction env ps log rule: follow_plan.induct) auto

text \<open>\<open>precedes a b log\<close>: \<open>b\<close> does not happen, or only after \<open>a\<close>.\<close>

definition precedes :: "startup_event \<Rightarrow> startup_event \<Rightarrow> startup_event list \<Rightarrow> bool" where
  "precedes a b log \<longleftrightarrow> b \<notin> set log \<or> a \<in> set (takeWhile (\<lambda>x. x \<noteq> b) log)"

lemma precedes_take: "precedes a b log \<Longrightarrow> precedes a b (take n log)"
proof (cases "b \<in> set (take n log)")
  case True
  then have "takeWhile (\<lambda>x. x \<noteq> b) (take n log @ drop n log) = takeWhile (\<lambda>x. x \<noteq> b) (take n log)"
    by (rule takeWhile_append1) simp
  moreover assume "precedes a b log"
  moreover have "b \<in> set log" using True by (rule in_set_takeD)
  ultimately show ?thesis by (simp add: precedes_def)
qed (simp add: precedes_def)

definition startup_constraints :: "server_env \<Rightarrow> (startup_event \<times> startup_event) list" where
  "startup_constraints env =
     (let address = dbus_bus_address (bus_variable env)
      in [(StartDM, BuildScreen), (SetScreen, BuildDisplayService address),
          (BuildEventLoop, BuildDisplayService address),
          (BuildScreenEventHandler, AppendEventFilter),
          (BuildDisplayService address, BuildConnectionThread),
          (BuildInputService address, BuildConnectionThread), (BuildConnectionThread, RunMainLoop)])"

lemma plan_events_ordered:
  "list_all (\<lambda>(a, b). precedes a b (plan_events (startup_plan rx env opts gl))) (startup_constraints env)"
  by (simp add: startup_plan_def service_plan_def startup_constraints_def precedes_def Let_def dm_event_def)

lemma plan_events_distinct: "distinct (plan_events (startup_plan rx env opts gl))"
  by (simp add: startup_plan_def service_plan_def Let_def dm_event_def)

lemma plan_events_last:
  "(\<forall>e. Stop e \<notin> set (startup_plan rx env opts gl)) \<Longrightarrow>
   last (plan_events (startup_plan rx env opts gl)) \<in> {PrintVersion, RunMainLoop}"
  by (auto simp: startup_plan_def service_plan_def Let_def split: if_splits)

text \<open>
  C18. However far the start-up gets: no step is done twice; the display manager is started before
  the screen is built, the screen is connected to the switcher before the display service uses it,
  the event handler exists when Mir is given it, and both services have their D-Bus connections
  before the D-Bus thread runs, which is before the main loop; with exit status 0 the version was
  printed or the main loop has run; and a blacklisted driver ends the program with status 1 before
  anything but the spinner, the switcher and the window manager is built.
\<close>

theorem startup_is_ordered:
  assumes "cached_ptr_ok cp" and "\<And>sl. \<not> is_cached cp sl c"
    and "usc_main cp rx env opts gl c = (log, status)"
  shows "distinct log \<and> list_all (\<lambda>(a, b). precedes a b log) (startup_constraints env) \<and>
    (status = 0 \<longrightarrow> last log \<in> {PrintVersion, RunMainLoop}) \<and>
    (\<not> show_version opts \<and> \<not> check_blacklist rx (blacklist opts) gl \<longrightarrow>
       status = 1 \<and>
       set log \<subseteq> {BuildSpinner (spinner_executable opts) (get_socket_file opts), BuildSwitcher,
                   BuildWindowManager})"
proof -
  let ?evs = "plan_events (startup_plan rx env opts gl)"
  have run: "follow_plan env (startup_plan rx env opts gl) [] = (log, status)"
    using assms(3) unfolding usc_main_follows[OF assms(1,2)] essential_main_plan[symmetric] follow_essential .
  then obtain n where n: "log = take n ?evs"
    "status = 0 \<longrightarrow> (\<forall>e. Stop e \<notin> set (startup_plan rx env opts gl)) \<and> length ?evs \<le> n"
    using follow_plan_prefix[of env "startup_plan rx env opts gl" "[]"] by auto
  have "list_all (\<lambda>(a, b). precedes a b log) (startup_constraints env)"
    using plan_events_ordered[of rx env opts gl] precedes_take
    unfolding n(1) list_all_iff by fast
  moreover have "status = 0 \<longrightarrow> last log \<in> {PrintVersion, RunMainLoop}"
    using n plan_events_last by auto
  moreover have "\<not> show_version opts \<and> \<not> check_blacklist rx (blacklist opts) gl \<longrightarrow>
      ?evs = (BuildSpinner (spinner_executable opts) (get_socket_file opts) #
        (if window_manager_first env then [BuildSwitcher, BuildWindowManager] else [])) \<and>
      (\<exists>e. Stop e \<in> set (startup_plan rx env opts gl))"
    by (auto simp: startup_plan_def)
  moreover have "status = 0 \<or> status = 1"
    using follow_plan_status[of env "startup_plan rx env opts gl" "[]"] run by simp
  ultimately show ?thesis
    using n plan_events_distinct[of rx env opts gl] set_take_subset[of n ?evs]
    by (auto split: if_splits)
qed

section \<open>Examples\<close>

definition prefix_regex :: "string regex_lib" where
  "prefix_regex = \<lparr>regcomp = Some, regexec = (\<lambda>re s. take (length re) s = re)\<rparr>"

definition calm_env :: server_env where
  "calm_env = \<lparr>bus_variable = None, throws = (\<lambda>ev. None), window_manager_first = True\<rparr>"

definition demo_gl :: gl_strings where
  "demo_gl = \<lparr>gl_vendor = Some ''VMware, Inc.'', gl_renderer = Some ''llvmpipe'', gl_version = None\<rparr>"

definition demo_options :: options where
  "demo_options =
     with_defaults [''debug-without-dm'' \<mapsto> NullOption, ''blacklist'' \<mapsto> StringOption ''Mesa'',
       ''public-socket'' \<mapsto> BoolOption False]"

theorem startup_follows_plan_witness:
  "usc_main slot_list prefix_regex calm_env demo_options demo_gl [] =
   ([BuildSpinner '''' ''/tmp/mir_socket'', BuildSwitcher, BuildWindowManager,
     BuildNullDM ''nested-mir@:/run/user/1000/mir_socket'', StartDM, BuildScreen, RegisterInterest,
     SetScreen, BuildEventLoop, BuildDisplayService ''unix:path=/var/run/dbus/system_bus_socket'',
     BuildPowerButtonSink ''unix:path=/var/run/dbus/system_bus_socket'',
     BuildUserActivitySink ''unix:path=/var/run/dbus/system_bus_socket'', BuildClock,
     BuildScreenEventHandler, AppendEventFilter, BuildInputConfiguration,
     BuildInputService ''unix:path=/var/run/dbus/system_bus_socket'', BuildConnectionThread,
     RunMainLoop], 0)" (is "_ = ?done")
proof -
  have "\<not> is_cached slot_list sl []" for sl by (simp add: slot_list_def)
  note plan = startup_follows_plan[OF slot_list_ok this, of prefix_regex calm_env demo_options demo_gl]
  have "follow_plan calm_env (startup_plan prefix_regex calm_env demo_options demo_gl) [] = ?done"
    by code_simp
  with plan show ?thesis by simp
qed

theorem startup_is_ordered_witness:
  "usc_main slot_list prefix_regex calm_env
      [''blacklist'' \<mapsto> StringOption ''VMware''] demo_gl [] =
     ([BuildSpinner '''' ''/tmp/mir_socket'', BuildSwitcher, BuildWindowManager], 1) \<and>
   distinct [BuildSpinner '''' ''/tmp/mir_socket'', BuildSwitcher, BuildWindowManager]"
proof -
  let ?opts = "[''blacklist'' \<mapsto> StringOption ''VMware''] :: options"
  have run: "usc_main slot_list prefix_regex calm_env ?opts demo_gl [] =
     ([BuildSpinner '''' ''/tmp/mir_socket'', BuildSwitcher, BuildWindowManager], 1)"
    by code_simp
  have "\<not> is_cached slot_list sl []" for sl by (simp add: slot_list_def)
  from startup_is_ordered[OF slot_list_ok this run] run show ?thesis by blast
qed

end
