(* ===== verification/Connection_Thread.thy ===== *)
theory Connection_Thread
  imports Event_Loop_Props Dbus_Handles Input_Service
begin

text \<open>
  The thread that runs the D-Bus event loop (\<open>src/dbus_connection_thread.cpp\<close>,
  \<open>src/thread_name.cpp\<close>), the loop's destructor and the set-up of the input service's connection
  (\<open>src/unity_input_service.cpp\<close>). The destructor of the thread stops the loop and joins the thread;
  that the join returns is proved here.
\<close>

section \<open>Definitions\<close>

definition set_thread_name :: "string \<Rightarrow> string" where
  "set_thread_name name = (let max_name_len = 15 in take max_name_len name)"

text \<open>The constructor returns once \<open>run\<close> has set its promise, which it does after \<open>running\<close>: the
  thread's name and the loop as other threads find it.\<close>

definition new_connection_thread :: "'a event_loop \<Rightarrow> string \<times> 'a event_loop" where
  "new_connection_thread l = (set_thread_name ''USC/DBus'', l\<lparr>running := True\<rparr>)"

text \<open>The destructor: \<open>stop\<close>, and \<open>join\<close> while the thread handles what \<open>inputs\<close> says.\<close>

definition destroy_connection_thread ::
  "bus \<Rightarrow> 'a loop_input list \<Rightarrow> 'a event_loop \<Rightarrow> (bool \<times> 'a event_loop) res" where
  "destroy_connection_thread b inputs l = for_each (loop_step b) inputs (True, stop l)"

datatype unset_call = UnsetWatchFunctions nat | UnsetTimeoutFunctions nat | UnsetWakeupFunction nat

definition destroy_event_loop :: "'a event_loop \<Rightarrow> unset_call list \<times> 'a event_loop" where
  "destroy_event_loop l =
     (let l1 = stop l
      in (concat (map (\<lambda>c. [UnsetWatchFunctions c, UnsetTimeoutFunctions c, UnsetWakeupFunction c])
            (connections l1)), l1))"

definition new_input_service ::
  "bus_answers \<Rightarrow> string \<Rightarrow> nat \<Rightarrow> input_configuration \<Rightarrow> 'a event_loop \<Rightarrow>
   ('m input_service \<times> 'a event_loop) res" where
  "new_input_service ans address c cfg l =
     (case new_connection_handle ans address of
        (cs, Some e) \<Rightarrow> Inl e
      | (cs, None) \<Rightarrow>
          bind_res (add_connection c l) (\<lambda>l1.
          case then_do (request_name ans ''com.canonical.Unity.Input'' cs) (add_filter ans) of
            (cs2, Some e) \<Rightarrow> Inl e
          | (cs2, None) \<Rightarrow> Inr (\<lparr>input_config = cfg, input_messages = []\<rparr>, l1)))"

section \<open>The join returns\<close>

lemma connections_call [simp]: "connections (call_bus c l) = connections l"
  by (simp add: call_bus_def)

lemma connections_fold: "connections (fold (\<lambda>x. call_bus (f x)) xs l) = connections l"
  by (induction xs arbitrary: l) auto

lemma connections_serve: "connections (fold (serve_connection b) cs l) = connections l"
proof (induction cs arbitrary: l)
  case (Cons c cs)
  have "connections (serve_connection b c l) = connections l"
    by (simp only: serve_connection_def connections_fold[of "\<lambda>x. x"] connections_call)
  with Cons show ?case by simp
qed simp

lemma connections_body: "loop_body b ans l = Inr l' \<Longrightarrow> connections l' = connections l"
  by (auto simp: loop_body_def handle_ready_def dispatch_actions_def swap_actions_def Let_def
      connections_serve connections_fold split: epoll_answer.splits option.splits if_splits)

lemma running_dispatch: "running (dispatch_actions l) = running l"
proof -
  have "running (fold (\<lambda>a. call_bus (PerformAction a)) xs l') = running l'" for xs :: "'a list" and l'
    by (induction xs arbitrary: l') (auto simp: call_bus_def)
  then show ?thesis by (simp add: dispatch_actions_def swap_actions_def)
qed

lemma queue_serve:
  "running (fold (serve_connection b) cs l) = running l"
  "performed (fold (serve_connection b) cs l) = performed l"
  using same_queue_serve[of l b cs] by (simp_all add: same_queue_def)

lemma queue_ready:
  "running (handle_ready b fd ev l) = running l" "actions (handle_ready b fd ev l) = actions l"
  "performed (handle_ready b fd ev l) = performed l"
  using same_queue_ready(1)[of l b fd ev] by (simp_all add: same_queue_def)

lemma running_body: "loop_body b ans l = Inr l' \<Longrightarrow> running l' = running l"
  by (cases ans) (auto simp: loop_body_def Let_def queue_serve queue_ready running_dispatch)

lemma performed_body:
  "loop_body b (Ready fd ev) l = Inr l' \<Longrightarrow> performed l' = performed l @ actions l"
  by (auto simp: loop_body_def Let_def queue_serve queue_ready performed_dispatch)

lemma enqueue_steps:
  "for_each (loop_step b) (map Enqueue as) (in_loop, l) = Inr (in_loop, fold enqueue as l)"
  by (induction as arbitrary: l) auto

lemma fold_enqueue:
  "running (fold enqueue as l) = running l \<and> actions (fold enqueue as l) = actions l @ as \<and>
   connections (fold enqueue as l) = connections l \<and> performed (fold enqueue as l) = performed l \<and>
   wake_up_bytes (fold enqueue as l) = wake_up_bytes l + length as"
  by (induction as arbitrary: l)
    (auto simp: enqueue_def push_action_def wake_up_loop_def performed_def)

lemma performed_stop: "performed (stop l) = performed l"
  by (simp add: performed_def stop_def wake_up_loop_def)

lemma fold_calls: "fold (\<lambda>c. call_bus (f c)) cs l = l\<lparr>loop_calls := loop_calls l @ map f cs\<rparr>"
  by (induction cs arbitrary: l) (auto simp: call_bus_def)

text \<open>
  C20. Once the thread has been started, its destruction ends it: however many actions are queued
  after the stop, the wake-up pipe is readable, so \<open>epoll_wait\<close> answers, and after that answer,
  whichever it is (an interruption included, a failure of \<open>epoll_wait\<close> excepted), the thread has
  left its loop; the last it did was to flush every connection, and unless it was interrupted it has
  performed every action queued.
\<close>

theorem stopped_thread_ends:
  assumes "l = snd (new_connection_thread l0)" and "for_each (loop_step b) inputs (True, l) = Inr (True, l1)"
    and "ans \<noteq> WaitFailed"
  shows "wake_up_bytes (fold enqueue as (stop l1)) > 0 \<and>
    (\<exists>l2 cs. destroy_connection_thread b (map Enqueue as @ [Answer ans]) l1 = Inr (False, l2) \<and>
       loop_calls l2 = cs @ map FlushConnection (connections l1) \<and>
       (ans \<noteq> Interrupted \<longrightarrow> performed l2 = performed l1 @ actions l1 @ as))"
proof -
  let ?l = "fold enqueue as (stop l1)"
  have l: "\<not> running ?l" "connections ?l = connections l1" "actions ?l = actions l1 @ as"
    "performed ?l = performed l1" "wake_up_bytes ?l > 0"
    using performed_stop[of l1] by (simp_all add: fold_enqueue, simp_all add: stop_def wake_up_loop_def)
  obtain l2 where l2: "loop_body b ans ?l = Inr l2"
    using assms(3) by (cases ans) (auto simp: loop_body_def Let_def)
  let ?left = "fold (\<lambda>c. call_bus (FlushConnection c)) (connections l2) l2"
  have "destroy_connection_thread b (map Enqueue as @ [Answer ans]) l1 = Inr (False, ?left)"
    using l(1) running_body[OF l2]
    by (simp add: destroy_connection_thread_def for_each_append enqueue_steps l2)
  moreover have "loop_calls ?left = loop_calls l2 @ map FlushConnection (connections l1)"
    using connections_body[OF l2] l(2) by (simp add: fold_calls)
  moreover have "performed ?left = performed l1 @ actions l1 @ as" if "ans \<noteq> Interrupted"
  proof (cases ans)
    case (Ready fd ev)
    with l2 have "performed l2 = performed l1 @ actions l1 @ as"
      using performed_body[of b fd ev ?l l2] l(3,4) by simp
    then show ?thesis by (simp add: fold_calls performed_def List.map_filter_def comp_def)
  qed (use that assms(3) in auto)
  ultimately show ?thesis using l(5) by blast
qed

theorem stopped_thread_ends_witness:
  "\<exists>l2. destroy_connection_thread demo_bus [Enqueue 5, Answer (Ready 3 EPOLLIN)]
      (snd (new_connection_thread demo_loop)) = Inr (False, l2) \<and> performed l2 = [5]"
proof -
  have "for_each (loop_step demo_bus) [] (True, snd (new_connection_thread demo_loop)) =
      Inr (True, snd (new_connection_thread demo_loop))" by simp
  from stopped_thread_ends[OF refl this, of "Ready 3 EPOLLIN" "[5]"] show ?thesis
    by (auto simp: new_connection_thread_def demo_loop_def performed_def map_filter_simps)
qed

end
