(* ===== verification/Spinner_Config.thy ===== *)
theory Spinner_Config
  imports Std_Map
begin

text \<open>
  The configuration file of the boot spinner (class \<open>SessionConfig\<close> of \<open>spinner/eglspinner.cpp\<close>):
  lines \<open>key=value\<close> with white space around both, the first value of a key counts, and an integer
  that does not parse falls back to its default.
\<close>

section \<open>Characters and numbers\<close>

text \<open>\<open>std::isspace\<close> in the C locale, and \<open>std::isdigit\<close> with the digit's value.\<close>

definition isspace :: "char \<Rightarrow> bool" where
  "isspace c \<longleftrightarrow> c = CHR '' '' \<or> (9 \<le> (of_char c :: nat) \<and> (of_char c :: nat) \<le> 13)"

definition isdigit :: "char \<Rightarrow> bool" where
  "isdigit c \<longleftrightarrow> 48 \<le> (of_char c :: nat) \<and> (of_char c :: nat) \<le> 57"

definition digit_value :: "char \<Rightarrow> nat" where
  "digit_value c = of_char c - 48"

definition digits_value :: "string \<Rightarrow> nat" where
  "digits_value ds = fold (\<lambda>c v. v * 10 + digit_value c) ds 0"

text \<open>\<open>std::stoi\<close>: leading white space, a sign, digits up to the first other character; it throws
  without digits and when the value is no \<open>int\<close>.\<close>

definition scan_sign :: "string \<Rightarrow> bool \<times> string" where
  "scan_sign s =
     (case s of
        [] \<Rightarrow> (False, s)
      | c # r \<Rightarrow> if c = CHR ''-'' then (True, r) else if c = CHR ''+'' then (False, r) else (False, s))"

definition stoi :: "string \<Rightarrow> int res" where
  "stoi s =
     (let (negative, r) = scan_sign (dropWhile isspace s);
          ds = takeWhile isdigit r;
          v = (if negative then - int (digits_value ds) else int (digits_value ds))
      in if ds = [] then Inl (LogicError ''stoi'')
         else if v < - (2 ^ 31) \<or> 2 ^ 31 \<le> v then Inl (LogicError ''stoi'')
         else Inr v)"

section \<open>Parsing\<close>

definition trim :: "string \<Rightarrow> string" where
  "trim s =
     (let wsfront = length (takeWhile isspace s);
          wsback = length s - length (takeWhile isspace (rev s))
      in if wsback \<le> wsfront then '''' else take (wsback - wsfront) (drop wsfront s))"

text \<open>\<open>find ("=")\<close>: a position, or \<open>npos\<close>.\<close>

fun find_char :: "char \<Rightarrow> string \<Rightarrow> nat option" where
  "find_char c [] = None"
| "find_char c (x # xs) = (if x = c then Some 0 else map_option Suc (find_char c xs))"

definition parse_key_value_pair :: "string \<Rightarrow> string \<times> string" where
  "parse_key_value_pair kv =
     (let separator = find_char (CHR ''='') kv;
          key = (case separator of None \<Rightarrow> kv | Some p \<Rightarrow> take p kv);
          val = (case separator of None \<Rightarrow> '''' | Some p \<Rightarrow> drop (p + 1) kv)
      in (trim key, trim val))"

text \<open>\<open>std::getline\<close> until it fails: a last line without a newline counts if it is not empty.\<close>

fun getlines :: "string \<Rightarrow> string list" where
  "getlines [] = []"
| "getlines (c # s) =
     (let line = takeWhile (\<lambda>x. x \<noteq> CHR 0x0A) (c # s)
      in line # getlines (drop (length line) s))"

type_synonym session_config = "(string, string) std_map"

definition insert_line :: "string \<Rightarrow> session_config \<Rightarrow> session_config" where
  "insert_line line conf_map = (let (k, v) = parse_key_value_pair line in insert_key k v conf_map)"

definition default_file :: string where
  "default_file = ''/etc/ubuntu-touch-session.d/android.conf''"

definition file_base :: string where "file_base = ''/etc/ubuntu-touch-session.d/''"

definition file_extension :: string where "file_extension = ''.conf''"

text \<open>\<open>files\<close> are the readable files; \<open>device\<close> is the device property, none when the program is built
  without properties.\<close>

definition session_conf_text :: "(string \<Rightarrow> string option) \<Rightarrow> string option \<Rightarrow> string" where
  "session_conf_text files device =
     (case files default_file of
        Some t \<Rightarrow> t
      | None \<Rightarrow>
          (case device of
             None \<Rightarrow> ''''
           | Some v \<Rightarrow> (case files (file_base @ v @ file_extension) of Some t \<Rightarrow> t | None \<Rightarrow> '''')))"

definition parse_session_conf_file :: "(string \<Rightarrow> string option) \<Rightarrow> string option \<Rightarrow> session_config" where
  "parse_session_conf_file files device =
     fold insert_line (getlines (session_conf_text files device)) []"

definition get_string :: "session_config \<Rightarrow> string \<Rightarrow> string \<Rightarrow> string" where
  "get_string conf_map key default_value =
     (case find_key conf_map key of Some v \<Rightarrow> v | None \<Rightarrow> default_value)"

definition get_int_value :: "session_config \<Rightarrow> string \<Rightarrow> int \<Rightarrow> int" where
  "get_int_value conf_map key default_value =
     (case find_key conf_map key of
        None \<Rightarrow> default_value
      | Some v \<Rightarrow> (case stoi v of Inl e \<Rightarrow> default_value | Inr i \<Rightarrow> i))"

section \<open>Lemmas\<close>

text \<open>Trimming drops the white space on both sides, and nothing else.\<close>

definition trimmed :: "string \<Rightarrow> bool" where
  "trimmed s \<longleftrightarrow> s = [] \<or> (\<not> isspace (hd s) \<and> \<not> isspace (last s))"

lemma takeWhile_spaces:
  assumes "list_all isspace ws" and "s = [] \<or> \<not> isspace (hd s)" and "s \<noteq> []"
  shows "takeWhile isspace (ws @ s @ t) = ws"
proof -
  obtain c r where "s = c # r" using assms(3) by (cases s) auto
  then show ?thesis using assms by (auto simp: list_all_iff takeWhile_append2)
qed

lemma trim_all_space: "list_all isspace s \<Longrightarrow> trim s = []"
proof -
  assume "list_all isspace s"
  then have all: "takeWhile isspace s = s" by (simp add: list_all_iff takeWhile_eq_all_conv)
  show ?thesis unfolding trim_def Let_def all by simp
qed

lemma trim_padded:
  assumes "list_all isspace ws" "list_all isspace ws'" "trimmed s"
  shows "trim (ws @ s @ ws') = s"
proof (cases "s = []")
  case True
  then show ?thesis using assms trim_all_space[of "ws @ ws'"] by simp
next
  case False
  have "takeWhile isspace (ws @ s @ ws') = ws"
    using takeWhile_spaces[OF assms(1) _ False] assms(3) False by (simp add: trimmed_def)
  moreover have "takeWhile isspace (rev ws' @ rev s @ rev ws) = rev ws'"
    using assms False by (intro takeWhile_spaces) (auto simp: trimmed_def hd_rev)
  ultimately show ?thesis using False by (simp add: trim_def)
qed

lemma trim_trimmed: "trimmed (trim s)"
proof -
  let ?f = "length (takeWhile isspace s)" and ?b = "length s - length (takeWhile isspace (rev s))"
  show ?thesis
  proof (cases "?b \<le> ?f")
    case False
    let ?t = "take (?b - ?f) (drop ?f s)"
    have "?f < length s" using False by simp
    then have "\<not> isspace (s ! ?f)" by (rule nth_length_takeWhile)
    moreover have "hd ?t = s ! ?f" using False by (simp add: hd_drop_conv_nth)
    moreover have r: "length (takeWhile isspace (rev s)) < length (rev s)" using False by simp
    then have "\<not> isspace (rev s ! length (takeWhile isspace (rev s)))" by (rule nth_length_takeWhile)
    then have "\<not> isspace (s ! (?b - 1))" using r by (simp add: rev_nth)
    moreover have "last ?t = s ! (?b - 1)"
      using False by (subst last_conv_nth) (auto simp: )
    ultimately show ?thesis using False by (simp add: trim_def trimmed_def Let_def)
  qed (simp add: trim_def trimmed_def)
qed

lemma find_char_append: "c \<notin> set k \<Longrightarrow> find_char c (k @ c # r) = Some (length k)"
  by (induction k) auto

lemma find_char_none: "c \<notin> set k \<Longrightarrow> find_char c k = None"
  by (induction k) auto

lemma getlines_append:
  "CHR 0x0A \<notin> set line \<Longrightarrow> getlines (line @ CHR 0x0A # s) = line # getlines s"
proof (cases line)
  case (Cons c r)
  assume no: "CHR 0x0A \<notin> set line"
  have "takeWhile (\<lambda>x. x \<noteq> CHR 0x0A) (line @ CHR 0x0A # s) = line"
    using no by (subst takeWhile_append2) auto
  with Cons show ?thesis by (simp add: Let_def)
qed simp

text \<open>Decimal numbers.\<close>

definition digit_char :: "nat \<Rightarrow> char" where
  "digit_char d = char_of (48 + d)"

fun decimal :: "nat \<Rightarrow> string" where
  "decimal n = (if n < 10 then [digit_char n] else decimal (n div 10) @ [digit_char (n mod 10)])"

declare decimal.simps [simp del]

definition int_text :: "int \<Rightarrow> string" where
  "int_text i = (if i < 0 then CHR ''-'' # decimal (nat (- i)) else decimal (nat i))"

lemma digit_char_ok: "d < 10 \<Longrightarrow> isdigit (digit_char d) \<and> digit_value (digit_char d) = d"
  by (simp add: isdigit_def digit_value_def digit_char_def)

lemma decimal_digits: "list_all isdigit (decimal n) \<and> digits_value (decimal n) = n \<and> decimal n \<noteq> []"
proof (induction n rule: decimal.induct)
  case (1 n)
  show ?case
  proof (cases "n < 10")
    case True
    then show ?thesis using digit_char_ok[of n] by (simp add: decimal.simps[of n] digits_value_def)
  next
    case False
    then show ?thesis
      using 1 digit_char_ok[of "n mod 10"] by (simp add: decimal.simps[of n] digits_value_def)
  qed
qed

lemma isdigit_not_other: "isdigit c \<Longrightarrow> \<not> isspace c \<and> c \<noteq> CHR ''-'' \<and> c \<noteq> CHR ''+''"
  by (auto simp: isdigit_def isspace_def)

lemma scan_digits:
  assumes "list_all isdigit ds" "ds \<noteq> []"
  shows "scan_sign (dropWhile isspace ds) = (False, ds)"
    "scan_sign (dropWhile isspace (CHR ''-'' # ds)) = (True, ds)" "takeWhile isdigit ds = ds"
proof -
  obtain c r where ds: "ds = c # r" using assms(2) by (cases ds) auto
  with assms(1) have "isdigit c" by simp
  with ds show "scan_sign (dropWhile isspace ds) = (False, ds)"
    using isdigit_not_other[of c] by (simp add: scan_sign_def)
  show "scan_sign (dropWhile isspace (CHR ''-'' # ds)) = (True, ds)"
    by (simp add: scan_sign_def isspace_def)
  show "takeWhile isdigit ds = ds" using assms(1) by (simp add: list_all_iff takeWhile_eq_all_conv)
qed

lemma stoi_digits:
  assumes "list_all isdigit ds" "ds \<noteq> []"
  shows "stoi ds = (if 2 ^ 31 \<le> int (digits_value ds) then Inl (LogicError ''stoi'')
      else Inr (int (digits_value ds)))"
    "stoi (CHR ''-'' # ds) = (if - int (digits_value ds) < - (2 ^ 31) then Inl (LogicError ''stoi'')
      else Inr (- int (digits_value ds)))"
  unfolding stoi_def scan_digits(1,2)[OF assms] prod.case Let_def scan_digits(3)[OF assms]
  using assms(2) by auto

lemma stoi_int_text:
  assumes "- (2 ^ 31) \<le> i" "i < 2 ^ 31"
  shows "stoi (int_text i) = Inr i"
  using stoi_digits[of "decimal (nat i)"] stoi_digits[of "decimal (nat (- i))"]
    decimal_digits[of "nat i"] decimal_digits[of "nat (- i)"] assms
  by (auto simp: int_text_def)

lemma stoi_range: "stoi s = Inr i \<Longrightarrow> - (2 ^ 31) \<le> i \<and> i < 2 ^ 31"
  by (auto simp: stoi_def Let_def split: prod.splits if_splits)

text \<open>What a text denotes as a number, without the scanning: white space, at most one sign, digits,
  and then anything that does not begin with a digit.\<close>

definition denotes_int :: "string \<Rightarrow> int \<Rightarrow> bool" where
  "denotes_int s i \<longleftrightarrow>
     (\<exists>ws sign ds rest. s = ws @ sign @ ds @ rest \<and> list_all isspace ws \<and> sign \<in> {'''', ''+'', ''-''} \<and>
        ds \<noteq> [] \<and> list_all isdigit ds \<and> (rest = [] \<or> \<not> isdigit (hd rest)) \<and>
        i = (if sign = ''-'' then - int (digits_value ds) else int (digits_value ds)))"

lemma scan_denotes:
  assumes "denotes_int s i"
  shows "\<exists>negative r. scan_sign (dropWhile isspace s) = (negative, r) \<and> takeWhile isdigit r \<noteq> [] \<and>
    i = (if negative then - int (digits_value (takeWhile isdigit r)) else int (digits_value (takeWhile isdigit r)))"
proof -
  obtain ws sign ds rest where s: "s = ws @ sign @ ds @ rest" "list_all isspace ws"
    "sign \<in> {'''', ''+'', ''-''}" "ds \<noteq> []" "list_all isdigit ds" "rest = [] \<or> \<not> isdigit (hd rest)"
    "i = (if sign = ''-'' then - int (digits_value ds) else int (digits_value ds))"
    using assms unfolding denotes_int_def by blast
  obtain c r where ds: "ds = c # r" using s(4) by (cases ds) auto
  then have c: "\<not> isspace c" "c \<noteq> CHR ''-''" "c \<noteq> CHR ''+''" using s(5) isdigit_not_other[of c] by auto
  have sign: "\<not> isspace (CHR ''-'')" "\<not> isspace (CHR ''+'')" by (simp_all add: isspace_def)
  have "dropWhile isspace s = dropWhile isspace (sign @ ds @ rest)"
    using s(1,2) by (simp add: dropWhile_append2 list_all_iff)
  also have "\<dots> = sign @ ds @ rest" using s(3) ds c sign by auto
  finally have "scan_sign (dropWhile isspace s) = (sign = ''-'', ds @ rest)"
    using s(3) ds c by (auto simp: scan_sign_def)
  moreover have "takeWhile isdigit (ds @ rest) = ds"
    using s(5,6) by (cases rest) (simp_all add: takeWhile_append2 list_all_iff takeWhile_eq_all_conv)
  ultimately show ?thesis using s(4,7) by auto
qed

lemma denotes_scan:
  assumes "scan_sign (dropWhile isspace s) = (negative, r)" "takeWhile isdigit r \<noteq> []"
  shows "denotes_int s (if negative then - int (digits_value (takeWhile isdigit r))
    else int (digits_value (takeWhile isdigit r)))"
proof -
  obtain sign where sign: "dropWhile isspace s = sign @ r" "sign \<in> {'''', ''+'', ''-''}" "negative \<longleftrightarrow> sign = ''-''"
  proof (cases "dropWhile isspace s")
    case Nil
    with assms show ?thesis by (simp only: scan_sign_def list.case prod.inject) auto
  next
    case (Cons c t)
    with assms(1) that[of "''-''"] that[of "''+''"] that[of "''''"] show ?thesis
      by (auto simp: scan_sign_def split: if_splits)
  qed
  have "s = takeWhile isspace s @ sign @ takeWhile isdigit r @ dropWhile isdigit r"
    using sign(1) by (metis takeWhile_dropWhile_id)
  moreover have "list_all isspace (takeWhile isspace s)" "list_all isdigit (takeWhile isdigit r)"
    by (auto simp: list_all_iff dest: set_takeWhileD)
  moreover have "dropWhile isdigit r = [] \<or> \<not> isdigit (hd (dropWhile isdigit r))"
    using hd_dropWhile by blast
  ultimately show ?thesis
    using sign(2,3) assms(2) unfolding denotes_int_def by blast
qed

lemma stoi_denotes: "stoi s = Inr i \<longleftrightarrow> denotes_int s i \<and> - (2 ^ 31) \<le> i \<and> i < 2 ^ 31"
proof
  show "stoi s = Inr i \<Longrightarrow> denotes_int s i \<and> - (2 ^ 31) \<le> i \<and> i < 2 ^ 31"
    using denotes_scan[of s] stoi_range[of s i]
    by (auto simp: stoi_def Let_def split: prod.splits if_splits)
  show "denotes_int s i \<and> - (2 ^ 31) \<le> i \<and> i < 2 ^ 31 \<Longrightarrow> stoi s = Inr i"
    using scan_denotes[of s i] by (auto simp: stoi_def Let_def)
qed

section \<open>Reading back what was written\<close>

text \<open>An entry with the white space around its key and its value.\<close>

record conf_entry =
  entry_key :: string
  entry_value :: string
  spaces :: "string \<times> string \<times> string \<times> string"

definition entry_line :: "conf_entry \<Rightarrow> string" where
  "entry_line e =
     (case spaces e of (a, b, c, d) \<Rightarrow> a @ entry_key e @ b @ CHR ''='' # c @ entry_value e @ d)"

definition entry_ok :: "conf_entry \<Rightarrow> bool" where
  "entry_ok e \<longleftrightarrow>
     (case spaces e of (a, b, c, d) \<Rightarrow> list_all (\<lambda>x. isspace x \<and> x \<noteq> CHR 0x0A) (a @ b @ c @ d)) \<and>
     trimmed (entry_key e) \<and> trimmed (entry_value e) \<and> CHR ''='' \<notin> set (entry_key e) \<and>
     CHR 0x0A \<notin> set (entry_key e) \<and> CHR 0x0A \<notin> set (entry_value e)"

lemma parse_entry_line:
  assumes "entry_ok e"
  shows "parse_key_value_pair (entry_line e) = (entry_key e, entry_value e)"
proof -
  obtain a b c d where sp: "spaces e = (a, b, c, d)" by (cases "spaces e") auto
  with assms have ws: "list_all isspace a" "list_all isspace b" "list_all isspace c" "list_all isspace d"
    by (auto simp: entry_ok_def list_all_iff)
  have "\<not> isspace (CHR ''='')" by (simp add: isspace_def)
  then have "CHR ''='' \<notin> set a" "CHR ''='' \<notin> set b" using ws by (auto simp: list_all_iff)
  then have "CHR ''='' \<notin> set (a @ entry_key e @ b)" using assms by (simp add: entry_ok_def)
  from find_char_append[OF this, of "c @ entry_value e @ d"]
  have "find_char (CHR ''='') (entry_line e) = Some (length (a @ entry_key e @ b))"
    by (simp add: entry_line_def sp)
  moreover have "take (length (a @ entry_key e @ b)) (entry_line e) = a @ entry_key e @ b"
    "drop (length (a @ entry_key e @ b) + 1) (entry_line e) = c @ entry_value e @ d"
    by (simp_all add: entry_line_def sp)
  ultimately show ?thesis
    using trim_padded[OF ws(1,2)] trim_padded[OF ws(3,4)] assms
    by (simp add: parse_key_value_pair_def entry_ok_def del: length_append)
qed

lemma entry_line_no_newline: "entry_ok e \<Longrightarrow> CHR 0x0A \<notin> set (entry_line e)"
  by (cases "spaces e") (auto simp: entry_ok_def entry_line_def list_all_iff)

lemma getlines_entries:
  "list_all entry_ok es \<Longrightarrow>
   getlines (concat (map (\<lambda>e. entry_line e @ [CHR 0x0A]) es)) = map entry_line es"
  by (induction es) (simp_all add: getlines_append entry_line_no_newline del: getlines.simps(2))

lemma insert_lines:
  "list_all entry_ok es \<Longrightarrow>
   find_key (fold insert_line (map entry_line es) m) k =
     (case find_key m k of
        Some v \<Rightarrow> Some v
      | None \<Rightarrow> map_of (map (\<lambda>e. (entry_key e, entry_value e)) es) k)"
proof (induction es arbitrary: m)
  case (Cons e es)
  then show ?case
    by (auto simp: insert_line_def parse_entry_line find_insert_key split: option.splits)
qed (simp split: option.splits)

text \<open>
  C30. A configuration file made of lines \<open>key=value\<close>, with any white space around keys and values,
  is read back: each key gives the value of its first line, white space inside values and further
  equal signs included, and a key without a line gives the default. As an integer it gives the
  number the value denotes (after white space a sign, if any, and digits up to the first other
  character) when that number fits an \<open>int\<close>, so one written in decimal is read back as itself; and
  the default when the key has no line, the value denotes no number, or a number that does not fit.
\<close>

theorem session_conf_roundtrip:
  assumes "files default_file = Some (concat (map (\<lambda>e. entry_line e @ [CHR 0x0A]) es))"
    and "list_all entry_ok es"
  shows "get_string (parse_session_conf_file files device) k d =
      (case map_of (map (\<lambda>e. (entry_key e, entry_value e)) es) k of None \<Rightarrow> d | Some v \<Rightarrow> v) \<and>
    (\<forall>i. - (2 ^ 31) \<le> i \<and> i < 2 ^ 31 \<and>
         map_of (map (\<lambda>e. (entry_key e, entry_value e)) es) k = Some (int_text i) \<longrightarrow>
       get_int_value (parse_session_conf_file files device) k n = i) \<and>
    (case map_of (map (\<lambda>e. (entry_key e, entry_value e)) es) k of
       None \<Rightarrow> get_int_value (parse_session_conf_file files device) k n = n
     | Some v \<Rightarrow>
         (\<forall>i. denotes_int v i \<and> - (2 ^ 31) \<le> i \<and> i < 2 ^ 31 \<longrightarrow>
            get_int_value (parse_session_conf_file files device) k n = i) \<and>
         ((\<nexists>i. denotes_int v i \<and> - (2 ^ 31) \<le> i \<and> i < 2 ^ 31) \<longrightarrow>
            get_int_value (parse_session_conf_file files device) k n = n))"
proof -
  have found: "find_key (parse_session_conf_file files device) k =
      map_of (map (\<lambda>e. (entry_key e, entry_value e)) es) k"
    using insert_lines[OF assms(2), of "[]" k]
    by (simp add: parse_session_conf_file_def session_conf_text_def assms(1) getlines_entries[OF assms(2)])
  have int: "get_int_value (parse_session_conf_file files device) k n =
      (case map_of (map (\<lambda>e. (entry_key e, entry_value e)) es) k of None \<Rightarrow> n
       | Some v \<Rightarrow> (case stoi v of Inl e \<Rightarrow> n | Inr i \<Rightarrow> i))"
    by (simp add: get_int_value_def found)
  have "(\<nexists>i. denotes_int v i \<and> - (2 ^ 31) \<le> i \<and> i < 2 ^ 31) \<longleftrightarrow> (\<exists>e. stoi v = Inl e)" for v
    using stoi_denotes[of v] by (cases "stoi v") auto
  with stoi_int_text show ?thesis
    unfolding int stoi_denotes[symmetric] by (auto simp: get_string_def found split: option.splits)
qed

theorem session_conf_roundtrip_witness:
  "get_string (parse_session_conf_file
      [default_file \<mapsto> '' GRID_UNIT_PX = 18'' @ [CHR 0x0A] @ ''NATIVE_ORIENTATION=landscape'' @ [CHR 0x0A] @
        ''GRID_UNIT_PX=5'' @ [CHR 0x0A]] None) ''NATIVE_ORIENTATION'' '''' = ''landscape'' \<and>
   get_int_value (parse_session_conf_file
      [default_file \<mapsto> '' GRID_UNIT_PX = 18'' @ [CHR 0x0A] @ ''NATIVE_ORIENTATION=landscape'' @ [CHR 0x0A] @
        ''GRID_UNIT_PX=5'' @ [CHR 0x0A]] None) ''GRID_UNIT_PX'' 13 = 18"
proof -
  let ?es = "[\<lparr>entry_key = ''GRID_UNIT_PX'', entry_value = ''18'', spaces = ('' '', '' '', '' '', '''')\<rparr>,
    \<lparr>entry_key = ''NATIVE_ORIENTATION'', entry_value = ''landscape'', spaces = ('''', '''', '''', '''')\<rparr>,
    \<lparr>entry_key = ''GRID_UNIT_PX'', entry_value = ''5'', spaces = ('''', '''', '''', '''')\<rparr>]"
  let ?files = "[default_file \<mapsto> '' GRID_UNIT_PX = 18'' @ [CHR 0x0A] @ ''NATIVE_ORIENTATION=landscape'' @
    [CHR 0x0A] @ ''GRID_UNIT_PX=5'' @ [CHR 0x0A]]"
  have files: "?files default_file = Some (concat (map (\<lambda>e. entry_line e @ [CHR 0x0A]) ?es))"
    by (simp add: entry_line_def)
  have ok: "list_all entry_ok ?es" by code_simp
  note read_back = session_conf_roundtrip[where es = ?es and files = ?files, OF files ok]
  have "int_text 18 = ''18''" by code_simp
  then have "get_int_value (parse_session_conf_file ?files None) ''GRID_UNIT_PX'' 13 = 18"
    by (intro read_back[THEN conjunct2, THEN conjunct1, rule_format]) simp
  moreover have "get_string (parse_session_conf_file ?files None) ''NATIVE_ORIENTATION'' '''' = ''landscape''"
    using read_back[THEN conjunct1, of None "''NATIVE_ORIENTATION''" "''''"] by simp
  ultimately show ?thesis by blast
qed

end
