(* ===== verification/Spinner_Gl.thy ===== *)
theory Spinner_Gl
  imports Spinner_Config Input_Configuration
begin

text \<open>
  What the boot spinner draws (\<open>spinner/eglspinner.cpp\<close>): shaders, textures and the picture of one
  frame. OpenGL and glm are libraries; the calls made on them are recorded, with matrices as the
  expressions that build them. Floating point values are those of \<open>Input_Configuration\<close>, and each
  operation rounds by the argument \<open>rnd\<close> (overflow and the sign of zero are not modelled).
\<close>

section \<open>Floating point\<close>

definition fl_sign :: "double \<Rightarrow> rat" where
  "fl_sign v = (case v of NaN \<Rightarrow> 0 | PosInf \<Rightarrow> 1 | NegInf \<Rightarrow> -1 | Finite x \<Rightarrow> sgn x)"

definition fl_inf :: "rat \<Rightarrow> double" where
  "fl_inf s = (if s > 0 then PosInf else if s < 0 then NegInf else NaN)"

definition fl_neg :: "double \<Rightarrow> double" where
  "fl_neg v = (case v of NaN \<Rightarrow> NaN | PosInf \<Rightarrow> NegInf | NegInf \<Rightarrow> PosInf | Finite x \<Rightarrow> Finite (- x))"

fun fl_add :: "(rat \<Rightarrow> rat) \<Rightarrow> double \<Rightarrow> double \<Rightarrow> double" where
  "fl_add rnd (Finite x) (Finite y) = Finite (rnd (x + y))"
| "fl_add rnd NaN v = NaN"
| "fl_add rnd v NaN = NaN"
| "fl_add rnd PosInf NegInf = NaN"
| "fl_add rnd NegInf PosInf = NaN"
| "fl_add rnd (Finite x) v = v"
| "fl_add rnd v w = v"

definition fl_sub :: "(rat \<Rightarrow> rat) \<Rightarrow> double \<Rightarrow> double \<Rightarrow> double" where
  "fl_sub rnd v w = fl_add rnd v (fl_neg w)"

fun fl_mul :: "(rat \<Rightarrow> rat) \<Rightarrow> double \<Rightarrow> double \<Rightarrow> double" where
  "fl_mul rnd (Finite x) (Finite y) = Finite (rnd (x * y))"
| "fl_mul rnd v w = fl_inf (fl_sign v * fl_sign w)"

fun fl_div :: "(rat \<Rightarrow> rat) \<Rightarrow> double \<Rightarrow> double \<Rightarrow> double" where
  "fl_div rnd (Finite x) (Finite y) = (if y = 0 then fl_inf (sgn x) else Finite (rnd (x / y)))"
| "fl_div rnd NaN w = NaN"
| "fl_div rnd v NaN = NaN"
| "fl_div rnd (Finite x) w = Finite 0"
| "fl_div rnd v (Finite y) = fl_inf (fl_sign v * (if y < 0 then -1 else 1))"
| "fl_div rnd v w = NaN"

definition fl_of_word :: "(rat \<Rightarrow> rat) \<Rightarrow> 32 word \<Rightarrow> double" where
  "fl_of_word rnd w = Finite (rnd (of_nat (unat w)))"

section \<open>Shaders and textures\<close>

datatype texture_id = Wallpaper | Robot | WhiteDot | OrangeDot

datatype shader_type = VertexShader | FragmentShader

text \<open>Programs and shaders are handles, 0 for failure; of the arrays \<open>texture\<close>, \<open>vpos\<close> and
  \<open>aTexCoords\<close> the calls name the entry they use, and formats are told by their number of
  components.\<close>

datatype setup_call =
    CreateShader shader_type | ShaderSource nat string | CompileShader nat | GetCompileStatus nat
  | GetShaderInfoLog nat | DeleteShader nat
  | CreateProgram | AttachShader nat nat | LinkProgram nat | GetLinkStatus nat | GetProgramInfoLog nat
  | EnableBlend | BlendFunc | BlendEquation
  | GetAttribLocation nat string | GetUniformLocation nat string
  | GenTextures nat | BindTextureName "texture_id option" | TexImage nat "32 word" "32 word"
  | TexParameters | GenerateMipmap
  | TexCoordPointer texture_id "(rat \<times> rat) list"
  | EnablePositions texture_id | EnableTexCoords texture_id | ActiveTexture
  | DeleteTextures nat

text \<open>OpenGL's answers may depend on the calls made so far.\<close>

record shader_answers =
  create_shader :: "setup_call list \<Rightarrow> shader_type \<Rightarrow> nat"
  compiles :: "setup_call list \<Rightarrow> nat \<Rightarrow> bool"
  create_program :: "setup_call list \<Rightarrow> nat"
  links :: "setup_call list \<Rightarrow> nat \<Rightarrow> bool"

definition load_shader ::
  "shader_answers \<Rightarrow> string \<Rightarrow> shader_type \<Rightarrow> setup_call list \<Rightarrow> nat \<times> setup_call list" where
  "load_shader ans src ty cs =
     (let shader = create_shader ans cs ty;
          cs = cs @ [CreateShader ty]
      in if shader \<noteq> 0 then
           (let cs = cs @ [ShaderSource shader src, CompileShader shader, GetCompileStatus shader]
            in if \<not> compiles ans cs shader then (0, cs @ [GetShaderInfoLog shader, DeleteShader shader])
               else (shader, cs))
         else (shader, cs))"

text \<open>A failed \<open>assert\<close> aborts the program (as it does in builds that keep assertions): the result is
  \<open>None\<close>.\<close>

definition create_shader_program ::
  "shader_answers \<Rightarrow> string option \<Rightarrow> string option \<Rightarrow> setup_call list \<Rightarrow> nat option \<times> setup_call list"
  where
  "create_shader_program ans vertexShaderSrc fragmentShaderSrc cs =
     (case (vertexShaderSrc, fragmentShaderSrc) of
        (Some vsrc, Some fsrc) \<Rightarrow>
          let (vShaderId, cs) = load_shader ans vsrc VertexShader cs
          in if vShaderId = 0 then (None, cs)
          else let (fShaderId, cs) = load_shader ans fsrc FragmentShader cs
          in if fShaderId = 0 then (None, cs)
          else let progId = create_program ans cs; cs = cs @ [CreateProgram]
          in if progId = 0 then (None, cs)
          else let cs = cs @ [AttachShader progId vShaderId, AttachShader progId fShaderId,
                  LinkProgram progId, GetLinkStatus progId]
          in if \<not> links ans cs progId then (Some 0, cs @ [GetProgramInfoLog progId])
             else (Some progId, cs)
      | _ \<Rightarrow> (Some 0, cs))"

record image =
  image_width :: "32 word"
  image_height :: "32 word"
  image_bytes_per_pixel :: nat

definition upload_texture :: "texture_id \<Rightarrow> image \<Rightarrow> setup_call list" where
  "upload_texture i img =
     (let format = (if image_bytes_per_pixel img = 3 then 3 else 4)
      in [BindTextureName (Some i), TexImage format (image_width img) (image_height img), TexParameters,
          GenerateMipmap, BindTextureName None])"

text \<open>The wallpaper, as the picture library loads it (with or without alpha); without it the initial
  values stay.\<close>

definition load_wallpaper :: "(32 word \<times> 32 word \<times> bool) option \<Rightarrow> image" where
  "load_wallpaper pixbuf =
     (case pixbuf of
        None \<Rightarrow> \<lparr>image_width = 0, image_height = 0, image_bytes_per_pixel = 3\<rparr>
      | Some (w, h, has_alpha) \<Rightarrow>
          \<lparr>image_width = w, image_height = h, image_bytes_per_pixel = (if has_alpha then 4 else 3)\<rparr>)"

definition source_text :: "string list \<Rightarrow> string" where
  "source_text ls = concat (map (\<lambda>l. l @ [CHR 0x0A]) ls)"

definition vShaderSrcPlain :: string where
  "vShaderSrcPlain = source_text
     [''attribute vec4 aPosition;                                               '',
      ''attribute vec2 aTexCoords;                                              '',
      ''uniform vec2 uOffset;                                                   '',
      ''varying vec2 vTexCoords;                                                '',
      ''uniform mat4 uProjMat;                                                  '',
      ''void main()                                                             '',
      ''{                                                                       '',
      ''    vTexCoords = aTexCoords + vec2 (0.5, 0.5);                          '',
      ''    gl_Position = uProjMat * vec4(aPosition.xy + uOffset.xy, 0.0, 1.0);'',
      ''}                                                                       '']"

definition fShaderSrcPlain :: string where
  "fShaderSrcPlain = source_text
     [''precision mediump float;                           '',
      ''varying vec2 vTexCoords;                           '',
      ''uniform sampler2D uSampler;                        '',
      ''void main()                                        '',
      ''{                                                  '',
      ''    gl_FragColor = texture2D(uSampler, vTexCoords);'',
      ''}                                                  '']"

definition plain_program :: "shader_answers \<Rightarrow> setup_call list \<Rightarrow> nat option \<times> setup_call list" where
  "plain_program ans cs = create_shader_program ans (Some vShaderSrcPlain) (Some fShaderSrcPlain) cs"

definition get_locations :: "nat \<Rightarrow> setup_call list" where
  "get_locations prog =
     [GetAttribLocation prog ''aPosition'', GetAttribLocation prog ''aTexCoords'',
      GetUniformLocation prog ''uSampler'', GetUniformLocation prog ''uOffset'',
      GetUniformLocation prog ''uProjMat'']"

definition tex_coords :: "(rat \<times> rat) list" where
  "tex_coords = [(1 / 2, - 1 / 2), (1 / 2, 1 / 2), (- 1 / 2, - 1 / 2), (- 1 / 2, 1 / 2)]"

definition enable_attributes :: "texture_id \<Rightarrow> setup_call list" where
  "enable_attributes i = [TexCoordPointer i tex_coords, EnablePositions i, EnableTexCoords i]"

text \<open>What \<open>main\<close> does between opening the windows and its loop; \<open>artwork\<close> has the pictures compiled
  in. The result says whether the program is still there.\<close>

definition set_up_gl :: "shader_answers \<Rightarrow> image \<Rightarrow> (texture_id \<Rightarrow> image) \<Rightarrow> bool \<times> setup_call list" where
  "set_up_gl ans wallpaper artwork =
     (case plain_program ans [] of
        (None, cs) \<Rightarrow> (False, cs)
      | (Some prog_wallpaper, cs) \<Rightarrow>
     (case plain_program ans cs of
        (None, cs) \<Rightarrow> (False, cs)
      | (Some prog_robot, cs) \<Rightarrow>
     (case plain_program ans cs of
        (None, cs) \<Rightarrow> (False, cs)
      | (Some prog_dot, cs) \<Rightarrow>
          (True,
           cs @ [EnableBlend, BlendFunc, BlendEquation] @
           get_locations prog_wallpaper @ get_locations prog_robot @ get_locations prog_dot @
           [GenTextures 4] @ upload_texture Wallpaper wallpaper @ upload_texture Robot (artwork Robot) @
           upload_texture WhiteDot (artwork WhiteDot) @ upload_texture OrangeDot (artwork OrangeDot) @
           enable_attributes Wallpaper @ enable_attributes Robot @ enable_attributes WhiteDot @
           [ActiveTexture]))))"

section \<open>The picture\<close>

datatype glm =
    GlmIdentity
  | GlmRotate glm nat
  | GlmTranslate glm double double
  | GlmScale glm double double
  | GlmOrtho double double double double
  | GlmTimes glm glm

text \<open>The calls of a frame name the entry of the arrays \<open>prog\<close>, \<open>vpos\<close>, \<open>sampler\<close>, \<open>offset\<close> and \<open>projMat\<close> they
  use.\<close>

datatype draw_call =
    Viewport "32 word" "32 word"
  | ClearColor double
  | ClearBuffer
  | VertexPointer texture_id "(double \<times> double) list"
  | UseProgram texture_id
  | BindTexture texture_id
  | UniformSampler texture_id int
  | UniformOffset texture_id double double
  | UniformMatrix texture_id glm
  | DrawStrip

definition rotation_for :: "string \<Rightarrow> 32 word \<Rightarrow> 32 word \<Rightarrow> nat" where
  "rotation_for native_orientation width height =
     (let rotation = 0
      in if width < height then
           (if native_orientation = ''landscape'' then 90
            else if native_orientation = ''inverted_landscape'' then 270 else rotation)
         else if width > height then
           (if native_orientation = ''portrait'' then 90
            else if native_orientation = ''inverted_portrait'' then 270 else rotation)
         else rotation)"

definition render_size :: "nat \<Rightarrow> 32 word \<Rightarrow> 32 word \<Rightarrow> 32 word \<times> 32 word" where
  "render_size rotation width height =
     (if rotation = 90 \<or> rotation = 270 then (height, width) else (width, height))"

definition gu2px :: "(rat \<Rightarrow> rat) \<Rightarrow> int \<Rightarrow> double \<Rightarrow> double" where
  "gu2px rnd pixels_per_gu gu = fl_mul rnd (Finite (rnd (of_int pixels_per_gu))) gu"

text \<open>A rectangle as a triangle strip.\<close>

definition strip :: "double \<Rightarrow> double \<Rightarrow> (double \<times> double) list" where
  "strip w h = [(w, Finite 0), (w, h), (Finite 0, Finite 0), (Finite 0, h)]"

text \<open>The loop over \<open>i = -2 .. 2\<close> picks orange for the dots the mask reaches.\<close>

definition dot_row :: "int \<Rightarrow> texture_id list" where
  "dot_row dmask =
     map (\<lambda>i. if drop_bit (nat (i + 2)) dmask \<noteq> 0 then OrangeDot else WhiteDot) [-2, -1, 0, 1, 2]"

text \<open>The model and view matrix before projection, and the wallpaper's ratios.\<close>

definition mvp_matrix :: "(rat \<Rightarrow> rat) \<Rightarrow> nat \<Rightarrow> 32 word \<Rightarrow> 32 word \<Rightarrow> glm" where
  "mvp_matrix rnd rotation render_width render_height =
     (let mvpMatrix = GlmIdentity;
          mvpMatrix = (if rotation > 0 then GlmRotate mvpMatrix rotation else mvpMatrix);
          mvpMatrix = GlmTranslate mvpMatrix (Finite (-1)) (Finite (-1))
      in GlmScale mvpMatrix (fl_div rnd (Finite 2) (fl_of_word rnd render_width))
           (fl_div rnd (Finite 2) (fl_of_word rnd render_height)))"

text \<open>The product below the line is one of unsigned integers.\<close>

definition wallpaper_ratios ::
  "(rat \<Rightarrow> rat) \<Rightarrow> image \<Rightarrow> 32 word \<Rightarrow> 32 word \<Rightarrow> double \<times> double" where
  "wallpaper_ratios rnd wallpaper render_width render_height =
     (let widthRatio =
            fl_div rnd
              (fl_mul rnd (fl_mul rnd (Finite 1) (fl_of_word rnd (image_height wallpaper)))
                 (fl_of_word rnd render_width))
              (fl_of_word rnd (image_width wallpaper * render_height));
          heightRatio = Finite 1
      in if Finite 1 < widthRatio then (Finite 1, fl_div rnd (Finite 1) widthRatio)
         else (widthRatio, heightRatio))"

text \<open>One dot, \<open>i\<close> gaps from the middle.\<close>

definition draw_dot ::
  "(rat \<Rightarrow> rat) \<Rightarrow> double \<Rightarrow> double \<Rightarrow> double \<Rightarrow> int \<times> texture_id \<Rightarrow> draw_call list" where
  "draw_dot rnd middle gap y dot =
     (case dot of (i, tex) \<Rightarrow>
        [BindTexture tex,
         UniformOffset WhiteDot (fl_add rnd middle (fl_mul rnd (Finite (of_int i)) gap)) y, DrawStrip])"

definition draw_picture ::
  "(rat \<Rightarrow> rat) \<Rightarrow> int \<Rightarrow> string \<Rightarrow> image \<Rightarrow> rat \<Rightarrow> int \<Rightarrow> 32 word \<times> 32 word \<Rightarrow> draw_call list" where
  "draw_picture rnd pixels_per_gu native_orientation wallpaper fade dmask dims =
     (let (width, height) = dims;
          rotation = rotation_for native_orientation width height;
          px = gu2px rnd pixels_per_gu;
          robotWidth = px (Finite (29 / 2));
          robotHeight = px (Finite 5);
          robotXOffset = px (Finite (1 / 2));
          dotSize = px (Finite (rnd (2 / 5)));
          dotXGap = px (Finite (5 / 2));
          dotYGap = px (Finite (5 / 2));
          (render_width, render_height) = render_size rotation width height;
          fw = fl_of_word rnd render_width;
          fh = fl_of_word rnd render_height;
          mvpMatrix = mvp_matrix rnd rotation render_width render_height;
          (widthRatio, heightRatio) = wallpaper_ratios rnd wallpaper render_width render_height;
          wallpaperProjMatrix =
            GlmOrtho (fl_neg widthRatio) widthRatio heightRatio (fl_neg heightRatio);
          wallpaperMatrix = GlmTimes wallpaperProjMatrix mvpMatrix;
          projMatrix = GlmOrtho (Finite (-1)) (Finite 1) (Finite 1) (Finite (-1));
          mvpMatrix = GlmTimes projMatrix mvpMatrix;
          halfWidth = fl_div rnd fw (Finite 2);
          halfHeight = fl_div rnd fh (Finite 2);
          dotY = fl_sub rnd
            (fl_add rnd (fl_add rnd halfHeight (fl_div rnd robotHeight (Finite 2))) dotYGap)
            (fl_mul rnd robotHeight (Finite (1 / 4)))
      in [Viewport width height, ClearColor (Finite fade), ClearBuffer,
          VertexPointer Wallpaper (strip fw fh), UseProgram Wallpaper, BindTexture Wallpaper,
          UniformSampler Wallpaper 0, UniformOffset Wallpaper (Finite 0) (Finite 0),
          UniformMatrix Wallpaper wallpaperMatrix, DrawStrip,
          VertexPointer Robot (strip robotWidth robotHeight), UseProgram Robot, BindTexture Robot,
          UniformSampler Robot 0,
          UniformOffset Robot
            (fl_add rnd (fl_sub rnd halfWidth (fl_div rnd robotWidth (Finite 2))) robotXOffset)
            (fl_sub rnd halfHeight (fl_mul rnd robotHeight (Finite (3 / 4)))),
          UniformMatrix Robot mvpMatrix, DrawStrip,
          VertexPointer WhiteDot (strip dotSize dotSize), UseProgram WhiteDot,
          UniformSampler WhiteDot 0, UniformMatrix WhiteDot mvpMatrix] @
         concat (map (draw_dot rnd halfWidth dotXGap dotY) (zip [-2, -1, 0, 1, 2] (dot_row dmask))))"

end
