(* ===== verification/Spinner_App.thy ===== *)
theory Spinner_App
  imports Spinner_Gl
begin

text \<open>
  The set-up of the boot spinner (\<open>spinner/eglapp.{h,cpp}\<close>, \<open>spinner/miregl.{h,cpp}\<close>): the command line,
  the windows opened on the active outputs, and the EGL context and surfaces behind them. Mir's client
  library and EGL are what is called; their answers are arguments.
\<close>

section \<open>The command line\<close>

text \<open>\<open>sscanf\<close> with \<open>%u\<close>: white space, a sign, digits; the value as \<open>strtoul\<close> gives it, truncated
  to 32 bits (a value that does not fit 64 bits becomes the largest).\<close>

definition strtoul_value :: "bool \<Rightarrow> nat \<Rightarrow> 32 word" where
  "strtoul_value negative v =
     (if 2 ^ 64 \<le> v then of_nat (2 ^ 64 - 1) else if negative then - of_nat v else of_nat v)"

definition scan_u :: "string \<Rightarrow> (32 word \<times> string) option" where
  "scan_u s =
     (let (negative, r) = scan_sign (dropWhile isspace s);
          ds = takeWhile isdigit r
      in if ds = [] then None
         else Some (strtoul_value negative (digits_value ds), dropWhile isdigit r))"

text \<open>\<open>sscanf (arg, "%ux%u", &w, &h) == 2\<close>.\<close>

definition scan_size :: "string \<Rightarrow> (32 word \<times> 32 word) option" where
  "scan_size s =
     (case scan_u s of
        Some (w, c # r) \<Rightarrow>
          if c = CHR ''x'' then map_option (\<lambda>(h, r'). (w, h)) (scan_u r) else None
      | _ \<Rightarrow> None)"

text \<open>What the loop over the arguments sets; an opacity is whatever \<open>%f\<close> scans to, a parameter.\<close>

record 'f app_options =
  background_opacity :: 'f
  swapinterval :: int
  mir_socket_arg :: "string option"
  param_width :: "32 word"
  param_height :: "32 word"
  param_output_id :: "32 word"
  quiet :: bool

definition default_options :: "'f \<Rightarrow> 32 word \<Rightarrow> 'f app_options" where
  "default_options one invalid_id =
     \<lparr>background_opacity = one, swapinterval = 1, mir_socket_arg = None, param_width = 0,
      param_height = 0, param_output_id = invalid_id, quiet = False\<rparr>"

text \<open>An option's value is the rest of its argument or, that being empty, the next argument.\<close>

fun operand :: "string \<Rightarrow> string list \<Rightarrow> string \<times> string list" where
  "operand [] (a # rest) = (a, rest)"
| "operand arg rest = (arg, rest)"

lemma operand_shorter: "operand a rest = (v, rest') \<Longrightarrow> length rest' \<le> length rest"
  by (cases "(a, rest)" rule: operand.cases) auto

text \<open>The arguments after the program's name; the flag says whether the usage text was printed, which
  ends the loop. \<open>argv[++i]\<close> after the last argument is the null pointer that ends \<open>argv\<close>.\<close>

function parse_args ::
  "(string \<Rightarrow> 'f option) \<Rightarrow> string list \<Rightarrow> 'f app_options \<Rightarrow> 'f app_options \<times> bool" where
  "parse_args scan_f [] opt = (opt, False)"
| "parse_args scan_f (arg # rest) opt =
     (if take 1 arg \<noteq> ''-'' then (opt, True)
      else
        let letter = take 1 (drop 1 arg);
            (v, rest') = operand (drop 2 arg) rest
        in if letter = ''b'' then
             (case scan_f v of
                Some alpha \<Rightarrow> parse_args scan_f rest' (opt\<lparr>background_opacity := alpha\<rparr>)
              | None \<Rightarrow> (opt, True))
           else if letter = ''n'' then parse_args scan_f rest (opt\<lparr>swapinterval := 0\<rparr>)
           else if letter = ''o'' then
             (case scan_u v of
                Some (output_id, r) \<Rightarrow> parse_args scan_f rest' (opt\<lparr>param_output_id := output_id\<rparr>)
              | None \<Rightarrow> (opt, True))
           else if letter = ''s'' then
             (case scan_size v of
                Some (w, h) \<Rightarrow> parse_args scan_f rest' (opt\<lparr>param_width := w, param_height := h\<rparr>)
              | None \<Rightarrow> (opt, True))
           else if letter = ''m'' then
             (case rest of
                [] \<Rightarrow> (opt\<lparr>mir_socket_arg := None\<rparr>, False)
              | a # rest2 \<Rightarrow> parse_args scan_f rest2 (opt\<lparr>mir_socket_arg := Some a\<rparr>))
           else if letter = ''q'' then parse_args scan_f rest (opt\<lparr>quiet := True\<rparr>)
           else (opt, True))"
  by pat_completeness auto
termination
  by (relation "measure (\<lambda>(scan_f, args, opt). length args)")
    (auto dest!: operand_shorter[OF sym])

section \<open>Outputs and windows\<close>

record client_output =
  output_enabled :: bool
  output_connected :: bool
  num_modes :: nat
  current_mode :: "(32 word \<times> 32 word) option"
  output_id_of :: "32 word"

definition active_output :: "client_output \<Rightarrow> bool" where
  "active_output out \<longleftrightarrow>
     output_enabled out \<and> output_connected out \<and> num_modes out \<noteq> 0 \<and> current_mode out \<noteq> None"

definition for_each_active_output ::
  "client_output list \<Rightarrow> (client_output \<Rightarrow> 's \<Rightarrow> 's outcome) \<Rightarrow> 's \<Rightarrow> 's outcome" where
  "for_each_active_output outputs handler s =
     each_do (\<lambda>out s. if active_output out then handler out s else (s, None)) outputs s"

text \<open>\<open>select_pixel_format\<close>: the first of the formats the server names, or what the array held.\<close>

definition select_pixel_format :: "nat list \<Rightarrow> nat \<Rightarrow> nat" where
  "select_pixel_format formats uninitialised =
     (case formats of [] \<Rightarrow> uninitialised | f # fs \<Rightarrow> f)"

record window_parameters =
  window_width :: "32 word"
  window_height :: "32 word"
  window_pixel_format :: nat
  window_output_id :: "32 word"

definition with_mode :: "client_output \<Rightarrow> window_parameters \<Rightarrow> window_parameters" where
  "with_mode out p =
     (case current_mode out of
        None \<Rightarrow> p | Some (w, h) \<Rightarrow> p\<lparr>window_width := w, window_height := h\<rparr>)"

section \<open>EGL\<close>

datatype gl_call =
    GetDisplay | Initialize | ChooseConfig int | CreateContext | QueryExtensions
  | CreatePbuffer | MakeCurrent "nat option" | CreateWindow window_parameters | SetFullscreen nat
  | CreateWindowSurface nat | SwapInterval int | QuerySurfaceSize nat
  | SwapBuffers nat | DestroySurface nat | DestroyContext | TerminateDisplay
  | ReleaseConnection | ReleaseWindow nat
  | SetUp setup_call | Draw draw_call

text \<open>Windows and surfaces are the handles Mir and EGL give out, \<open>None\<close> for none.\<close>

record gl_answers =
  has_display :: bool
  egl_version :: "(int \<times> int) option"
  choose_config :: "int option"
  has_context :: bool
  extensions :: "string option"
  pbuffer :: "nat option"
  makes_current :: "nat option \<Rightarrow> bool"
  new_window :: "window_parameters \<Rightarrow> nat + string"
  window_surface :: "nat \<Rightarrow> nat option"
  surface_size :: "nat \<Rightarrow> 32 word \<times> 32 word"

text \<open>\<open>MirEglApp\<close>, with the surface EGL has current.\<close>

record mir_egl_app =
  dummy_surface :: "nat option"
  current_surface :: "nat option"
  gl_calls :: "gl_call list"

definition call_gl :: "gl_call \<Rightarrow> mir_egl_app \<Rightarrow> mir_egl_app" where
  "call_gl c app = app\<lparr>gl_calls := gl_calls app @ [c]\<rparr>"

definition make_current :: "gl_answers \<Rightarrow> nat option \<Rightarrow> mir_egl_app \<Rightarrow> mir_egl_app outcome" where
  "make_current gl sf app =
     (let app = call_gl (MakeCurrent sf) app
      in if \<not> makes_current gl sf then (app, Some (RuntimeError ''Can't eglMakeCurrent''))
         else (app\<lparr>current_surface := sf\<rparr>, None))"

text \<open>\<open>strstr\<close>.\<close>

fun occurs_in :: "string \<Rightarrow> string \<Rightarrow> bool" where
  "occurs_in pat [] \<longleftrightarrow> pat = []"
| "occurs_in pat (c # s) \<longleftrightarrow> take (length pat) (c # s) = pat \<or> occurs_in pat s"

definition supports_surfaceless_context :: "gl_answers \<Rightarrow> bool" where
  "supports_surfaceless_context gl =
     (case extensions gl of
        None \<Rightarrow> False | Some e \<Rightarrow> occurs_in ''EGL_KHR_surfaceless_context'' e)"

definition swap_buffers :: "nat \<Rightarrow> mir_egl_app \<Rightarrow> mir_egl_app" where
  "swap_buffers sf app = call_gl (SwapBuffers sf) app"

definition destroy_surface :: "nat \<Rightarrow> mir_egl_app \<Rightarrow> mir_egl_app" where
  "destroy_surface sf app = call_gl (DestroySurface sf) app"

definition get_surface_size :: "gl_answers \<Rightarrow> nat \<Rightarrow> mir_egl_app \<Rightarrow> (32 word \<times> 32 word) \<times> mir_egl_app" where
  "get_surface_size gl sf app = (surface_size gl sf, call_gl (QuerySurfaceSize sf) app)"

definition new_mir_egl_app :: "gl_answers \<Rightarrow> int \<Rightarrow> mir_egl_app outcome" where
  "new_mir_egl_app gl bytes_per_pixel =
     (let bpp = 8 * bytes_per_pixel;
          app = call_gl GetDisplay \<lparr>dummy_surface = None, current_surface = None, gl_calls = []\<rparr>
      in if \<not> has_display gl then (app, Some (RuntimeError ''Can't eglGetDisplay''))
      else let app = call_gl Initialize app in case egl_version gl of
        None \<Rightarrow> (app, Some (RuntimeError ''Can't eglInitialize''))
      | Some (major, minor) \<Rightarrow>
          if major \<noteq> 1 \<or> minor \<noteq> 4 then (app, Some (RuntimeError ''EGL version is not 1.4''))
          else let app = call_gl (ChooseConfig bpp) app in case choose_config gl of
            None \<Rightarrow> (app, Some (RuntimeError ''Could not eglChooseConfig''))
          | Some neglconfigs \<Rightarrow>
              if neglconfigs = 0 then (app, Some (RuntimeError ''No EGL config available''))
              else let app = call_gl CreateContext app
              in if \<not> has_context gl then (app, Some (RuntimeError ''eglCreateContext failed''))
              else let app = call_gl QueryExtensions app
              in if \<not> supports_surfaceless_context gl then
                   (let app = call_gl CreatePbuffer app in case pbuffer gl of
                      None \<Rightarrow> (app, Some (RuntimeError ''eglCreatePbufferSurface failed''))
                    | Some sf \<Rightarrow> make_current gl (Some sf) (app\<lparr>dummy_surface := Some sf\<rparr>))
                 else make_current gl None app)"

definition set_swap_interval :: "gl_answers \<Rightarrow> nat \<Rightarrow> int \<Rightarrow> mir_egl_app \<Rightarrow> mir_egl_app outcome" where
  "set_swap_interval gl sf interval app =
     (let previous_surface = current_surface app
      in then_do (make_current gl (Some sf) app) (\<lambda>app.
         let app = call_gl (SwapInterval interval) app
         in if previous_surface \<noteq> None then make_current gl previous_surface app else (app, None)))"

text \<open>\<open>MirEglSurface\<close>: the window and its EGL surface.\<close>

type_synonym egl_surface = "nat \<times> nat"

definition open_window ::
  "gl_answers \<Rightarrow> 32 word \<Rightarrow> window_parameters \<Rightarrow> mir_egl_app \<Rightarrow> (nat + fault) \<times> mir_egl_app" where
  "open_window gl invalid_id p app =
     (let app = call_gl (CreateWindow p) app
      in case new_window gl p of
           Inr msg \<Rightarrow> (Inr (RuntimeError (''Can't create a surface '' @ msg)), app)
         | Inl w \<Rightarrow>
             (Inl w, if window_output_id p \<noteq> invalid_id then call_gl (SetFullscreen w) app else app))"

definition create_surface ::
  "gl_answers \<Rightarrow> nat \<Rightarrow> mir_egl_app \<Rightarrow> (nat + fault) \<times> mir_egl_app" where
  "create_surface gl w app =
     (let app = call_gl (CreateWindowSurface w) app
      in case window_surface gl w of
           None \<Rightarrow> (Inr (RuntimeError ''eglCreateWindowSurface failed''), app)
         | Some sf \<Rightarrow> (Inl sf, app))"

definition new_mir_egl_surface ::
  "gl_answers \<Rightarrow> 32 word \<Rightarrow> window_parameters \<Rightarrow> int \<Rightarrow> mir_egl_app \<Rightarrow>
   (egl_surface + fault) \<times> mir_egl_app" where
  "new_mir_egl_surface gl invalid_id p interval app =
     (case open_window gl invalid_id p app of
        (Inr e, app) \<Rightarrow> (Inr e, app)
      | (Inl w, app) \<Rightarrow>
          (case create_surface gl w app of
             (Inr e, app) \<Rightarrow> (Inr e, app)
           | (Inl sf, app) \<Rightarrow>
               (case set_swap_interval gl sf interval app of
                  (app, Some e) \<Rightarrow> (Inr e, app)
                | (app, None) \<Rightarrow> (Inl (w, sf), app))))"

definition destroy_mir_egl_surface :: "egl_surface \<Rightarrow> mir_egl_app \<Rightarrow> mir_egl_app" where
  "destroy_mir_egl_surface s app =
     (case s of (w, sf) \<Rightarrow> call_gl (ReleaseWindow w) (destroy_surface sf app))"

text \<open>The size is asked for first; it is kept even when the surface cannot be made current.\<close>

definition egl_make_current ::
  "gl_answers \<Rightarrow> nat \<Rightarrow> mir_egl_app \<Rightarrow> (32 word \<times> 32 word) \<times> mir_egl_app outcome" where
  "egl_make_current gl sf app =
     (let (dims, app) = get_surface_size gl sf app in (dims, make_current gl (Some sf) app))"

text \<open>\<open>functor\<close> is what the caller draws on a surface of the size it is given.\<close>

definition paint ::
  "gl_answers \<Rightarrow> (32 word \<times> 32 word \<Rightarrow> draw_call list) \<Rightarrow> egl_surface \<Rightarrow> mir_egl_app \<Rightarrow> mir_egl_app outcome"
  where
  "paint gl functor s app =
     (case s of (w, sf) \<Rightarrow>
        let (dims, current) = egl_make_current gl sf app
        in then_do current (\<lambda>app.
             (swap_buffers sf (fold (\<lambda>c. call_gl (Draw c)) (functor dims) app), None)))"

definition destroy_mir_egl_app :: "mir_egl_app \<Rightarrow> mir_egl_app" where
  "destroy_mir_egl_app app =
     (let app = call_gl (MakeCurrent None) app;
          app = (case dummy_surface app of None \<Rightarrow> app | Some sf \<Rightarrow> destroy_surface sf app)
      in fold call_gl [DestroyContext, TerminateDisplay, ReleaseConnection] app)"

end
