(* ===== verification/Spinner_Main.thy ===== *)
theory Spinner_Main
  imports Spinner_App Complex_Main
begin

text \<open>
  The boot spinner program: opening the windows (\<open>mir_eglapp_init\<close> of \<open>spinner/eglapp.cpp\<close>), and the
  animation and the main program of \<open>spinner/eglspinner.cpp\<close>: it sets OpenGL up, paints every surface
  turn by turn until a signal arrives, and closes what it opened. What it draws is in \<open>Spinner_Gl\<close>.
\<close>

section \<open>Opening the windows\<close>

record mir_client =
  connection_error :: "string option"
  surface_formats :: "nat list"
  uninitialised_format :: nat
  bytes_per_pixel :: "nat \<Rightarrow> int"
  client_outputs :: "client_output list"
  invalid_output :: "32 word"

record init_state =
  egl_app :: mir_egl_app
  surfaces :: "egl_surface list"
  surfaceparm :: window_parameters

definition push_surface :: "gl_answers \<Rightarrow> 32 word \<Rightarrow> int \<Rightarrow> init_state \<Rightarrow> init_state outcome" where
  "push_surface gl invalid_id interval st =
     (case new_mir_egl_surface gl invalid_id (surfaceparm st) interval (egl_app st) of
        (Inr e, app) \<Rightarrow> (st\<lparr>egl_app := app\<rparr>, Some e)
      | (Inl s, app) \<Rightarrow> (st\<lparr>egl_app := app, surfaces := surfaces st @ [s]\<rparr>, None))"

definition open_windows ::
  "gl_answers \<Rightarrow> mir_client \<Rightarrow> int \<Rightarrow> init_state \<Rightarrow> init_state outcome" where
  "open_windows gl client interval st =
     (let push = push_surface gl (invalid_output client) interval
      in if window_width (surfaceparm st) \<noteq> 0 \<and> window_height (surfaceparm st) \<noteq> 0 then push st
         else if window_output_id (surfaceparm st) \<noteq> invalid_output client then
           then_do (for_each_active_output (client_outputs client)
             (\<lambda>out st.
                if output_id_of out = window_output_id (surfaceparm st)
                then (st\<lparr>surfaceparm := with_mode out (surfaceparm st)\<rparr>, None) else (st, None)) st) push
         else
           then_do (for_each_active_output (client_outputs client)
             (\<lambda>out st.
                push (st\<lparr>surfaceparm :=
                  (with_mode out (surfaceparm st))\<lparr>window_output_id := output_id_of out\<rparr>\<rparr>)) st)
             (\<lambda>st. if surfaces st = [] then (st, Some (RuntimeError ''No active outputs found.''))
                  else (st, None)))"

text \<open>What leaving the function by an exception destroys: the surfaces pushed so far, then the
  application they share.\<close>

definition close_windows :: "egl_surface list \<Rightarrow> mir_egl_app \<Rightarrow> mir_egl_app" where
  "close_windows sfs app = destroy_mir_egl_app (fold destroy_mir_egl_surface sfs app)"

fun unwind_windows :: "init_state outcome \<Rightarrow> init_state outcome" where
  "unwind_windows (st, None) = (st, None)"
| "unwind_windows (st, Some e) =
     (st\<lparr>egl_app := close_windows (surfaces st) (egl_app st), surfaces := []\<rparr>, Some e)"

definition initial_parameters :: "'f app_options \<Rightarrow> nat \<Rightarrow> window_parameters" where
  "initial_parameters opt format =
     \<lparr>window_width = param_width opt, window_height = param_height opt,
      window_pixel_format = format, window_output_id = param_output_id opt\<rparr>"

text \<open>The program's name is not among \<open>args\<close>. Without a connection nothing was opened.\<close>

definition mir_eglapp_init ::
  "(string \<Rightarrow> 'f option) \<Rightarrow> 'f \<Rightarrow> mir_client \<Rightarrow> gl_answers \<Rightarrow> string list \<Rightarrow> init_state outcome" where
  "mir_eglapp_init scan_f one client gl args =
     (let (opt, help) = parse_args scan_f args (default_options one (invalid_output client));
          format = select_pixel_format (surface_formats client) (uninitialised_format client);
          nothing = \<lparr>egl_app = \<lparr>dummy_surface = None, current_surface = None, gl_calls = []\<rparr>,
                     surfaces = [], surfaceparm = initial_parameters opt format\<rparr>
      in if help then (nothing, None)
         else case connection_error client of
           Some msg \<Rightarrow> (nothing, Some (RuntimeError msg))
         | None \<Rightarrow>
             (case new_mir_egl_app gl (bytes_per_pixel client format) of
                (app, Some e) \<Rightarrow> (nothing\<lparr>egl_app := app\<rparr>, Some e)
              | (app, None) \<Rightarrow>
                  unwind_windows (open_windows gl client (swapinterval opt) (nothing\<lparr>egl_app := app\<rparr>))))"

section \<open>The animation\<close>

text \<open>\<open>double\<close>s are rationals and \<open>rnd\<close> rounds a result; \<open>counter\<close> and \<open>second\<close> are the function's
  static variables.\<close>

record animation_values =
  last_time_stamp :: rat
  fade_background :: rat
  dot_mask :: int
  counter :: nat
  second :: rat

definition new_animation :: animation_values where
  "new_animation =
     \<lparr>last_time_stamp = 0, fade_background = 0, dot_mask = 0, counter = 0, second = 0\<rparr>"

definition dot_sequence :: "int list" where
  "dot_sequence = [0, 1, 3, 7, 15, 31]"

definition update_animation ::
  "(rat \<Rightarrow> rat) \<Rightarrow> rat option \<Rightarrow> animation_values \<Rightarrow> animation_values" where
  "update_animation rnd timer anim =
     (case timer of
        None \<Rightarrow> anim
      | Some elapsed \<Rightarrow>
          let anim =
                (if second anim \<ge> 1 then anim\<lparr>second := 0, counter := counter anim + 1\<rparr>
                 else anim\<lparr>second := rnd (second anim + rnd (elapsed - last_time_stamp anim))\<rparr>);
              anim = anim\<lparr>dot_mask := dot_sequence ! (counter anim mod 6)\<rparr>
          in anim\<lparr>last_time_stamp := elapsed\<rparr>)"

section \<open>The main loop\<close>

text \<open>\<open>shutdown\<close>, the handler of SIGINT and SIGTERM.\<close>

definition shutdown :: "bool \<Rightarrow> bool" where
  "shutdown is_running = (if is_running then False else is_running)"

record spinner_state =
  spinner_running :: bool
  spinner_app :: mir_egl_app
  animation :: animation_values

text \<open>The program's surroundings; \<open>artwork\<close> is compiled in. The animation computes with doubles, the
  picture with floats.\<close>

record spinner_env =
  egl :: gl_answers
  shaders :: shader_answers
  round_double :: "rat \<Rightarrow> rat"
  round_float :: "rat \<Rightarrow> rat"
  session_conf :: session_config
  wallpaper_pixbuf :: "(32 word \<times> 32 word \<times> bool) option"
  artwork :: "texture_id \<Rightarrow> image"

definition picture :: "spinner_env \<Rightarrow> animation_values \<Rightarrow> 32 word \<times> 32 word \<Rightarrow> draw_call list" where
  "picture env anim =
     draw_picture (round_float env) (get_int_value (session_conf env) ''GRID_UNIT_PX'' 13)
       (get_string (session_conf env) ''NATIVE_ORIENTATION'' '''') (load_wallpaper (wallpaper_pixbuf env))
       (fade_background anim) (dot_mask anim)"

text \<open>One turn: every surface is painted, then the animation moves on; \<open>elapsed\<close> is the timer and
  \<open>signalled\<close> says whether a signal arrives during the turn.\<close>

definition spinner_turn ::
  "spinner_env \<Rightarrow> egl_surface list \<Rightarrow> rat \<times> bool \<Rightarrow> spinner_state \<Rightarrow> spinner_state outcome" where
  "spinner_turn env sfs input st =
     (case input of (elapsed, signalled) \<Rightarrow>
        if \<not> spinner_running st then (st, None)
        else
          then_do
            (each_do (\<lambda>s st.
               case paint (egl env) (picture env (animation st)) s (spinner_app st) of
                 (app, e) \<Rightarrow> (st\<lparr>spinner_app := app\<rparr>, e)) sfs st)
            (\<lambda>st.
               let st = st\<lparr>animation := update_animation (round_double env) (Some elapsed) (animation st)\<rparr>
               in (if signalled then st\<lparr>spinner_running := shutdown (spinner_running st)\<rparr> else st, None)))"

datatype program_end = StillRunning | Aborted | Exited int

text \<open>The program from its windows on: \<open>early\<close> says whether a signal arrives before the loop, \<open>inputs\<close>
  are the turns it has time for.\<close>

definition spinner_main ::
  "spinner_env \<Rightarrow> init_state outcome \<Rightarrow> bool \<Rightarrow> (rat \<times> bool) list \<Rightarrow> mir_egl_app \<times> program_end" where
  "spinner_main env init early inputs =
     (case init of
        (ini, Some e) \<Rightarrow> (egl_app ini, Exited 1)
      | (ini, None) \<Rightarrow>
          if surfaces ini = [] then (egl_app ini, Exited 0)
          else
            (let running = (if early then shutdown True else True);
                 (alive, cs) = set_up_gl (shaders env) (load_wallpaper (wallpaper_pixbuf env)) (artwork env);
                 app = fold (\<lambda>c. call_gl (SetUp c)) cs (egl_app ini)
             in if \<not> alive then (app, Aborted)
                else
                  (case each_do (spinner_turn env (surfaces ini)) inputs
                      \<lparr>spinner_running = running, spinner_app = app, animation = new_animation\<rparr> of
                     (st, Some e) \<Rightarrow> (close_windows (surfaces ini) (spinner_app st), Exited 1)
                   | (st, None) \<Rightarrow>
                       if spinner_running st then (spinner_app st, StillRunning)
                       else (close_windows (surfaces ini)
                               (call_gl (SetUp (DeleteTextures 4)) (spinner_app st)), Exited 0))))"

end
