(* ===== verification/Spinner_Props.thy ===== *)
theory Spinner_Props
  imports Spinner_Main
begin

text \<open>
  Properties of the boot spinner: its command line reads back what was written, a window is opened on
  each active output with its swap interval set, and the row of dots counts seconds.
\<close>

section \<open>The command line\<close>

text \<open>What a user can ask for; a value may be joined to its option or follow it.\<close>

datatype setting =
    Opacity bool string
  | NoVsync
  | OnOutput bool nat
  | OfSize bool nat nat
  | OnSocket string
  | Quiet

definition option_form :: "bool \<Rightarrow> string \<Rightarrow> string \<Rightarrow> string list" where
  "option_form joined letter t = (if joined then [''-'' @ letter @ t] else [''-'' @ letter, t])"

fun setting_args :: "setting \<Rightarrow> string list" where
  "setting_args (Opacity joined t) = option_form joined ''b'' t"
| "setting_args NoVsync = [''-n'']"
| "setting_args (OnOutput joined n) = option_form joined ''o'' (decimal n)"
| "setting_args (OfSize joined w h) = option_form joined ''s'' (decimal w @ ''x'' @ decimal h)"
| "setting_args (OnSocket t) = [''-m'', t]"
| "setting_args Quiet = [''-q'']"

fun setting_ok :: "(string \<Rightarrow> 'f option) \<Rightarrow> setting \<Rightarrow> bool" where
  "setting_ok scan_f (Opacity joined t) \<longleftrightarrow> t \<noteq> [] \<and> scan_f t \<noteq> None"
| "setting_ok scan_f (OnOutput joined n) \<longleftrightarrow> n < 2 ^ 32"
| "setting_ok scan_f (OfSize joined w h) \<longleftrightarrow> w < 2 ^ 32 \<and> h < 2 ^ 32"
| "setting_ok scan_f s \<longleftrightarrow> True"

fun set_option :: "(string \<Rightarrow> 'f option) \<Rightarrow> setting \<Rightarrow> 'f app_options \<Rightarrow> 'f app_options" where
  "set_option scan_f (Opacity joined t) opt = opt\<lparr>background_opacity := the (scan_f t)\<rparr>"
| "set_option scan_f NoVsync opt = opt\<lparr>swapinterval := 0\<rparr>"
| "set_option scan_f (OnOutput joined n) opt = opt\<lparr>param_output_id := of_nat n\<rparr>"
| "set_option scan_f (OfSize joined w h) opt = opt\<lparr>param_width := of_nat w, param_height := of_nat h\<rparr>"
| "set_option scan_f (OnSocket t) opt = opt\<lparr>mir_socket_arg := Some t\<rparr>"
| "set_option scan_f Quiet opt = opt\<lparr>quiet := True\<rparr>"

lemma scan_u_decimal:
  assumes "n < 2 ^ 32" and "r = [] \<or> \<not> isdigit (hd r)"
  shows "scan_u (decimal n @ r) = Some (of_nat n, r)"
proof -
  note d = decimal_digits[of n]
  obtain c ds where ds: "decimal n = c # ds" using d by (cases "decimal n") auto
  with d have "isdigit c" by simp
  then have "scan_sign (dropWhile isspace (decimal n @ r)) = (False, decimal n @ r)"
    using isdigit_not_other[of c] by (simp add: ds scan_sign_def)
  moreover have "takeWhile isdigit (decimal n @ r) = decimal n" "dropWhile isdigit (decimal n @ r) = r"
    using d assms(2) by (cases r; simp add: list_all_iff)+
  ultimately show ?thesis
    using d assms(1) by (simp add: scan_u_def strtoul_value_def)
qed

lemma scan_size_decimal:
  assumes "w < 2 ^ 32" "h < 2 ^ 32"
  shows "scan_size (decimal w @ ''x'' @ decimal h) = Some (of_nat w, of_nat h)"
proof -
  have "\<not> isdigit (CHR ''x'')" by (simp add: isdigit_def)
  then show ?thesis
    using scan_u_decimal[OF assms(1), of "''x'' @ decimal h"] scan_u_decimal[OF assms(2), of "[]"]
    by (simp add: scan_size_def)
qed

lemma operand_form: "t \<noteq> [] \<Longrightarrow> operand t rest = (t, rest) \<and> operand [] (t # rest) = (t, rest)"
  by (cases t) auto

lemma parse_setting:
  assumes "setting_ok scan_f s"
  shows "parse_args scan_f (setting_args s @ rest) opt = parse_args scan_f rest (set_option scan_f s opt)"
proof (cases s)
  case (Opacity joined t)
  with assms show ?thesis using operand_form[of t rest] by (auto simp: option_form_def)
next
  case (OnOutput joined n)
  with assms show ?thesis
    using operand_form[of "decimal n" rest] decimal_digits[of n] scan_u_decimal[of n "[]"]
    by (auto simp: option_form_def)
next
  case (OfSize joined w h)
  with assms show ?thesis
    using operand_form[of "decimal w @ ''x'' @ decimal h" rest] scan_size_decimal[of w h]
    by (auto simp: option_form_def)
qed (auto simp: Let_def split: prod.splits)

text \<open>
  C31. A command line built from any sequence of settings, each with its value joined or following,
  is accepted and sets exactly those options, later ones overriding earlier ones; the loop over the
  arguments ends on every command line, and an argument that is no option ends it with the usage
  text.
\<close>

theorem arguments_read_back:
  assumes "list_all (setting_ok scan_f) ss"
  shows "parse_args scan_f (concat (map setting_args ss)) opt = (fold (set_option scan_f) ss opt, False) \<and>
    (take 1 arg \<noteq> ''-'' \<longrightarrow>
       parse_args scan_f (concat (map setting_args ss) @ arg # rest) opt =
         (fold (set_option scan_f) ss opt, True))"
proof -
  have "parse_args scan_f (concat (map setting_args ss) @ more) opt =
      parse_args scan_f more (fold (set_option scan_f) ss opt)" for more
    using assms by (induction ss arbitrary: opt) (simp_all add: parse_setting del: parse_args.simps)
  from this[of "[]"] this[of "arg # rest"] show ?thesis by simp
qed

theorem arguments_read_back_witness:
  "parse_args (\<lambda>t. if t = ''0.5'' then Some (1 :: nat) else None)
     [''-b'', ''0.5'', ''-s640x480'', ''-o'', ''3'', ''-n'', ''-m'', ''/sock''] (default_options 2 0) =
   (\<lparr>background_opacity = 1, swapinterval = 0, mir_socket_arg = Some ''/sock'', param_width = 640,
     param_height = 480, param_output_id = 3, quiet = False\<rparr>, False)"
proof -
  let ?ss = "[Opacity False ''0.5'', OfSize True 640 480, OnOutput False 3, NoVsync, OnSocket ''/sock'']"
  have d: "decimal 640 = ''640''" "decimal 480 = ''480''" "decimal 3 = ''3''" by code_simp+
  show ?thesis
    using arguments_read_back[of "\<lambda>t. if t = ''0.5'' then Some (1 :: nat) else None" ?ss
        "default_options 2 0" "''-''" "[]"]
    by (simp add: option_form_def d default_options_def del: parse_args.simps)
qed

section \<open>The windows\<close>

definition wanted_windows :: "mir_client \<Rightarrow> window_parameters \<Rightarrow> window_parameters list" where
  "wanted_windows client p =
     (let active = filter active_output (client_outputs client)
      in if window_width p \<noteq> 0 \<and> window_height p \<noteq> 0 then [p]
         else if window_output_id p \<noteq> invalid_output client then
           [fold with_mode (filter (\<lambda>out. output_id_of out = window_output_id p) active) p]
         else map (\<lambda>out. (with_mode out p)\<lparr>window_output_id := output_id_of out\<rparr>) active)"

text \<open>What the calls made so far mean: the windows created, the surface current and the interval last
  set while each surface was current.\<close>

definition windows_created :: "gl_call list \<Rightarrow> window_parameters list" where
  "windows_created cs = List.map_filter (\<lambda>c. case c of CreateWindow p \<Rightarrow> Some p | _ \<Rightarrow> None) cs"

fun replay_call :: "gl_call \<Rightarrow> nat option \<times> (nat \<Rightarrow> int option) \<Rightarrow> nat option \<times> (nat \<Rightarrow> int option)" where
  "replay_call (MakeCurrent sf) (cur, f) = (sf, f)"
| "replay_call (SwapInterval i) (cur, f) = (cur, case cur of None \<Rightarrow> f | Some sf \<Rightarrow> f(sf := Some i))"
| "replay_call _ r = r"

definition replay :: "gl_call list \<Rightarrow> nat option \<times> (nat \<Rightarrow> int option)" where
  "replay cs = fold replay_call cs (None, \<lambda>_. None)"

lemma replay_snoc: "replay (cs @ [c]) = replay_call c (replay cs)"
  by (simp add: replay_def)

lemma windows_created_snoc:
  "windows_created (cs @ [c]) = windows_created cs @ (case c of CreateWindow p \<Rightarrow> [p] | _ \<Rightarrow> [])"
  by (simp add: windows_created_def List.map_filter_def split: gl_call.split)

definition windows_inv :: "int \<Rightarrow> window_parameters list \<Rightarrow> init_state \<Rightarrow> bool" where
  "windows_inv interval ps st \<longleftrightarrow>
     fst (replay (gl_calls (egl_app st))) = current_surface (egl_app st) \<and>
     windows_created (gl_calls (egl_app st)) = ps \<and> length (surfaces st) = length ps \<and>
     (\<forall>(w, sf) \<in> set (surfaces st). snd (replay (gl_calls (egl_app st))) sf = Some interval)"

lemma make_current_effect:
  assumes "make_current gl sf app = (app', None)"
  shows "gl_calls app' = gl_calls app @ [MakeCurrent sf] \<and> current_surface app' = sf"
  using assms by (auto simp: make_current_def call_gl_def Let_def split: if_splits)

lemma set_swap_interval_effect:
  assumes "set_swap_interval gl sf interval app = (app', None)"
    and "fst (replay (gl_calls app)) = current_surface app"
  shows "fst (replay (gl_calls app')) = current_surface app' \<and>
    snd (replay (gl_calls app')) = (snd (replay (gl_calls app)))(sf := Some interval) \<and>
    windows_created (gl_calls app') = windows_created (gl_calls app)"
proof -
  obtain r f where rf: "replay (gl_calls app) = (r, f)" by force
  obtain app1 where app1: "make_current gl (Some sf) app = (app1, None)"
    using assms(1) by (cases "make_current gl (Some sf) app"; cases "snd (make_current gl (Some sf) app)")
      (auto simp: set_swap_interval_def Let_def)
  note one = make_current_effect[OF app1]
  show ?thesis
  proof (cases "current_surface app")
    case None
    then have "app' = call_gl (SwapInterval interval) app1"
      using assms(1) by (simp add: set_swap_interval_def app1 Let_def)
    with one rf show ?thesis by (simp add: call_gl_def replay_snoc windows_created_snoc flip: append_assoc)
  next
    case (Some prev)
    then have "make_current gl (Some prev) (call_gl (SwapInterval interval) app1) = (app', None)"
      using assms(1) by (simp add: set_swap_interval_def app1 Let_def)
    from make_current_effect[OF this] one rf show ?thesis
      by (simp add: call_gl_def replay_snoc windows_created_snoc flip: append_assoc)
  qed
qed

lemma push_surface_inv:
  assumes inv: "windows_inv interval ps st" and push: "push_surface gl invalid_id interval st = (st', None)"
  shows "windows_inv interval (ps @ [surfaceparm st]) st' \<and> surfaceparm st' = surfaceparm st \<and>
    surfaces st' \<noteq> []"
proof -
  obtain w sf app' where new: "new_mir_egl_surface gl invalid_id (surfaceparm st) interval (egl_app st) =
      (Inl (w, sf), app')" and st': "st' = st\<lparr>egl_app := app', surfaces := surfaces st @ [(w, sf)]\<rparr>"
    using push by (auto simp: push_surface_def split: prod.splits sum.splits)
  obtain app1 app2 where app1: "open_window gl invalid_id (surfaceparm st) (egl_app st) = (Inl w, app1)"
    and app2: "create_surface gl w app1 = (Inl sf, app2)"
    and app': "set_swap_interval gl sf interval app2 = (app', None)"
    using new by (auto simp: new_mir_egl_surface_def split: prod.splits sum.splits option.splits)
  have "replay (gl_calls app2) = replay (gl_calls (egl_app st))"
    "current_surface app2 = current_surface (egl_app st)"
    "windows_created (gl_calls app2) = windows_created (gl_calls (egl_app st)) @ [surfaceparm st]"
    using app1 app2
    by (auto simp: open_window_def create_surface_def call_gl_def Let_def replay_snoc windows_created_snoc
        split: sum.splits option.splits simp flip: append_assoc)
  with set_swap_interval_effect[OF app'] inv show ?thesis
    by (auto simp: windows_inv_def st')
qed

lemma with_mode_fields [simp]:
  "window_output_id (with_mode out p) = window_output_id p"
  "window_pixel_format (with_mode out p) = window_pixel_format p"
  by (simp_all add: with_mode_def split: option.splits)

lemma with_mode_same:
  assumes "active_output out" "window_pixel_format q = window_pixel_format p"
  shows "(with_mode out q)\<lparr>window_output_id := i\<rparr> = (with_mode out p)\<lparr>window_output_id := i\<rparr>"
  using assms by (cases p; cases q) (auto simp: active_output_def with_mode_def)

text \<open>The loop that only looks for the size of the chosen output.\<close>

lemma size_loop:
  "for_each_active_output outs
     (\<lambda>out st. if output_id_of out = window_output_id (surfaceparm st)
               then (st\<lparr>surfaceparm := with_mode out (surfaceparm st)\<rparr>, None) else (st, None)) st =
   (st\<lparr>surfaceparm := fold with_mode
      (filter (\<lambda>out. output_id_of out = window_output_id (surfaceparm st)) (filter active_output outs))
      (surfaceparm st)\<rparr>, None)"
  by (induction outs arbitrary: st) (simp_all add: for_each_active_output_def)

text \<open>The loop that opens a window on each active output.\<close>

lemma windows_loop:
  assumes "windows_inv interval ps st" and "window_pixel_format (surfaceparm st) = window_pixel_format p"
    and "for_each_active_output outs
      (\<lambda>out st. push_surface gl invalid_id interval (st\<lparr>surfaceparm :=
         (with_mode out (surfaceparm st))\<lparr>window_output_id := output_id_of out\<rparr>\<rparr>)) st = (st', None)"
  shows "windows_inv interval (ps @ map (\<lambda>out. (with_mode out p)\<lparr>window_output_id := output_id_of out\<rparr>)
    (filter active_output outs)) st'"
  using assms
proof (induction outs arbitrary: ps st)
  case Nil
  then show ?case by (simp add: for_each_active_output_def)
next
  case (Cons out outs)
  show ?case
  proof (cases "active_output out")
    case False
    with Cons show ?thesis by (simp add: for_each_active_output_def)
  next
    case True
    let ?st = "st\<lparr>surfaceparm := (with_mode out (surfaceparm st))\<lparr>window_output_id := output_id_of out\<rparr>\<rparr>"
    obtain st1 where st1: "push_surface gl invalid_id interval ?st = (st1, None)"
      "for_each_active_output outs
        (\<lambda>out st. push_surface gl invalid_id interval (st\<lparr>surfaceparm :=
           (with_mode out (surfaceparm st))\<lparr>window_output_id := output_id_of out\<rparr>\<rparr>)) st1 = (st', None)"
      using Cons.prems(3) True unfolding for_each_active_output_def
      by (cases "push_surface gl invalid_id interval ?st"; cases "snd (push_surface gl invalid_id interval ?st)")
        auto
    have "windows_inv interval ps ?st" using Cons.prems(1) by (simp add: windows_inv_def)
    from push_surface_inv[OF this st1(1)] with_mode_same[OF True Cons.prems(2)]
    have "windows_inv interval (ps @ [(with_mode out p)\<lparr>window_output_id := output_id_of out\<rparr>]) st1"
      "window_pixel_format (surfaceparm st1) = window_pixel_format p"
      using Cons.prems(2) by simp_all
    from Cons.IH[OF this st1(2)] True show ?thesis by simp
  qed
qed

lemma open_windows_inv:
  assumes inv: "windows_inv interval [] st"
    and run: "open_windows gl client interval st = (st', None)"
  shows "windows_inv interval (wanted_windows client (surfaceparm st)) st' \<and> surfaces st' \<noteq> []"
proof -
  let ?p = "surfaceparm st"
  consider (by_size) "window_width ?p \<noteq> 0 \<and> window_height ?p \<noteq> 0"
    | (by_output) "\<not> (window_width ?p \<noteq> 0 \<and> window_height ?p \<noteq> 0)"
        "window_output_id ?p \<noteq> invalid_output client"
    | (everywhere) "\<not> (window_width ?p \<noteq> 0 \<and> window_height ?p \<noteq> 0)"
        "window_output_id ?p = invalid_output client" by blast
  then show ?thesis
  proof cases
    case by_size
    with run push_surface_inv[OF inv, of gl "invalid_output client" st'] show ?thesis
      by (simp add: open_windows_def wanted_windows_def Let_def)
  next
    case by_output
    let ?st = "st\<lparr>surfaceparm := fold with_mode
      (filter (\<lambda>out. output_id_of out = window_output_id (surfaceparm st))
        (filter active_output (client_outputs client))) (surfaceparm st)\<rparr>"
    have "push_surface gl (invalid_output client) interval ?st = (st', None)"
      using run by_output size_loop[of "client_outputs client" st] by (simp add: open_windows_def Let_def)
    moreover have "windows_inv interval [] ?st" using inv by (simp add: windows_inv_def)
    ultimately have "windows_inv interval ([] @ [surfaceparm ?st]) st' \<and> surfaces st' \<noteq> []"
      using push_surface_inv by blast
    with by_output show ?thesis by (auto simp: wanted_windows_def Let_def)
  next
    case everywhere
    let ?loop = "for_each_active_output (client_outputs client)
      (\<lambda>out st. push_surface gl (invalid_output client) interval (st\<lparr>surfaceparm :=
         (with_mode out (surfaceparm st))\<lparr>window_output_id := output_id_of out\<rparr>\<rparr>)) st"
    obtain st1 f where loop: "?loop = (st1, f)" by force
    with run everywhere have "f = None" and st': "st' = st1" "surfaces st1 \<noteq> []"
      by (cases f; auto simp: open_windows_def Let_def split: if_splits)+
    with windows_loop[OF inv refl, of "client_outputs client" gl "invalid_output client" st1] loop everywhere
    show ?thesis by (auto simp: wanted_windows_def Let_def)
  qed
qed


definition demo_gl_answers :: gl_answers where
  "demo_gl_answers =
     \<lparr>has_display = True, egl_version = Some (1, 4), choose_config = Some 1, has_context = True,
      extensions = Some ''EGL_KHR_image EGL_KHR_surfaceless_context'', pbuffer = None,
      makes_current = (\<lambda>sf. True), new_window = (\<lambda>p. Inl (unat (window_output_id p))),
      window_surface = (\<lambda>w. Some (w + 100)), surface_size = (\<lambda>sf. (640, 480))\<rparr>"

definition demo_client :: mir_client where
  "demo_client =
     \<lparr>connection_error = None, surface_formats = [2], uninitialised_format = 0,
      bytes_per_pixel = (\<lambda>f. 4),
      client_outputs =
        [\<lparr>output_enabled = True, output_connected = True, num_modes = 1,
          current_mode = Some (800, 600), output_id_of = 1\<rparr>,
         \<lparr>output_enabled = True, output_connected = False, num_modes = 1,
          current_mode = Some (800, 600), output_id_of = 2\<rparr>,
         \<lparr>output_enabled = True, output_connected = True, num_modes = 2,
          current_mode = Some (1024, 768), output_id_of = 3\<rparr>],
      invalid_output = 0\<rparr>"


section \<open>The dots\<close>

lemma dot_row_sequence:
  "k < 6 \<Longrightarrow> dot_row (dot_sequence ! k) = replicate k OrangeDot @ replicate (5 - k) WhiteDot"
proof -
  have "list_all (\<lambda>k. dot_row (dot_sequence ! k) = replicate k OrangeDot @ replicate (5 - k) WhiteDot)
      [0, 1, 2, 3, 4, 5]"
    by code_simp
  moreover assume "k < 6"
  then have "k \<in> set [0, 1, 2, 3, 4, 5]" by auto
  ultimately show ?thesis unfolding list_all_iff by blast
qed

definition row_shows :: "animation_values \<Rightarrow> bool" where
  "row_shows a \<longleftrightarrow>
     dot_row (dot_mask a) =
       replicate (counter a mod 6) OrangeDot @ replicate (5 - counter a mod 6) WhiteDot"

lemma row_shows_new: "row_shows new_animation"
  unfolding row_shows_def new_animation_def by code_simp

lemma row_shows_update: "row_shows (update_animation rnd (Some t) a)"
  using dot_row_sequence[of "counter (update_animation rnd (Some t) a) mod 6"]
  by (simp add: row_shows_def update_animation_def Let_def)

text \<open>Rounding adds at most \<open>eps\<close> to the results that occur.\<close>

definition rounds_within :: "(rat \<Rightarrow> rat) \<Rightarrow> rat \<Rightarrow> rat \<Rightarrow> bool" where
  "rounds_within rnd eps bound \<longleftrightarrow> (\<forall>x. 0 \<le> x \<and> x \<le> bound \<longrightarrow> 0 \<le> rnd x \<and> rnd x \<le> x + eps)"

lemma seconds_step:
  assumes rnd: "rounds_within rnd eps (T + eps + 1)" and "last_time_stamp a \<le> t" "t \<le> T"
    and "0 \<le> eps" "0 \<le> last_time_stamp a" "0 \<le> second a"
    and inv: "of_nat (counter a) + second a \<le> last_time_stamp a + 2 * eps * of_nat n"
  defines "b \<equiv> update_animation rnd (Some t) a"
  shows "last_time_stamp b = t \<and> 0 \<le> second b \<and>
    of_nat (counter b) + second b \<le> last_time_stamp b + 2 * eps * of_nat (Suc n)"
proof (cases "second a \<ge> 1")
  case True
  then show ?thesis using assms by (simp add: update_animation_def Let_def algebra_simps)
next
  case False
  let ?d = "rnd (t - last_time_stamp a)"
  have d: "0 \<le> ?d" "?d \<le> t - last_time_stamp a + eps"
    using rnd[unfolded rounds_within_def, rule_format, of "t - last_time_stamp a"] assms(2-5) by simp_all
  then have "second a + ?d \<le> T + eps + 1" "0 \<le> second a + ?d"
    using False assms(2-6) by linarith+
  then have "0 \<le> rnd (second a + ?d)" "rnd (second a + ?d) \<le> second a + ?d + eps"
    using rnd[unfolded rounds_within_def, rule_format, of "second a + ?d"] by simp_all
  with d inv False show ?thesis by (simp add: b_def update_animation_def Let_def algebra_simps)
qed

text \<open>
  At every moment the row shows as many orange dots as the counter modulo six, from the left,
  then white ones; the counter moves on by at most one a frame, so no row is skipped, and it never
  runs ahead of the clock: after any frames at times that do not decrease it is at most the time
  elapsed, up to the rounding of two operations a frame.
\<close>

theorem dots_count_seconds:
  assumes "sorted (0 # ts)" and "rounds_within rnd eps (last (0 # ts) + eps + 1)" and "0 \<le> eps"
  shows "(let a = fold (\<lambda>t. update_animation rnd (Some t)) ts new_animation
     in dot_row (dot_mask a) =
          replicate (counter a mod 6) OrangeDot @ replicate (5 - counter a mod 6) WhiteDot \<and>
        of_nat (counter a) \<le> last (0 # ts) + 2 * eps * of_nat (length ts) \<and>
        counter (update_animation rnd (Some t) a) \<le> counter a + 1)"
proof -
  have "let a = fold (\<lambda>t. update_animation rnd (Some t)) ts new_animation
     in row_shows a \<and> last_time_stamp a = last (0 # ts) \<and> 0 \<le> second a \<and>
        of_nat (counter a) + second a \<le> last_time_stamp a + 2 * eps * of_nat (length ts)"
    if "sorted (0 # ts)" "last (0 # ts) \<le> T" "rounds_within rnd eps (T + eps + 1)" for T
    using that
  proof (induction ts rule: rev_induct)
    case Nil
    have "row_shows new_animation" by (rule row_shows_new)
    then show ?case by (simp add: Let_def new_animation_def)
  next
    case (snoc t ts)
    let ?a = "fold (\<lambda>t. update_animation rnd (Some t)) ts new_animation"
    have le: "last (0 # ts) \<le> t" "0 \<le> last (0 # ts)" "sorted (0 # ts)"
      using snoc.prems(1) by (auto simp: sorted_append)
    with snoc have a: "last_time_stamp ?a = last (0 # ts)" "0 \<le> second ?a"
      "of_nat (counter ?a) + second ?a \<le> last_time_stamp ?a + 2 * eps * of_nat (length ts)"
      by (auto simp: Let_def)
    show ?case
      using seconds_step[OF snoc.prems(3), of ?a t "length ts"] a le snoc.prems(2) assms(3)
        row_shows_update[of rnd t ?a] by (simp add: Let_def)
  qed
  from this[OF assms(1) order.refl assms(2)] show ?thesis
    by (auto simp: Let_def row_shows_def update_animation_def)
qed

theorem dots_count_seconds_witness:
  "dot_row (dot_mask (fold (\<lambda>t. update_animation (\<lambda>x. x) (Some t)) [1/2, 1, 3/2, 2, 3] new_animation)) =
     [OrangeDot, WhiteDot, WhiteDot, WhiteDot, WhiteDot] \<and>
   counter (fold (\<lambda>t. update_animation (\<lambda>x. x) (Some t)) [1/2, 1, 3/2, 2, 3] new_animation) = 1"
proof -
  let ?ts = "[1/2, 1, 3/2, 2, 3] :: rat list"
  let ?a = "fold (\<lambda>t. update_animation (\<lambda>x. x) (Some t)) ?ts new_animation"
  have counter: "counter ?a = 1" by code_simp
  have "sorted (0 # ?ts)" by simp
  moreover have "rounds_within (\<lambda>x. x) 0 b" for b by (simp add: rounds_within_def)
  ultimately have "dot_row (dot_mask ?a) =
      replicate (counter ?a mod 6) OrangeDot @ replicate (5 - counter ?a mod 6) WhiteDot"
    using dots_count_seconds[of ?ts "\<lambda>x. x" 0] unfolding Let_def by blast
  moreover have "replicate (1 mod 6) OrangeDot @ replicate (5 - 1 mod 6) WhiteDot =
      [OrangeDot, WhiteDot, WhiteDot, WhiteDot, WhiteDot]"
    by code_simp
  ultimately show ?thesis using counter by (simp only:)
qed

end
