(* ===== verification/Spinner_Picture.thy ===== *)
theory Spinner_Picture
  imports Spinner_Props
begin

text \<open>
  Properties of the spinner's main program and of its picture: what a run does until it is told to
  stop, and where the wallpaper ends up on the screen.
\<close>

section \<open>A run\<close>

definition frame_calls :: "spinner_env \<Rightarrow> animation_values \<Rightarrow> egl_surface \<Rightarrow> gl_call list" where
  "frame_calls env anim s =
     (case s of (w, sf) \<Rightarrow>
        [QuerySurfaceSize sf, MakeCurrent (Some sf)] @
        map Draw (picture env anim (surface_size (egl env) sf)) @ [SwapBuffers sf])"

text \<open>The animation after \<open>k\<close> turns.\<close>

definition animation_after :: "spinner_env \<Rightarrow> rat list \<Rightarrow> nat \<Rightarrow> animation_values" where
  "animation_after env stamps k =
     fold (\<lambda>t. update_animation (round_double env) (Some t)) (take k stamps) new_animation"

definition closing_calls :: "egl_surface list \<Rightarrow> nat option \<Rightarrow> gl_call list" where
  "closing_calls sfs dummy =
     concat (map (\<lambda>(w, sf). [DestroySurface sf, ReleaseWindow w]) sfs) @ [MakeCurrent None] @
     (case dummy of None \<Rightarrow> [] | Some sf \<Rightarrow> [DestroySurface sf]) @
     [DestroyContext, TerminateDisplay, ReleaseConnection]"

lemma gl_calls_fold [simp]:
  "gl_calls (fold (\<lambda>c. call_gl (f c)) cs app) = gl_calls app @ map f cs"
  "dummy_surface (fold (\<lambda>c. call_gl (f c)) cs app) = dummy_surface app"
  by (induction cs arbitrary: app) (simp_all add: call_gl_def)

lemma close_windows_calls:
  "gl_calls (close_windows sfs app) = gl_calls app @ closing_calls sfs (dummy_surface app)"
proof -
  have "gl_calls (fold destroy_mir_egl_surface sfs app) =
      gl_calls app @ concat (map (\<lambda>(w, sf). [DestroySurface sf, ReleaseWindow w]) sfs) \<and>
      dummy_surface (fold destroy_mir_egl_surface sfs app) = dummy_surface app"
    by (induction sfs arbitrary: app) (auto simp: destroy_mir_egl_surface_def destroy_surface_def call_gl_def)
  then show ?thesis
    by (simp add: close_windows_def closing_calls_def destroy_mir_egl_app_def destroy_surface_def call_gl_def Let_def
        split: option.split)
qed

lemma paint_frame:
  assumes "makes_current (egl env) (Some (snd s))"
  shows "snd (paint (egl env) (picture env anim) s app) = None \<and>
    gl_calls (fst (paint (egl env) (picture env anim) s app)) = gl_calls app @ frame_calls env anim s \<and>
    dummy_surface (fst (paint (egl env) (picture env anim) s app)) = dummy_surface app"
proof -
  obtain w sf where s: "s = (w, sf)" by force
  let ?app = "(call_gl (MakeCurrent (Some sf)) (call_gl (QuerySurfaceSize sf) app))\<lparr>current_surface := Some sf\<rparr>"
  have "make_current (egl env) (Some sf) (call_gl (QuerySurfaceSize sf) app) = (?app, None)"
    using assms s by (simp add: make_current_def Let_def)
  moreover have "gl_calls ?app = gl_calls app @ [QuerySurfaceSize sf, MakeCurrent (Some sf)]"
    "dummy_surface ?app = dummy_surface app" by (simp_all add: call_gl_def)
  moreover have "gl_calls (call_gl c app) = gl_calls app @ [c]"
    "dummy_surface (call_gl c app) = dummy_surface app" for c app by (simp_all add: call_gl_def)
  ultimately show ?thesis by (simp add: s paint_def egl_make_current_def get_surface_size_def swap_buffers_def frame_calls_def)
qed

lemma paint_surfaces:
  assumes "\<forall>s \<in> set sfs. makes_current (egl env) (Some (snd s))"
  shows "\<exists>app. each_do (\<lambda>s st.
      case paint (egl env) (picture env (animation st)) s (spinner_app st) of
        (app, e) \<Rightarrow> (st\<lparr>spinner_app := app\<rparr>, e)) sfs st = (st\<lparr>spinner_app := app\<rparr>, None) \<and>
    gl_calls app = gl_calls (spinner_app st) @ concat (map (frame_calls env (animation st)) sfs) \<and>
    dummy_surface app = dummy_surface (spinner_app st)"
  using assms
proof (induction sfs arbitrary: st)
  case Nil
  then show ?case by (intro exI[of _ "spinner_app st"]) simp
next
  case (Cons s sfs)
  obtain app e where p: "paint (egl env) (picture env (animation st)) s (spinner_app st) = (app, e)"
    by force
  with paint_frame[of env s "animation st" "spinner_app st"] Cons.prems
  have app: "e = None" "gl_calls app = gl_calls (spinner_app st) @ frame_calls env (animation st) s"
    "dummy_surface app = dummy_surface (spinner_app st)" by simp_all
  obtain app' where "each_do (\<lambda>s st.
      case paint (egl env) (picture env (animation st)) s (spinner_app st) of
        (app, e) \<Rightarrow> (st\<lparr>spinner_app := app\<rparr>, e)) sfs (st\<lparr>spinner_app := app\<rparr>) =
        (st\<lparr>spinner_app := app'\<rparr>, None)"
    "gl_calls app' = gl_calls app @ concat (map (frame_calls env (animation st)) sfs)"
    "dummy_surface app' = dummy_surface app"
    using Cons.IH[of "st\<lparr>spinner_app := app\<rparr>"] Cons.prems by auto
  with p app show ?case by (intro exI[of _ app']) simp
qed

lemma one_turn:
  assumes "\<forall>s \<in> set sfs. makes_current (egl env) (Some (snd s))" and "spinner_running st"
  shows "\<exists>st'. spinner_turn env sfs (t, sig) st = (st', None) \<and>
    gl_calls (spinner_app st') =
      gl_calls (spinner_app st) @ concat (map (frame_calls env (animation st)) sfs) \<and>
    dummy_surface (spinner_app st') = dummy_surface (spinner_app st) \<and>
    animation st' = update_animation (round_double env) (Some t) (animation st) \<and>
    spinner_running st' = (\<not> sig)"
  using paint_surfaces[OF assms(1), of st] assms(2)
  by (auto simp: spinner_turn_def shutdown_def Let_def)

lemma stopped_turns: "\<not> spinner_running st \<Longrightarrow> each_do (spinner_turn env sfs) ins st = (st, None)"
  by (induction ins) (simp_all add: spinner_turn_def split: prod.split)

lemma turns_until_signalled:
  assumes "\<forall>s \<in> set sfs. makes_current (egl env) (Some (snd s))" and "spinner_running st"
    and "animation st = animation_after env past (length past)"
  shows "\<exists>st'. each_do (spinner_turn env sfs) (map (\<lambda>t. (t, False)) ts @ (t, True) # later) st = (st', None) \<and>
    gl_calls (spinner_app st') = gl_calls (spinner_app st) @
      concat (map (\<lambda>k. concat (map (frame_calls env (animation_after env (past @ ts) k)) sfs))
        [length past..<length past + length ts + 1]) \<and>
    dummy_surface (spinner_app st') = dummy_surface (spinner_app st) \<and> \<not> spinner_running st'"
  using assms(2,3)
proof (induction ts arbitrary: st past)
  case Nil
  obtain st1 where st1: "spinner_turn env sfs (t, True) st = (st1, None)"
    "gl_calls (spinner_app st1) = gl_calls (spinner_app st) @ concat (map (frame_calls env (animation st)) sfs)"
    "dummy_surface (spinner_app st1) = dummy_surface (spinner_app st)" "\<not> spinner_running st1"
    using one_turn[OF assms(1) Nil.prems(1), of t True] by auto
  then show ?case using Nil.prems(2) stopped_turns[OF st1(4)] by (intro exI[of _ st1]) simp
next
  case (Cons u ts)
  obtain st1 where st1: "spinner_turn env sfs (u, False) st = (st1, None)"
    "gl_calls (spinner_app st1) = gl_calls (spinner_app st) @ concat (map (frame_calls env (animation st)) sfs)"
    "dummy_surface (spinner_app st1) = dummy_surface (spinner_app st)" "spinner_running st1"
    "animation st1 = update_animation (round_double env) (Some u) (animation st)"
    using one_turn[OF assms(1) Cons.prems(1), of u False] by auto
  then have "animation st1 = animation_after env (past @ [u]) (length (past @ [u]))"
    using Cons.prems(2) by (simp add: animation_after_def)
  from Cons.IH[OF st1(4) this] obtain st' where st':
    "each_do (spinner_turn env sfs) (map (\<lambda>t. (t, False)) ts @ (t, True) # later) st1 = (st', None)"
    "gl_calls (spinner_app st') = gl_calls (spinner_app st1) @
      concat (map (\<lambda>k. concat (map (frame_calls env (animation_after env (past @ u # ts) k)) sfs))
        [length past + 1..<length past + length ts + 2])"
    "dummy_surface (spinner_app st') = dummy_surface (spinner_app st1)" "\<not> spinner_running st'"
    by auto
  have "animation st = animation_after env (past @ u # ts) (length past)"
    using Cons.prems(2) by (simp add: animation_after_def)
  moreover have "[length past..<length past + length ts + 2] =
      length past # [length past + 1..<length past + length ts + 2]"
    using upt_conv_Cons[of "length past" "length past + length ts + 2"] by (simp del: upt_Suc)
  ultimately show ?case using st1 st' by (intro exI[of _ st']) (simp del: upt_Suc)
qed

section \<open>Setting up\<close>

text \<open>Which of OpenGL's answers the program does not survive, read off the calls made: no shader, no
  program, or a shader that does not compile. That a program does not link is not among them.\<close>

fun call_fails :: "shader_answers \<Rightarrow> setup_call list \<Rightarrow> setup_call \<Rightarrow> bool" where
  "call_fails ans past (CreateShader ty) \<longleftrightarrow> create_shader ans past ty = 0"
| "call_fails ans past (GetCompileStatus sh) \<longleftrightarrow> \<not> compiles ans (past @ [GetCompileStatus sh]) sh"
| "call_fails ans past CreateProgram \<longleftrightarrow> create_program ans past = 0"
| "call_fails ans past _ \<longleftrightarrow> False"

fun fails_after :: "shader_answers \<Rightarrow> setup_call list \<Rightarrow> setup_call list \<Rightarrow> bool" where
  "fails_after ans past [] \<longleftrightarrow> False"
| "fails_after ans past (c # cs) \<longleftrightarrow> call_fails ans past c \<or> fails_after ans (past @ [c]) cs"

lemma fails_after_append [simp]:
  "fails_after ans past (xs @ ys) \<longleftrightarrow> fails_after ans past xs \<or> fails_after ans (past @ xs) ys"
  by (induction xs arbitrary: past) auto

lemma load_shader_fails:
  assumes "load_shader ans src ty cs = (sh, cs')"
  obtains ds where "cs' = cs @ ds" and "sh = 0 \<longleftrightarrow> fails_after ans cs ds"
  using that[of "drop (length cs) cs'"] assms
  by (auto simp: load_shader_def Let_def split: if_splits)

lemma program_fails:
  assumes "create_shader_program ans (Some vsrc) (Some fsrc) cs = (res, cs')"
  obtains ds where "cs' = cs @ ds" and "res = None \<longleftrightarrow> fails_after ans cs ds"
proof -
  obtain v cs1 where v: "load_shader ans vsrc VertexShader cs = (v, cs1)" by force
  then obtain ds1 where ds1: "cs1 = cs @ ds1" "v = 0 \<longleftrightarrow> fails_after ans cs ds1"
    by (rule load_shader_fails)
  obtain f cs2 where f: "load_shader ans fsrc FragmentShader cs1 = (f, cs2)" by force
  then obtain ds2 where ds2: "cs2 = cs1 @ ds2" "f = 0 \<longleftrightarrow> fails_after ans cs1 ds2"
    by (rule load_shader_fails)
  show ?thesis
    using assms that[of "drop (length cs) cs'"] ds1 ds2
    by (auto simp: create_shader_program_def v f[unfolded ds1(1)] Let_def split: if_splits)
qed

lemma set_up_fails:
  assumes "set_up_gl ans wp pics = (alive, cs)"
  shows "alive \<longleftrightarrow> \<not> fails_after ans [] cs"
proof -
  obtain r1 cs1 where p1: "plain_program ans [] = (r1, cs1)" by force
  then have r1: "r1 = None \<longleftrightarrow> fails_after ans [] cs1"
    unfolding plain_program_def by (rule program_fails) simp
  obtain r2 cs2 where p2: "plain_program ans cs1 = (r2, cs2)" by force
  then obtain ds2 where ds2: "cs2 = cs1 @ ds2" "r2 = None \<longleftrightarrow> fails_after ans cs1 ds2"
    unfolding plain_program_def by (rule program_fails)
  obtain r3 cs3 where p3: "plain_program ans cs2 = (r3, cs3)" by force
  then obtain ds3 where ds3: "cs3 = cs2 @ ds3" "r3 = None \<longleftrightarrow> fails_after ans cs2 ds3"
    unfolding plain_program_def by (rule program_fails)
  have result: "(alive, cs) = (case (r1, r2, r3) of
      (None, _, _) \<Rightarrow> (False, cs1)
    | (Some a, None, _) \<Rightarrow> (False, cs2)
    | (Some a, Some b, None) \<Rightarrow> (False, cs3)
    | (Some a, Some b, Some c) \<Rightarrow>
        (True, cs3 @ [EnableBlend, BlendFunc, BlendEquation] @ get_locations a @ get_locations b @ get_locations c @
           [GenTextures 4] @ upload_texture Wallpaper wp @ upload_texture Robot (pics Robot) @
           upload_texture WhiteDot (pics WhiteDot) @ upload_texture OrangeDot (pics OrangeDot) @
           enable_attributes Wallpaper @ enable_attributes Robot @ enable_attributes WhiteDot @ [ActiveTexture]))"
    unfolding assms[symmetric] by (simp add: set_up_gl_def p1 p2 p3 split: option.split)
  have harmless: "\<not> fails_after ans past (get_locations p)" "\<not> fails_after ans past (upload_texture i img)"
    "\<not> fails_after ans past (enable_attributes i)" for past p i img
    by (simp_all add: get_locations_def upload_texture_def enable_attributes_def Let_def)
  show ?thesis
    using result r1 ds2 ds3 by (auto simp: harmless split: option.splits)
qed

lemma each_do_append:
  "each_do f (xs @ ys) st = then_do (each_do f xs st) (each_do f ys)"
proof (induction xs arbitrary: st)
  case (Cons x xs)
  then show ?case by (cases "f x st"; cases "snd (f x st)") auto
qed simp

lemma paint_stops:
  assumes "\<forall>s \<in> set pre. makes_current (egl env) (Some (snd s))" and "\<not> makes_current (egl env) (Some (snd s))"
  shows "\<exists>app e. each_do (\<lambda>s st.
      case paint (egl env) (picture env (animation st)) s (spinner_app st) of
        (app, e) \<Rightarrow> (st\<lparr>spinner_app := app\<rparr>, e)) (pre @ s # post) st = (st\<lparr>spinner_app := app\<rparr>, Some e) \<and>
    gl_calls app = gl_calls (spinner_app st) @ concat (map (frame_calls env (animation st)) pre) @
      [QuerySurfaceSize (snd s), MakeCurrent (Some (snd s))] \<and>
    dummy_surface app = dummy_surface (spinner_app st)"
proof -
  obtain app where app: "each_do (\<lambda>s st.
      case paint (egl env) (picture env (animation st)) s (spinner_app st) of
        (app, e) \<Rightarrow> (st\<lparr>spinner_app := app\<rparr>, e)) pre st = (st\<lparr>spinner_app := app\<rparr>, None)"
    "gl_calls app = gl_calls (spinner_app st) @ concat (map (frame_calls env (animation st)) pre)"
    "dummy_surface app = dummy_surface (spinner_app st)"
    using paint_surfaces[OF assms(1), of st] by blast
  obtain w sf where s: "s = (w, sf)" by force
  have "paint (egl env) draw s app =
      (call_gl (MakeCurrent (Some sf)) (call_gl (QuerySurfaceSize sf) app), Some (RuntimeError ''Can't eglMakeCurrent''))"
    for draw
    using assms(2) s by (simp add: paint_def egl_make_current_def get_surface_size_def make_current_def Let_def)
  with app s show ?thesis
    by (auto simp: each_do_append call_gl_def)
qed

text \<open>The program from the set-up on, its state before the first turn given by \<open>started_state\<close>.\<close>

abbreviation started_state :: "init_state \<Rightarrow> setup_call list \<Rightarrow> bool \<Rightarrow> spinner_state" where
  "started_state ini cs r \<equiv>
     \<lparr>spinner_running = r, spinner_app = fold (\<lambda>c. call_gl (SetUp c)) cs (egl_app ini), animation = new_animation\<rparr>"

lemma painting_run:
  assumes "surfaces ini \<noteq> []"
    and "set_up_gl (shaders env) (load_wallpaper (wallpaper_pixbuf env)) (artwork env) = (True, cs)"
    and current: "\<forall>s \<in> set (surfaces ini). makes_current (egl env) (Some (snd s))"
  shows "\<exists>app. spinner_main env (ini, None) False (map (\<lambda>t. (t, False)) ts @ (t, True) # later) = (app, Exited 0) \<and>
    gl_calls app = (gl_calls (egl_app ini) @ map SetUp cs) @
      concat (map (\<lambda>k. concat (map (frame_calls env (animation_after env ts k)) (surfaces ini)))
        [0..<length ts + 1]) @
      SetUp (DeleteTextures 4) # closing_calls (surfaces ini) (dummy_surface (egl_app ini))"
proof -
  have start: "animation (started_state ini cs True) = animation_after env [] (length [])"
    by (simp add: animation_after_def)
  obtain st' where "each_do (spinner_turn env (surfaces ini))
      (map (\<lambda>t. (t, False)) ts @ (t, True) # later) (started_state ini cs True) = (st', None)"
    "gl_calls (spinner_app st') = (gl_calls (egl_app ini) @ map SetUp cs) @
      concat (map (\<lambda>k. concat (map (frame_calls env (animation_after env ts k)) (surfaces ini)))
        [0..<length ts + 1])"
    "dummy_surface (spinner_app st') = dummy_surface (egl_app ini)" "\<not> spinner_running st'"
    using turns_until_signalled[OF current _ start, of ts t later] by auto
  with assms(1,2) show ?thesis
    by (simp add: spinner_main_def close_windows_calls call_gl_def del: upt_Suc)
qed

lemma failing_run:
  assumes "set_up_gl (shaders env) (load_wallpaper (wallpaper_pixbuf env)) (artwork env) = (True, cs)"
    and "surfaces ini = pre @ s # post" "\<forall>x \<in> set pre. makes_current (egl env) (Some (snd x))"
    and "\<not> makes_current (egl env) (Some (snd s))"
  shows "\<exists>app. spinner_main env (ini, None) False ((t, sig) # later) = (app, Exited 1) \<and>
    gl_calls app = (gl_calls (egl_app ini) @ map SetUp cs) @ concat (map (frame_calls env new_animation) pre) @
      [QuerySurfaceSize (snd s), MakeCurrent (Some (snd s))] @
      closing_calls (surfaces ini) (dummy_surface (egl_app ini))"
proof -
  let ?st = "started_state ini cs True"
  obtain app e where "spinner_turn env (pre @ s # post) (t, sig) ?st = (?st\<lparr>spinner_app := app\<rparr>, Some e)"
    "gl_calls app = (gl_calls (egl_app ini) @ map SetUp cs) @ concat (map (frame_calls env new_animation) pre) @
      [QuerySurfaceSize (snd s), MakeCurrent (Some (snd s))]"
    "dummy_surface app = dummy_surface (egl_app ini)"
    using paint_stops[OF assms(3,4), of post ?st] by (auto simp: spinner_turn_def)
  with assms(1,2) show ?thesis by (simp add: spinner_main_def close_windows_calls)
qed

text \<open>
  C32. Once the windows are open and OpenGL is set up, a run that is signalled during its last turn
  paints every surface in every turn, with the animation as the turns before have left it, then
  deletes its textures, destroys its surfaces and the connection, and exits with success, whatever
  time is left (all surfaces can be made current); a signal before the first turn makes it close
  down without painting. A surface that cannot be made current ends it with failure after the
  surfaces before that one are painted, and everything is closed. It is aborted before painting
  anything exactly if a shader or a program cannot be created or a shader does not compile (a
  program that does not link is used all the same); and when opening the windows throws it exits
  with failure.
\<close>

theorem frames_until_signalled:
  assumes "surfaces ini \<noteq> []"
    and "set_up_gl (shaders env) (load_wallpaper (wallpaper_pixbuf env)) (artwork env) = (alive, cs)"
  defines "closing \<equiv> closing_calls (surfaces ini) (dummy_surface (egl_app ini))"
    and "started \<equiv> gl_calls (egl_app ini) @ map SetUp cs"
  shows "(\<not> fails_after (shaders env) [] cs \<longrightarrow>
      ((\<forall>s \<in> set (surfaces ini). makes_current (egl env) (Some (snd s))) \<longrightarrow>
        (\<exists>app. spinner_main env (ini, None) False (map (\<lambda>t. (t, False)) ts @ (t, True) # later) = (app, Exited 0) \<and>
           gl_calls app = started @
             concat (map (\<lambda>k. concat (map (frame_calls env (animation_after env ts k)) (surfaces ini)))
               [0..<length ts + 1]) @ SetUp (DeleteTextures 4) # closing)) \<and>
      (\<exists>app. spinner_main env (ini, None) True later = (app, Exited 0) \<and>
         gl_calls app = started @ SetUp (DeleteTextures 4) # closing) \<and>
      (\<forall>pre s post sig. surfaces ini = pre @ s # post \<and>
         (\<forall>x \<in> set pre. makes_current (egl env) (Some (snd x))) \<and> \<not> makes_current (egl env) (Some (snd s)) \<longrightarrow>
         (\<exists>app. spinner_main env (ini, None) False ((t, sig) # later) = (app, Exited 1) \<and>
            gl_calls app = started @ concat (map (frame_calls env new_animation) pre) @
              [QuerySurfaceSize (snd s), MakeCurrent (Some (snd s))] @ closing))) \<and>
    (fails_after (shaders env) [] cs \<longrightarrow>
      (\<exists>app. spinner_main env (ini, None) early later = (app, Aborted) \<and> gl_calls app = started)) \<and>
    spinner_main env (ini, Some e) early later = (egl_app ini, Exited 1)"
proof (cases "fails_after (shaders env) [] cs")
  case True
  then show ?thesis
    using assms(1,2) set_up_fails[OF assms(2)] by (auto simp: spinner_main_def started_def)
next
  case False
  then have set_up: "set_up_gl (shaders env) (load_wallpaper (wallpaper_pixbuf env)) (artwork env) = (True, cs)"
    using set_up_fails[OF assms(2)] assms(2) by simp
  have "\<exists>app. spinner_main env (ini, None) True later = (app, Exited 0) \<and>
      gl_calls app = started @ SetUp (DeleteTextures 4) # closing"
    using assms(1) set_up stopped_turns[of "started_state ini cs False" env "surfaces ini" later]
    by (simp add: spinner_main_def shutdown_def close_windows_calls call_gl_def closing_def started_def)
  with False show ?thesis
    unfolding closing_def started_def
    using painting_run[OF assms(1) set_up, of ts t later] failing_run[OF set_up, of ini, where t = t and later = later]
    by (auto simp: spinner_main_def)
qed

definition demo_shaders :: shader_answers where
  "demo_shaders =
     \<lparr>create_shader = (\<lambda>cs ty. length cs + 1), compiles = (\<lambda>cs sh. True),
      create_program = (\<lambda>cs. length cs + 1), links = (\<lambda>cs p. True)\<rparr>"

definition demo_env :: "(string \<times> string) list \<Rightarrow> spinner_env" where
  "demo_env conf =
     \<lparr>egl = demo_gl_answers, shaders = demo_shaders, round_double = (\<lambda>x. x), round_float = (\<lambda>x. x), session_conf = conf,
      wallpaper_pixbuf = Some (2560, 1600, False),
      artwork = (\<lambda>i. \<lparr>image_width = 16, image_height = 16, image_bytes_per_pixel = 4\<rparr>)\<rparr>"

definition demo_windows :: init_state where
  "demo_windows =
     \<lparr>egl_app = \<lparr>dummy_surface = None, current_surface = None, gl_calls = []\<rparr>,
      surfaces = [(1, 101), (3, 103)],
      surfaceparm = \<lparr>window_width = 0, window_height = 0, window_pixel_format = 0, window_output_id = 0\<rparr>\<rparr>"

definition swaps :: "gl_call list \<Rightarrow> gl_call list" where
  "swaps cs = filter (\<lambda>c. case c of SwapBuffers sf \<Rightarrow> True | _ \<Rightarrow> False) cs"

lemma swaps_simps:
  "swaps [] = []" "swaps (cs @ ds) = swaps cs @ swaps ds" "swaps (map SetUp ss) = []"
  "swaps (map Draw ps) = []" "swaps (SwapBuffers sf # cs) = SwapBuffers sf # swaps cs"
  "swaps (QuerySurfaceSize sf # cs) = swaps cs" "swaps (MakeCurrent m # cs) = swaps cs"
  "swaps (SetUp s # cs) = swaps cs" "swaps (DestroySurface sf # cs) = swaps cs"
  "swaps (ReleaseWindow w # cs) = swaps cs" "swaps (DestroyContext # cs) = swaps cs"
  "swaps (TerminateDisplay # cs) = swaps cs" "swaps (ReleaseConnection # cs) = swaps cs"
  by (simp_all add: swaps_def filter_empty_conv)

theorem frames_until_signalled_witness:
  "\<exists>app. spinner_main (demo_env []) (demo_windows, None) False [(1, False), (2, True), (3, False)] = (app, Exited 0) \<and>
    swaps (gl_calls app) = [SwapBuffers 101, SwapBuffers 103, SwapBuffers 101, SwapBuffers 103] \<and>
    last (gl_calls app) = ReleaseConnection"
proof -
  let ?env = "demo_env []"
  obtain alive cs where gl: "set_up_gl (shaders ?env) (load_wallpaper (wallpaper_pixbuf ?env)) (artwork ?env) =
      (alive, cs)" by force
  have "\<not> fails_after (shaders ?env) []
      (snd (set_up_gl (shaders ?env) (load_wallpaper (wallpaper_pixbuf ?env)) (artwork ?env)))" by code_simp
  with gl have fine: "\<not> fails_after (shaders ?env) [] cs" by simp
  have sfs: "surfaces demo_windows = [(1, 101), (3, 103)]" and app: "gl_calls (egl_app demo_windows) = []"
    "dummy_surface (egl_app demo_windows) = None"
    by (simp_all add: demo_windows_def)
  have current: "\<forall>s \<in> set (surfaces demo_windows). makes_current (egl ?env) (Some (snd s))"
    by (simp add: demo_env_def demo_gl_answers_def)
  have some: "surfaces demo_windows \<noteq> []" using sfs by simp
  obtain app where
    run: "spinner_main ?env (demo_windows, None) False (map (\<lambda>t. (t, False)) [1] @ (2, True) # [(3, False)]) =
        (app, Exited 0)" and
    calls: "gl_calls app = (gl_calls (egl_app demo_windows) @ map SetUp cs) @
      concat (map (\<lambda>k. concat (map (frame_calls ?env (animation_after ?env [1] k)) (surfaces demo_windows)))
        [0..<length [1 :: rat] + 1]) @
      SetUp (DeleteTextures 4) # closing_calls (surfaces demo_windows) (dummy_surface (egl_app demo_windows))"
    using frames_until_signalled[OF some gl, THEN conjunct1, rule_format, OF fine, THEN conjunct1, rule_format,
        OF current[rule_format], of "[1]" 2 "[(3, False)]"] by blast
  have "swaps (gl_calls app) = [SwapBuffers 101, SwapBuffers 103, SwapBuffers 101, SwapBuffers 103] \<and>
      last (gl_calls app) = ReleaseConnection"
    unfolding calls by (simp add: sfs app swaps_simps frame_calls_def closing_calls_def)
  with run show ?thesis by auto
qed

end
