(* ===== verification/Spinner_Wallpaper.thy ===== *)
theory Spinner_Wallpaper
  imports Spinner_Picture
begin

text \<open>
  Where the spinner's wallpaper ends up on the screen, in exact arithmetic and with what glm documents
  of its transformations.
\<close>

section \<open>Transformations\<close>

text \<open>\<open>act m p\<close> is the point \<open>p\<close> of the plane transformed by the matrix \<open>m\<close>: a transformation is
  applied after the ones later in the program, and a projection maps its rectangle to the square
  between -1 and 1.\<close>

definition glm_laws :: "(glm \<Rightarrow> rat \<times> rat \<Rightarrow> rat \<times> rat) \<Rightarrow> bool" where
  "glm_laws act \<longleftrightarrow>
     (\<forall>p. act GlmIdentity p = p) \<and>
     (\<forall>m n p. act (GlmTimes m n) p = act m (act n p)) \<and>
     (\<forall>m x y p. act (GlmTranslate m (Finite x) (Finite y)) p = act m (fst p + x, snd p + y)) \<and>
     (\<forall>m x y p. act (GlmScale m (Finite x) (Finite y)) p = act m (fst p * x, snd p * y)) \<and>
     (\<forall>m p. act (GlmRotate m 90) p = act m (- snd p, fst p)) \<and>
     (\<forall>m p. act (GlmRotate m 270) p = act m (snd p, - fst p)) \<and>
     (\<forall>l r b t p. l \<noteq> r \<longrightarrow> b \<noteq> t \<longrightarrow>
        act (GlmOrtho (Finite l) (Finite r) (Finite b) (Finite t)) p =
          ((2 * fst p - (r + l)) / (r - l), (2 * snd p - (t + b)) / (t - b)))"

definition turned :: "nat \<Rightarrow> rat \<times> rat \<Rightarrow> rat \<times> rat" where
  "turned rotation p =
     (if rotation = 90 then (- snd p, fst p) else if rotation = 270 then (snd p, - fst p) else p)"

definition uniform_matrix :: "texture_id \<Rightarrow> draw_call list \<Rightarrow> glm" where
  "uniform_matrix tex cs =
     (case List.map_filter (\<lambda>c. case c of UniformMatrix i m \<Rightarrow> if i = tex then Some m else None | _ \<Rightarrow> None) cs
      of m # ms \<Rightarrow> m | [] \<Rightarrow> GlmIdentity)"

definition rat_of :: "32 word \<Rightarrow> rat" where
  "rat_of w = of_nat (unat w)"

lemma rat_of_pos: "0 < w \<Longrightarrow> 0 < rat_of w"
  unfolding rat_of_def by (simp only: of_nat_0_less_iff unat_gt_0 word_gt_0)

lemma fl_of_word_exact: "fl_of_word (\<lambda>x. x) w = Finite (rat_of w)"
  by (simp add: fl_of_word_def rat_of_def)

lemma rotation_cases: "rotation_for orient w h \<in> {0, 90, 270}"
  by (simp add: rotation_for_def)

text \<open>The ratios of the projection, for sizes whose product does not wrap.\<close>

lemma wallpaper_ratios_exact:
  assumes "0 < image_width wp" "0 < image_height wp" "0 < rw" "0 < rh"
    and "unat (image_width wp) * unat rh < 2 ^ 32"
  shows "\<exists>wr hr. wallpaper_ratios (\<lambda>x. x) wp rw rh = (Finite wr, Finite hr) \<and>
    0 < wr \<and> wr \<le> 1 \<and> 0 < hr \<and> hr \<le> 1 \<and>
    wr * rat_of (image_width wp) * rat_of rh = hr * rat_of (image_height wp) * rat_of rw"
proof -
  let ?r = "rat_of (image_height wp) * rat_of rw / (rat_of (image_width wp) * rat_of rh)"
  have prod: "rat_of (image_width wp * rh) = rat_of (image_width wp) * rat_of rh"
    using assms(5) unat_mult_lem[of "image_width wp" rh] unfolding rat_of_def by (simp del: of_nat_unat)
  have pos: "0 < rat_of (image_width wp)" "0 < rat_of (image_height wp)" "0 < rat_of rw" "0 < rat_of rh"
    using assms by (simp_all add: rat_of_pos)
  then have r: "0 < ?r" by simp
  have "wallpaper_ratios (\<lambda>x. x) wp rw rh =
      (if 1 < ?r then (Finite 1, Finite (1 / ?r)) else (Finite ?r, Finite 1))"
    using pos r by (simp add: wallpaper_ratios_def fl_of_word_exact prod Let_def)
  then show ?thesis
  proof (cases "1 < ?r")
    case True
    with pos r show ?thesis
      using \<open>wallpaper_ratios _ _ _ _ = _\<close>
      by (intro exI[of _ 1] exI[of _ "1 / ?r"]) (simp add: field_simps)
  next
    case False
    with pos r show ?thesis
      using \<open>wallpaper_ratios _ _ _ _ = _\<close>
      by (intro exI[of _ ?r] exI[of _ 1]) (simp add: field_simps)
  qed
qed

lemma mvp_matrix_act:
  assumes "glm_laws act" "rotation \<in> {0, 90, 270}" "0 < rw" "0 < rh"
  shows "act (mvp_matrix (\<lambda>x. x) rotation rw rh) (X, Y) =
    turned rotation (2 * X / rat_of rw - 1, 2 * Y / rat_of rh - 1)"
  using assms rat_of_pos[OF assms(3)] rat_of_pos[OF assms(4)]
  by (auto simp: mvp_matrix_def glm_laws_def turned_def fl_of_word_exact Let_def algebra_simps)

lemma wallpaper_calls:
  fixes h :: "32 word"
  assumes "render_size (rotation_for orient w h) w h = (rw, rh)"
    and "wallpaper_ratios (\<lambda>x. x) wp rw rh = (Finite wr, Finite hr)"
  shows "uniform_matrix Wallpaper (draw_picture (\<lambda>x. x) gu orient wp fade dmask (w, h)) =
      GlmTimes (GlmOrtho (Finite (- wr)) (Finite wr) (Finite hr) (Finite (- hr)))
        (mvp_matrix (\<lambda>x. x) (rotation_for orient w h) rw rh)"
    "VertexPointer Wallpaper (strip (Finite (rat_of rw)) (Finite (rat_of rh))) \<in>
      set (draw_picture (\<lambda>x. x) gu orient wp fade dmask (w, h))"
  using assms
  by (simp_all add: draw_picture_def uniform_matrix_def map_filter_simps fl_of_word_exact fl_neg_def Let_def)

lemma wallpaper_act:
  fixes h :: "32 word"
  assumes laws: "glm_laws act" and size: "render_size (rotation_for orient w h) w h = (rw, rh)"
    and ratios: "wallpaper_ratios (\<lambda>x. x) wp rw rh = (Finite wr, Finite hr)"
    and pos: "0 < wr" "0 < hr" "0 < rw" "0 < rh"
  shows "act (uniform_matrix Wallpaper (draw_picture (\<lambda>x. x) gu orient wp fade dmask (w, h))) (X, Y) =
    (case turned (rotation_for orient w h) (2 * X / rat_of rw - 1, 2 * Y / rat_of rh - 1) of
       (x, y) \<Rightarrow> (x / wr, - y / hr))"
proof -
  have "act (GlmTimes m n) p = act m (act n p)" for m n p
    using laws unfolding glm_laws_def by blast
  moreover have "act (GlmOrtho (Finite (- wr)) (Finite wr) (Finite hr) (Finite (- hr))) p =
      (fst p / wr, - snd p / hr)" for p
  proof -
    have "- wr \<noteq> wr" "hr \<noteq> - hr" using pos by simp_all
    then have "act (GlmOrtho (Finite (- wr)) (Finite wr) (Finite hr) (Finite (- hr))) p =
        ((2 * fst p - (wr + - wr)) / (wr - - wr), (2 * snd p - (- hr + hr)) / (- hr - hr))"
      using laws unfolding glm_laws_def by blast
    then show ?thesis using pos by (simp add: field_simps)
  qed
  ultimately show ?thesis
    using mvp_matrix_act[OF laws rotation_cases[of orient w h] pos(3,4), of X Y]
    by (simp add: wallpaper_calls(1)[OF size ratios] split: prod.split)
qed

lemma render_size_pos:
  "render_size r w h = (rw, rh) \<Longrightarrow> 0 < w \<Longrightarrow> 0 < h \<Longrightarrow> 0 < rw \<and> 0 < rh"
  by (auto simp: render_size_def split: if_splits)

text \<open>Every point between -1 and 1 is hit by the rectangle.\<close>

lemma turned_onto:
  assumes "rotation \<in> {0, 90, 270}" "0 < (a :: rat)" "0 < b" "0 < wr" "wr \<le> 1" "0 < hr" "hr \<le> 1"
    and "\<bar>x\<bar> \<le> 1" "\<bar>y\<bar> \<le> 1"
  shows "\<exists>X Y. 0 \<le> X \<and> X \<le> a \<and> 0 \<le> Y \<and> Y \<le> b \<and>
    (case turned rotation (2 * X / a - 1, 2 * Y / b - 1) of (x, y) \<Rightarrow> (x / wr, - y / hr)) = (x, y)"
proof -
  have onto: "\<exists>X. 0 \<le> X \<and> X \<le> c \<and> 2 * X / c - 1 = u" if "0 < c" "\<bar>u\<bar> \<le> 1" for c u :: rat
  proof -
    have "0 \<le> (u + 1) * (c / 2)" "(u + 1) * (c / 2) \<le> 2 * (c / 2)"
      using that by (intro mult_nonneg_nonneg mult_right_mono; simp add: abs_le_iff)+
    with that show ?thesis by (intro exI[of _ "(u + 1) * (c / 2)"]) simp
  qed
  have small: "\<bar>z * q\<bar> \<le> 1" if "\<bar>z\<bar> \<le> 1" "0 < q" "q \<le> 1" for z q :: rat
    using that by (simp add: abs_mult mult_le_one)
  note xs = small[OF assms(8,4,5)] and ys = small[OF assms(9,6,7)]
  from assms(1) consider "rotation = 0" | "rotation = 90" | "rotation = 270" by blast
  then show ?thesis
  proof cases
    case 1
    from onto[OF assms(2) xs] onto[OF assms(3), of "- (y * hr)"] ys obtain X Y where
      "0 \<le> X" "X \<le> a" "0 \<le> Y" "Y \<le> b" "2 * X / a - 1 = x * wr" "2 * Y / b - 1 = - (y * hr)" by auto
    with 1 assms(4,6) show ?thesis by (intro exI[of _ X] exI[of _ Y]) (simp add: turned_def)
  next
    case 2
    from onto[OF assms(2), of "- (y * hr)"] onto[OF assms(3), of "- (x * wr)"] xs ys obtain X Y where
      "0 \<le> X" "X \<le> a" "0 \<le> Y" "Y \<le> b" "2 * X / a - 1 = - (y * hr)" "2 * Y / b - 1 = - (x * wr)" by auto
    with 2 assms(4,6) show ?thesis by (intro exI[of _ X] exI[of _ Y]) (simp add: turned_def)
  next
    case 3
    from onto[OF assms(2) ys] onto[OF assms(3) xs] obtain X Y where
      "0 \<le> X" "X \<le> a" "0 \<le> Y" "Y \<le> b" "2 * X / a - 1 = y * hr" "2 * Y / b - 1 = x * wr" by auto
    with 3 assms(4,6) show ?thesis by (intro exI[of _ X] exI[of _ Y]) (simp add: turned_def)
  qed
qed

text \<open>Lengths on a screen of \<open>w\<close> by \<open>h\<close> pixels.\<close>

definition screen_length :: "32 word \<Rightarrow> 32 word \<Rightarrow> rat \<times> rat \<Rightarrow> rat \<times> rat \<Rightarrow> rat" where
  "screen_length w h p q = \<bar>fst p - fst q\<bar> * rat_of w / 2 + \<bar>snd p - snd q\<bar> * rat_of h / 2"

definition upright :: "string \<Rightarrow> 32 word \<times> 32 word \<Rightarrow> bool" where
  "upright orient dims \<longleftrightarrow>
     (orient \<in> {''landscape'', ''inverted_landscape''} \<longrightarrow> snd dims \<le> fst dims) \<and>
     (orient \<in> {''portrait'', ''inverted_portrait''} \<longrightarrow> fst dims \<le> snd dims)"

lemma render_size_upright: "upright orient (render_size (rotation_for orient w h) w h)"
proof -
  consider "orient = ''landscape''" | "orient = ''inverted_landscape''" | "orient = ''portrait''"
    | "orient = ''inverted_portrait''"
    | "orient \<notin> {''landscape'', ''inverted_landscape'', ''portrait'', ''inverted_portrait''}" by blast
  then show ?thesis
    by cases (simp_all add: upright_def render_size_def rotation_for_def Let_def, (meson less_imp_le not_less)+)
qed

text \<open>The corner of the screen where the picture begins, and the way its first row runs from there, in
  the coordinates of OpenGL (the second one grows upwards). A device held across its display has the
  picture turned a quarter clockwise; held so the other way round, a quarter anticlockwise.\<close>

definition picture_start :: "string \<Rightarrow> 32 word \<Rightarrow> 32 word \<Rightarrow> (rat \<times> rat) \<times> (rat \<times> rat)" where
  "picture_start orient w h =
     (if orient = ''landscape'' \<and> w < h \<or> orient = ''portrait'' \<and> h < w then ((1, 1), (0, -1))
      else if orient = ''inverted_landscape'' \<and> w < h \<or> orient = ''inverted_portrait'' \<and> h < w
      then ((-1, -1), (0, 1))
      else ((-1, 1), (1, 0)))"

lemma rotation_start:
  "picture_start orient w h =
     (if rotation_for orient w h = 90 then ((1, 1), (0, -1))
      else if rotation_for orient w h = 270 then ((-1, -1), (0, 1)) else ((-1, 1), (1, 0)))"
  by (auto simp: picture_start_def rotation_for_def Let_def)

lemma picture_begins:
  fixes a b wr hr :: rat and r :: nat
  assumes "0 < a" "0 < b" "0 < wr" "0 < hr"
  defines "f \<equiv> \<lambda>X Y. case turned r (2 * X / a - 1, 2 * Y / b - 1) of (x, y) \<Rightarrow> (x / wr, - y / hr)"
  shows "(sgn (fst (f 0 0)), sgn (snd (f 0 0))) =
      (if r = 90 then (1, 1) else if r = 270 then (-1, -1) else (-1, 1)) \<and>
    (sgn (fst (f a 0) - fst (f 0 0)), sgn (snd (f a 0) - snd (f 0 0))) =
      (if r = 90 then (0, -1) else if r = 270 then (0, 1) else (1, 0))"
proof -
  have "f 0 0 = (if r = 90 then (1 / wr, 1 / hr) else if r = 270 then (- 1 / wr, - 1 / hr) else (- 1 / wr, 1 / hr))"
    "f a 0 = (if r = 90 then (1 / wr, - 1 / hr) else if r = 270 then (- 1 / wr, 1 / hr) else (1 / wr, 1 / hr))"
    using assms(1,2) by (simp_all add: f_def turned_def)
  then show ?thesis using assms(3,4) by (simp add: sgn_if)
qed

text \<open>The lengths of the wallpaper's sides.\<close>

lemma side_ratios:
  fixes W H wr hr pw ph :: rat
  assumes "0 < wr" "0 < hr" and eq: "wr * pw * H = hr * ph * W"
  shows "W / wr * ph = H / hr * pw" "W / hr * pw * H ^ 2 = H / wr * ph * W ^ 2"
proof -
  show "W / wr * ph = H / hr * pw" using assms by (simp add: field_simps)
  have "(W * pw * H ^ 2) * wr = (wr * pw * H) * (W * H)" by (simp add: power2_eq_square ac_simps)
  also have "\<dots> = (H * ph * W ^ 2) * hr" unfolding eq by (simp add: power2_eq_square ac_simps)
  finally have "(W * pw * H ^ 2) * wr = (H * ph * W ^ 2) * hr" .
  then have "(W * pw * H ^ 2) / hr = (H * ph * W ^ 2) / wr"
    using assms(1,2) by (intro iffD2[OF frac_eq_eq]) simp_all
  then show "W / hr * pw * H ^ 2 = H / wr * ph * W ^ 2" by (simp only: times_divide_eq_left)
qed

lemma wallpaper_sides:
  fixes h :: "32 word"
  assumes "render_size r w h = (rw, rh)" "r \<in> {0, 90, 270}"
    and "0 < w" "0 < h" "0 < wr" "0 < hr"
    and eq: "wr * pw * rat_of rh = hr * ph * rat_of rw"
  defines "f \<equiv> \<lambda>X Y. case turned r (2 * X / rat_of rw - 1, 2 * Y / rat_of rh - 1) of (x, y) \<Rightarrow> (x / wr, - y / hr)"
  defines "a \<equiv> screen_length w h (f 0 0) (f (rat_of rw) 0)" and "b \<equiv> screen_length w h (f 0 0) (f 0 (rat_of rh))"
  shows "(r = 0 \<longrightarrow> a * ph = b * pw) \<and> (r \<noteq> 0 \<longrightarrow> a * pw * rat_of rh ^ 2 = b * ph * rat_of rw ^ 2)"
proof -
  have pos: "0 < rat_of rw" "0 < rat_of rh"
    using render_size_pos[OF assms(1,3,4)] by (simp_all add: rat_of_pos)
  from assms(2) consider "r = 0" | "r = 90" | "r = 270" by blast
  then show ?thesis
  proof cases
    case 1
    then have "a = rat_of rw / wr" "b = rat_of rh / hr"
      using assms(1,5,6) pos by (simp_all add: a_def b_def f_def turned_def screen_length_def render_size_def)
    with 1 side_ratios(1)[OF assms(5,6) eq] show ?thesis by simp
  next
    case 2
    then have "a = rat_of rw / hr" "b = rat_of rh / wr"
      using assms(1,5,6) pos by (simp_all add: a_def b_def f_def turned_def screen_length_def render_size_def)
    with 2 side_ratios(2)[OF assms(5,6) eq] show ?thesis by simp
  next
    case 3
    then have "a = rat_of rw / hr" "b = rat_of rh / wr"
      using assms(1,5,6) pos by (simp_all add: a_def b_def f_def turned_def screen_length_def render_size_def)
    with 3 side_ratios(2)[OF assms(5,6) eq] show ?thesis by simp
  qed
qed

text \<open>
  C33. On a screen of any size and for any native orientation the picture is laid out the way the
  device is held: no wider than high on a portrait device, no higher than wide on a landscape one,
  and beginning in the corner, and running in the direction, that \<open>picture_start\<close> says: top left and
  rightwards when the display is mounted that way, top right and downwards when the device is held
  across it, bottom left and upwards when it is held across it the other way round. The wallpaper
  covers the whole screen, the picture's corners on the rectangle's (the shader moves the texture's
  coordinates by a half); unrotated it keeps its proportions, but rotated its sides are in the wrong
  proportion: their quotient is the one of the layout, squared, divided by the one of the picture.
\<close>

theorem wallpaper_fills_screen:
  fixes w h rw rh :: "32 word" and act :: "glm \<Rightarrow> rat \<times> rat \<Rightarrow> rat \<times> rat"
    and gu dmask :: int and fade :: rat
  assumes laws: "glm_laws act" and screen: "0 < w" "0 < h"
    and rotation: "r = rotation_for orient w h" and size: "render_size r w h = (rw, rh)"
    and picture: "0 < image_width wp" "0 < image_height wp"
    and no_wrap: "unat (image_width wp) * unat rh < 2 ^ 32"
  defines "cs \<equiv> draw_picture (\<lambda>x. x) gu orient wp fade dmask (w, h)"
  defines "place \<equiv> act (uniform_matrix Wallpaper cs)"
  defines "a \<equiv> screen_length w h (place (0, 0)) (place (rat_of rw, 0))"
    and "b \<equiv> screen_length w h (place (0, 0)) (place (0, rat_of rh))"
  shows "upright orient (rw, rh) \<and>
    ((sgn (fst (place (0, 0))), sgn (snd (place (0, 0)))),
       sgn (fst (place (rat_of rw, 0)) - fst (place (0, 0))), sgn (snd (place (rat_of rw, 0)) - snd (place (0, 0)))) =
      picture_start orient w h \<and>
    VertexPointer Wallpaper (strip (Finite (rat_of rw)) (Finite (rat_of rh))) \<in> set cs \<and>
    map (\<lambda>(u, v). (Finite ((u + 1 / 2) * rat_of rw), Finite ((v + 1 / 2) * rat_of rh))) tex_coords =
      strip (Finite (rat_of rw)) (Finite (rat_of rh)) \<and>
    (\<forall>x y. \<bar>x\<bar> \<le> 1 \<and> \<bar>y\<bar> \<le> 1 \<longrightarrow>
      (\<exists>X Y. 0 \<le> X \<and> X \<le> rat_of rw \<and> 0 \<le> Y \<and> Y \<le> rat_of rh \<and> place (X, Y) = (x, y))) \<and>
    (r = 0 \<longrightarrow> a * rat_of (image_height wp) = b * rat_of (image_width wp) \<and>
       fst (place (0, 0)) \<le> -1 \<and> 1 \<le> snd (place (0, 0))) \<and>
    (r \<noteq> 0 \<longrightarrow> a * rat_of (image_width wp) * rat_of rh ^ 2 = b * rat_of (image_height wp) * rat_of rw ^ 2)"
proof -
  have pos: "0 < rw" "0 < rh" using render_size_pos[OF size screen] by simp_all
  have r: "r \<in> {0, 90, 270}" using rotation_cases[of orient w h] by (simp only: rotation)
  obtain wr hr where ratios: "wallpaper_ratios (\<lambda>x. x) wp rw rh = (Finite wr, Finite hr)"
    and bounds: "0 < wr" "wr \<le> 1" "0 < hr" "hr \<le> 1"
    and eq: "wr * rat_of (image_width wp) * rat_of rh = hr * rat_of (image_height wp) * rat_of rw"
    using wallpaper_ratios_exact[OF picture pos no_wrap] by blast
  note size' = size[unfolded rotation]
  have place: "place (X, Y) =
      (case turned r (2 * X / rat_of rw - 1, 2 * Y / rat_of rh - 1) of (x, y) \<Rightarrow> (x / wr, - y / hr))" for X Y
    unfolding place_def cs_def rotation
    by (rule wallpaper_act[OF laws size' ratios bounds(1,3) pos])
  have "upright orient (rw, rh)" using render_size_upright[of orient w h] size' by simp
  moreover have "((sgn (fst (place (0, 0))), sgn (snd (place (0, 0)))),
       sgn (fst (place (rat_of rw, 0)) - fst (place (0, 0))), sgn (snd (place (rat_of rw, 0)) - snd (place (0, 0)))) =
      picture_start orient w h"
    unfolding place rotation_start rotation[symmetric]
    using picture_begins[OF rat_of_pos[OF pos(1)] rat_of_pos[OF pos(2)] bounds(1,3), of r] by simp
  moreover note wallpaper_calls(2)[OF size' ratios, of gu fade dmask, folded cs_def]
  moreover have "map (\<lambda>(u, v). (Finite ((u + 1 / 2) * rat_of rw), Finite ((v + 1 / 2) * rat_of rh))) tex_coords =
      strip (Finite (rat_of rw)) (Finite (rat_of rh))"
    by (simp add: tex_coords_def strip_def)
  moreover have "\<exists>X Y. 0 \<le> X \<and> X \<le> rat_of rw \<and> 0 \<le> Y \<and> Y \<le> rat_of rh \<and> place (X, Y) = (x, y)"
    if "\<bar>x\<bar> \<le> 1" "\<bar>y\<bar> \<le> 1" for x y
    unfolding place by (rule turned_onto[OF r rat_of_pos[OF pos(1)] rat_of_pos[OF pos(2)] bounds that])
  moreover have "(r = 0 \<longrightarrow> a * rat_of (image_height wp) = b * rat_of (image_width wp)) \<and>
      (r \<noteq> 0 \<longrightarrow> a * rat_of (image_width wp) * rat_of rh ^ 2 = b * rat_of (image_height wp) * rat_of rw ^ 2)"
    unfolding a_def b_def place by (rule wallpaper_sides[OF size r screen bounds(1,3) eq])
  moreover have "r = 0 \<longrightarrow> fst (place (0, 0)) \<le> -1 \<and> 1 \<le> snd (place (0, 0))"
    using bounds by (simp add: place turned_def)
  ultimately show ?thesis by blast
qed

text \<open>One reading of the transformations.\<close>

fun plane_act :: "glm \<Rightarrow> rat \<times> rat \<Rightarrow> rat \<times> rat" where
  "plane_act GlmIdentity p = p"
| "plane_act (GlmTimes m n) p = plane_act m (plane_act n p)"
| "plane_act (GlmTranslate m x y) p =
     (case (x, y) of (Finite x, Finite y) \<Rightarrow> plane_act m (fst p + x, snd p + y) | _ \<Rightarrow> p)"
| "plane_act (GlmScale m x y) p =
     (case (x, y) of (Finite x, Finite y) \<Rightarrow> plane_act m (fst p * x, snd p * y) | _ \<Rightarrow> p)"
| "plane_act (GlmRotate m r) p = plane_act m (turned r p)"
| "plane_act (GlmOrtho l r b t) p =
     (case (l, r, b, t) of
        (Finite l, Finite r, Finite b, Finite t) \<Rightarrow>
          ((2 * fst p - (r + l)) / (r - l), (2 * snd p - (t + b)) / (t - b))
      | _ \<Rightarrow> p)"

lemma plane_act_laws: "glm_laws plane_act"
  by (simp add: glm_laws_def turned_def)

text \<open>A wallpaper of 16 to 10 on a landscape tablet whose display is mounted upright.\<close>

theorem wallpaper_fills_screen_witness:
  "let wp = load_wallpaper (Some (2560, 1600, False));
       place = plane_act (uniform_matrix Wallpaper
         (draw_picture (\<lambda>x. x) 13 ''landscape'' wp 0 0 (1080, 1920)));
       a = screen_length 1080 1920 (place (0, 0)) (place (1920, 0));
       b = screen_length 1080 1920 (place (0, 0)) (place (0, 1080))
   in a * 2560 * 1080 ^ 2 = b * 1600 * 1920 ^ 2 \<and>
      sgn (fst (place (0, 0))) = 1 \<and> sgn (snd (place (0, 0))) = 1"
proof -
  let ?wp = "load_wallpaper (Some (2560, 1600, False))"
  have wp: "image_width ?wp = 2560" "image_height ?wp = 1600" by (simp_all add: load_wallpaper_def)
  have rot: "(90 :: nat) = rotation_for ''landscape'' 1080 1920" by (simp add: rotation_for_def)
  have start: "picture_start ''landscape'' 1080 1920 = ((1, 1), (0, -1))" by (simp add: picture_start_def)
  have nums: "rat_of 2560 = 2560" "rat_of 1600 = 1600" "rat_of 1920 = 1920" "rat_of 1080 = 1080"
    by (simp_all add: rat_of_def)
  show ?thesis
    using wallpaper_fills_screen[OF plane_act_laws _ _ rot, of 1920 1080 ?wp 13 0 0]
    by (simp add: wp nums start render_size_def Let_def)
qed

end
