(* ===== verification/Switcher_Race.thy ===== *)
theory Switcher_Race
  imports Switcher_Runs
begin

text \<open>
  The handler \<open>set_screen\<close> registers with the screen does not take the switcher's lock
  (\<open>src/session_switcher.cpp\<close>), so it can run in the middle of an entry point that holds it. The
  display manager's thread is started before the screen is built, so this can happen from the
  start-up on.
\<close>

section \<open>An entry point interrupted\<close>

text \<open>What \<open>update_displayed_sessions\<close> does once it has read the flag: \<open>tested\<close> is what it read.\<close>

definition resume :: "spinner_os \<Rightarrow> bool \<Rightarrow> switcher \<Rightarrow> switcher res" where
  "resume os tested s = (if \<not> tested then hide_all_sessions s else update_with_outputs os s)"

text \<open>\<open>set_active_session\<close> reads the flag, the handler runs on another thread, and it goes on.\<close>

definition set_active_interrupted ::
  "spinner_os \<Rightarrow> string \<Rightarrow> active_outputs \<Rightarrow> switcher \<Rightarrow> switcher res" where
  "set_active_interrupted os name ao s =
     (let s1 = s\<lparr>active_name := name\<rparr>; tested = has_active_outputs s1
      in bind_res (active_outputs_handler os ao s1) (resume os tested))"

lemma update_resume: "update_displayed_sessions os s = resume os (has_active_outputs s) s"
  by (simp add: update_displayed_sessions_def resume_def)

section \<open>What becomes of the active session\<close>

lemma planned_shows:
  "active_shown s \<Longrightarrow> active_shown (planned_state sp s)"
  "active_shown s \<Longrightarrow> active_shown ((planned_state sp s)\<lparr>has_active_outputs := b\<rparr>)"
  "active_shown (s\<lparr>has_active_outputs := b\<rparr>) = active_shown s"
  "active_shown (s\<lparr>active_name := n\<rparr>) \<Longrightarrow> active_shown ((planned_state sp (s\<lparr>has_active_outputs := b\<rparr>))\<lparr>active_name := n\<rparr>)"
  by (auto simp: active_shown_def planned_state_def is_session_ready_for_display_def split: option.splits)

lemma planned_tracked [simp]:
  "tracked (planned_state sp s) = tracked s"
  "tracked (s\<lparr>has_active_outputs := b\<rparr>) = tracked s"
  "tracked (s\<lparr>active_name := n\<rparr>) = tracked s"
  by (simp_all add: fun_eq_iff planned_state_def tracked_def)

lemma planned_active_visible:
  assumes "switcher_wf s" "active_shown s" "tracked s (active_name s) = Some us"
  shows "visible (calls (planned_state sp s)) us \<longleftrightarrow> has_active_outputs s"
  using plan_visibility[OF assms(1,3)] assms(2) by (auto simp: should_be_visible_def)

lemma handler_effect:
  assumes "switcher_wf s" "fork_result os \<noteq> 0"
  obtains sp where "active_outputs_handler os ao s = Inr (planned_state sp (s\<lparr>has_active_outputs := any_active ao\<rparr>))"
  using update_returns[of "s\<lparr>has_active_outputs := any_active ao\<rparr>" os] assms
  by (auto simp: active_outputs_handler_def)

text \<open>Going on after a test that said no output is on hides every session; after one that said
  some is on, the active session is shown.\<close>

lemma resume_hides:
  assumes "switcher_wf s" "tracked s n = Some us"
  shows "\<exists>r. resume os False s = Inr r \<and> has_active_outputs r = has_active_outputs s \<and>
    active_name r = active_name s \<and> \<not> visible (calls r) us"
  using hide_all_eq[OF assms(1)] hides_visibility[OF assms]
  by (simp add: resume_def visible_append)

lemma resume_shows:
  assumes "switcher_wf s" "fork_result os \<noteq> 0" "active_shown s" "tracked s (active_name s) = Some us"
  shows "\<exists>r. resume os True s = Inr r \<and> has_active_outputs r = has_active_outputs s \<and>
    active_name r = active_name s \<and> visible (calls r) us"
proof -
  let ?s = "s\<lparr>has_active_outputs := True\<rparr>"
  obtain sp where "spinner_update os ?s = Inr sp" using spinner_update_returns[OF assms(2)] .
  moreover have "visible (calls (planned_state sp ?s)) us"
    using planned_active_visible[of ?s us sp] assms by (simp add: planned_shows(3))
  ultimately show ?thesis
    using with_outputs_eq[OF assms(1), of os] by (simp add: resume_def planned_state_def)
qed

lemma update_shows:
  assumes "switcher_wf s" "fork_result os \<noteq> 0" "active_shown s" "tracked s (active_name s) = Some us"
  shows "\<exists>sp. update_displayed_sessions os s = Inr (planned_state sp s) \<and>
    (visible (calls (planned_state sp s)) us \<longleftrightarrow> has_active_outputs s)"
  using update_returns[OF assms(1,2)] planned_active_visible[OF assms(1,3,4)] by metis

lemma one_after_the_other:
  assumes wf: "switcher_wf s" and os: "fork_result os \<noteq> 0"
    and shown: "active_shown (s\<lparr>active_name := name\<rparr>)" and us: "tracked s name = Some us"
  shows "\<exists>r2 r3. bind_res (set_active_session os name s) (active_outputs_handler os ao) = Inr r2 \<and>
    (visible (calls r2) us \<longleftrightarrow> any_active ao) \<and>
    bind_res (active_outputs_handler os ao s) (set_active_session os name) = Inr r3 \<and>
    (visible (calls r3) us \<longleftrightarrow> any_active ao)"
proof -
  let ?s1 = "s\<lparr>active_name := name\<rparr>" and ?b = "any_active ao"
  have wf1: "switcher_wf ?s1" using wf by simp
  obtain sp where sp: "update_displayed_sessions os ?s1 = Inr (planned_state sp ?s1)"
    using update_returns[OF wf1 os] .
  obtain s4 where s4: "s4 = (planned_state sp ?s1)\<lparr>has_active_outputs := ?b\<rparr>" by blast
  then have f4: "switcher_wf s4" "active_shown s4" "tracked s4 (active_name s4) = Some us"
      "has_active_outputs s4 = ?b"
    using wf us planned_shows(2)[OF shown] by (simp_all, simp_all add: planned_state_def)
  obtain r2 where r2: "bind_res (set_active_session os name s) (active_outputs_handler os ao) = Inr r2"
    "visible (calls r2) us \<longleftrightarrow> ?b"
    using update_shows[OF f4(1) os f4(2,3)] f4(4)
    by (auto simp: set_active_session_def sp active_outputs_handler_def s4)
  obtain sp3 where sp3: "active_outputs_handler os ao s = Inr (planned_state sp3 (s\<lparr>has_active_outputs := ?b\<rparr>))"
    using handler_effect[OF wf os] .
  obtain s5 where s5: "s5 = (planned_state sp3 (s\<lparr>has_active_outputs := ?b\<rparr>))\<lparr>active_name := name\<rparr>" by blast
  then have f5: "switcher_wf s5" "active_shown s5" "tracked s5 (active_name s5) = Some us"
      "has_active_outputs s5 = ?b"
    using wf us planned_shows(4)[OF shown] by (simp_all, simp_all add: planned_state_def)
  obtain r3 where r3: "bind_res (active_outputs_handler os ao s) (set_active_session os name) = Inr r3"
    "visible (calls r3) us \<longleftrightarrow> ?b"
    using update_shows[OF f5(1) os f5(2,3)] f5(4) by (auto simp: sp3 set_active_session_def s5)
  show ?thesis using r2 r3 by blast
qed

text \<open>
  C36. The outputs go on or off while \<open>set_active_session\<close> is between reading whether any is on and
  acting on it. The call returns, the switcher knows the new state of the outputs, but the session
  made active is left visible exactly when no output is on, and hidden when one is; run one after
  the other, in either order, the two leave it visible exactly when one is.
\<close>

theorem unlocked_handler_leaves_wrong_display:
  assumes wf: "switcher_wf s" and os: "fork_result os \<noteq> 0"
    and flips: "has_active_outputs s \<noteq> any_active ao" and shown: "active_shown (s\<lparr>active_name := name\<rparr>)"
  shows "\<exists>us r1 r2 r3. tracked s name = Some us \<and>
    set_active_interrupted os name ao s = Inr r1 \<and>
    has_active_outputs r1 = any_active ao \<and> active_name r1 = name \<and>
    (visible (calls r1) us \<longleftrightarrow> \<not> any_active ao) \<and>
    bind_res (set_active_session os name s) (active_outputs_handler os ao) = Inr r2 \<and>
    (visible (calls r2) us \<longleftrightarrow> any_active ao) \<and>
    bind_res (active_outputs_handler os ao s) (set_active_session os name) = Inr r3 \<and>
    (visible (calls r3) us \<longleftrightarrow> any_active ao)"
proof -
  let ?s1 = "s\<lparr>active_name := name\<rparr>" and ?b = "any_active ao"
  have wf1: "switcher_wf ?s1" using wf by simp
  obtain us where us: "tracked s name = Some us" using active_shown_tracked[OF shown] by auto
  obtain sp1 where h1: "active_outputs_handler os ao ?s1 = Inr (planned_state sp1 (?s1\<lparr>has_active_outputs := ?b\<rparr>))"
    using handler_effect[OF wf1 os] .
  obtain s2 where s2: "s2 = planned_state sp1 (?s1\<lparr>has_active_outputs := ?b\<rparr>)" by blast
  then have fields: "switcher_wf s2" "active_shown s2" "tracked s2 name = Some us" "active_name s2 = name"
      "has_active_outputs s2 = ?b"
    using wf us planned_shows(1)[where s = "?s1\<lparr>has_active_outputs := ?b\<rparr>"] shown
    by (simp_all add: planned_shows(3), simp_all add: planned_state_def)
  have "\<exists>r1. resume os (has_active_outputs s) s2 = Inr r1 \<and> has_active_outputs r1 = ?b \<and>
      active_name r1 = name \<and> (visible (calls r1) us \<longleftrightarrow> \<not> ?b)"
    using resume_hides[OF fields(1,3), of os] resume_shows[OF fields(1) os fields(2)] fields flips
    by (cases ?b) auto
  then obtain r1 where r1: "set_active_interrupted os name ao s = Inr r1" "has_active_outputs r1 = ?b"
    "active_name r1 = name" "visible (calls r1) us \<longleftrightarrow> \<not> ?b"
    by (auto simp: set_active_interrupted_def h1 s2)
  show ?thesis using us r1 one_after_the_other[OF wf os shown us, of ao] by blast
qed

theorem unlocked_handler_leaves_wrong_display_witness:
  "\<exists>us r. set_active_interrupted \<lparr>fork_result = 7, exec_succeeds = True\<rparr> ''a'' no_active_outputs
       ((new_switcher (new_external_spinner '''' ''sock''))\<lparr>sessions := [(''a'',
          \<lparr>session = Some \<lparr>scene_session = \<lparr>scene_id = 1, scene_name = ''a'', process_id = 5\<rparr>\<rparr>, ready = True\<rparr>)]\<rparr>) =
     Inr r \<and> \<not> has_active_outputs r \<and> visible (calls r) us"
proof -
  let ?os = "\<lparr>fork_result = 7, exec_succeeds = True\<rparr>"
  let ?s = "(new_switcher (new_external_spinner '''' ''sock''))\<lparr>sessions := [(''a'',
    \<lparr>session = Some \<lparr>scene_session = \<lparr>scene_id = 1, scene_name = ''a'', process_id = 5\<rparr>\<rparr>, ready = True\<rparr>)]\<rparr>"
  have "switcher_wf ?s" "fork_result ?os \<noteq> 0" "has_active_outputs ?s \<noteq> any_active no_active_outputs"
    "active_shown (?s\<lparr>active_name := ''a''\<rparr>)"
    by (simp_all add: switcher_wf_def map_ordered_def new_switcher_def tracked_ok_def session_name_def any_active_def
        no_active_outputs_def active_shown_def is_session_ready_for_display_def)
  from unlocked_handler_leaves_wrong_display[OF this] show ?thesis
    by (simp add: any_active_def no_active_outputs_def) blast
qed

end
