(* ===== verification/Closing_Down.thy ===== *)
theory Closing_Down
  imports Loop_Thread Compositor_Interleaving "HOL-Library.Sublist"
begin

text \<open>
  The end of the compositor: \<open>usc::SystemCompositor\<close> has no destructor of its own, so its members
  (\<open>src/system_compositor.h\<close>) are destroyed from the last to the first, while Mir's threads, the
  display manager's and, until it is joined, the loop's still run. Several of the objects are known
  to others by address only: the display service to the screen, to the actions in the loop's queue
  and to the message filter. Here the order is shown to be one in which no such address is used
  after its object is gone.
\<close>

section \<open>The members\<close>

datatype member =
    ServerMember
  | DMConnectionMember
  | SpinnerMember
  | ScreenMember
  | ScreenEventHandlerMember
  | DisplayServiceMember
  | InputServiceMember
  | ThreadMember

text \<open>In the order of their declaration.\<close>

definition members :: "member list" where
  "members =
     [ServerMember, DMConnectionMember, SpinnerMember, ScreenMember, ScreenEventHandlerMember,
      DisplayServiceMember, InputServiceMember, ThreadMember]"

text \<open>The threads and the members not yet destroyed.\<close>

record 'm closing =
  threads_of :: "'m threads"
  left :: "member list"

text \<open>The destructors, as far as they touch the state the components share. Pointers to the screen,
  the spinner and the switcher are shared: the screen goes with its own member, the display service
  having been destroyed before; the switcher and the spinner with the server, when the switcher's
  pointer to the screen has expired. (\<open>main\<close> has a pointer to the server too, which it lets go next.)\<close>

fun destroy_member :: "nat \<Rightarrow> nat \<Rightarrow> member \<Rightarrow> 'm system \<Rightarrow> 'm system" where
  "destroy_member ks kd DisplayServiceMember sys = sys\<lparr>service_screen := destroy_display_service kd sys\<rparr>"
| "destroy_member ks kd ServerMember sys =
     (let sys1 = sys\<lparr>service_screen := destroy_switcher ks False (service_screen sys)\<rparr>; w = world_of sys1
      in set_world (w\<lparr>switcher_of := (switcher_of w)
           \<lparr>spinner_process := destroy_external_spinner (spinner_process (switcher_of w))\<rparr>\<rparr>) sys1)"
| "destroy_member ks kd _ sys = sys"

definition stop_loop :: "'m system \<Rightarrow> 'm system" where
  "stop_loop sys = set_world ((world_of sys)\<lparr>loop_of := stop (loop_of (world_of sys))\<rparr>) sys"

text \<open>Which events can still happen: those of the display manager while its connection is there, those
  of clients while the server is, display changes while there is a screen to report them to, and what
  the loop's thread does until it is joined.\<close>

fun runs_on :: "member list \<Rightarrow> 'm system_event \<Rightarrow> bool" where
  "runs_on ms (SessionEvent op) \<longleftrightarrow>
     (if naming (SessionEvent op :: 'm system_event) then DMConnectionMember \<in> set ms else ServerMember \<in> set ms)"
| "runs_on ms (DisplayObserved oe) \<longleftrightarrow> ScreenMember \<in> set ms"
| "runs_on ms (BusMessage env m) \<longleftrightarrow> ThreadMember \<in> set ms"
| "runs_on ms LoopActions \<longleftrightarrow> ThreadMember \<in> set ms"

text \<open>The destructor of the D-Bus thread stops the loop and joins the thread, which has by then
  performed what it took.\<close>

inductive closing_step ::
  "('m, 'd) libdbus \<Rightarrow> string \<Rightarrow> nat \<Rightarrow> nat \<Rightarrow> 'm closing \<Rightarrow> 'm closing \<Rightarrow> bool"
  for lib and "intro" and ks and kd where
  close_event: "runs_on (left c) ev \<Longrightarrow> event_ok (os, ev) \<Longrightarrow>
    thread_step lib intro (threads_of c) [(os, ev)] th \<Longrightarrow>
    closing_step lib intro ks kd c (c\<lparr>threads_of := th\<rparr>)"
| close_action: "thread_step lib intro (threads_of c) [] th \<Longrightarrow>
    closing_step lib intro ks kd c (c\<lparr>threads_of := th\<rparr>)"
| close_stop: "left c = ms @ [ThreadMember] \<Longrightarrow>
    closing_step lib intro ks kd c
      (c\<lparr>threads_of := (threads_of c)\<lparr>shared := stop_loop (shared (threads_of c))\<rparr>\<rparr>)"
| close_join: "left c = ms @ [ThreadMember] \<Longrightarrow> todo (threads_of c) = [] \<Longrightarrow>
    \<not> running (loop_of (world_of (shared (threads_of c)))) \<Longrightarrow>
    closing_step lib intro ks kd c (c\<lparr>left := ms\<rparr>)"
| close_member: "left c = ms @ [m] \<Longrightarrow> m \<noteq> ThreadMember \<Longrightarrow>
    closing_step lib intro ks kd c
      (c\<lparr>threads_of := (threads_of c)\<lparr>shared := destroy_member ks kd m (shared (threads_of c))\<rparr>, left := ms\<rparr>)"

section \<open>The invariant\<close>

text \<open>The screen once only the switcher listens to it.\<close>

definition alone :: "nat \<Rightarrow> 'm system \<Rightarrow> bool" where
  "alone ks sys \<longleftrightarrow>
     active_outputs_handlers (service_screen sys) = [(ks, switcher_handler)] \<and>
     switcher_wf (switcher_of (world_of sys)) \<and>
     has_active_outputs (switcher_of (world_of sys)) = any_active (active_outputs (service_screen sys))"

definition closing_inv :: "nat \<Rightarrow> nat \<Rightarrow> 'm closing \<Rightarrow> bool" where
  "closing_inv ks kd c \<longleftrightarrow> ks \<noteq> kd \<and> prefix (left c) members \<and>
     (ThreadMember \<notin> set (left c) \<longrightarrow> todo (threads_of c) = []) \<and>
     (if DisplayServiceMember \<in> set (left c) then system_inv ks kd (finish (threads_of c))
      else alone ks (shared (threads_of c))) \<and>
     (left c = [] \<longrightarrow>
        pid_of_spinner (spinner_process (switcher_of (world_of (shared (threads_of c))))) = 0)"

lemma member_order:
  assumes "prefix ms members"
  shows "ThreadMember \<in> set ms \<Longrightarrow> ms = members"
    and "ThreadMember \<in> set ms \<Longrightarrow> {DisplayServiceMember, InputServiceMember} \<subseteq> set ms"
    and "DisplayServiceMember \<in> set ms \<Longrightarrow> {ScreenMember, ServerMember} \<subseteq> set ms"
    and "ms = ns @ [m] \<Longrightarrow> DisplayServiceMember \<in> set ms \<Longrightarrow> m \<noteq> DisplayServiceMember \<Longrightarrow>
      DisplayServiceMember \<in> set ns"
    and "ms = ns @ [DisplayServiceMember] \<Longrightarrow> DisplayServiceMember \<notin> set ns \<and> ThreadMember \<notin> set ms"
    and "ms = ns @ [ServerMember] \<Longrightarrow> ns = []"
    and "ms = ns @ [m] \<Longrightarrow> m \<noteq> ThreadMember \<Longrightarrow> ThreadMember \<notin> set ms"
  using assms by (auto simp: members_def prefix_Cons Cons_eq_append_conv)

lemma members_set: "set members = UNIV"
proof -
  have "m \<in> set members" for m by (cases m) (simp_all add: members_def)
  then show ?thesis by blast
qed

section \<open>Steps keep it\<close>

lemma step_keeps_inv:
  assumes "system_inv ks kd sys" "ks \<noteq> kd" "event_ok x" "system_step lib intro x sys = Inr sys'"
  shows "system_inv ks kd sys'"
proof -
  note h = step_handles[OF assms(1-3)]
  have "event_ok (os_of (world_of (set_world ((world_of sys)\<lparr>os_of := fst x\<rparr>) sys)), snd x)"
    using assms(3) by (simp add: world_of_def set_world_def)
  with event_inv[of ks kd _ "snd x" lib "intro"] h(1) h(4)[OF assms(4)] show ?thesis by fastforce
qed

text \<open>Without the display service's handler only the switcher hears of a configuration.\<close>

lemma alone_applied:
  assumes "active_outputs_handlers scr = [(ks, switcher_handler)]"
    and "switcher_wf (switcher_of (listeners scr))" "fork_result (os_of (listeners scr)) \<noteq> 0"
  shows "\<exists>s'. switcher_wf s' \<and> has_active_outputs s' = any_active (count_active_outputs cfg) \<and>
    configuration_applied cfg scr =
      (scr\<lparr>active_outputs := count_active_outputs cfg, listeners := (listeners scr)\<lparr>switcher_of := s'\<rparr>\<rparr>, None)"
proof -
  obtain s' where s': "active_outputs_handler (os_of (listeners scr)) (count_active_outputs cfg)
      (switcher_of (listeners scr)) = Inr s'" "switcher_wf s'"
    using switcher.step_returns[OF assms(2), of
        "(os_of (listeners scr), ActiveOutputsChanged (count_active_outputs cfg))"] assms(3) by auto
  then show ?thesis
    using assms(1) has_active_handler[OF s'(1) assms(2,3)]
    by (intro exI[of _ s']) (simp add: configuration_applied_def call_handler_def switcher_handler_def Let_def)
qed

lemma alone_step:
  assumes sys: "alone ks sys" and other: "other_thread ev" and ok: "event_ok (os, ev)"
  shows "\<exists>sys'. system_step lib intro (os, ev) sys = Inr sys' \<and> alone ks sys'"
proof -
  obtain sys0 where sys0: "sys0 = set_world ((world_of sys)\<lparr>os_of := os\<rparr>) sys" by blast
  then have h: "active_outputs_handlers (service_screen sys0) = [(ks, switcher_handler)]"
    "switcher_wf (switcher_of (listeners (service_screen sys0)))"
    "fork_result (os_of (listeners (service_screen sys0))) \<noteq> 0" "alone ks sys0"
    using sys ok by (auto simp: alone_def world_of_def set_world_def event_ok_def)
  have "\<exists>sys'. handle_event lib intro ev sys0 = (sys', None) \<and> alone ks sys'"
  proof (cases ev)
    case (SessionEvent op)
    have op: "\<forall>ao. op \<noteq> ActiveOutputsChanged ao" using ok SessionEvent by (auto simp: event_ok_def)
    let ?os = "os_of (world_of sys0)" and ?s = "switcher_of (world_of sys0)"
    obtain s' where s': "switcher_step (?os, op) ?s = Inr s'" "switcher_wf s'"
      using switcher.step_returns[of ?s "(?os, op)"] h(2,3) by (auto simp: world_of_def)
    have "has_active_outputs s' = has_active_outputs ?s"
      using session_keeps_outputs[OF _ _ s'(1) op] h(2,3) by (simp add: world_of_def)
    with s' h(4) show ?thesis
      by (auto simp: SessionEvent Let_def alone_def set_world_def world_of_def)
  next
    case (DisplayObserved oe)
    from observe_cases[of oe "service_screen sys0"] show ?thesis
    proof (elim disjE exE)
      fix cfg
      assume "observe oe (service_screen sys0) = configuration_applied cfg (service_screen sys0)"
      with alone_applied[OF h(1-3), of cfg] h(4) show ?thesis
        by (auto simp: DisplayObserved on_screen_def alone_def world_of_def)
    next
      assume "observe oe (service_screen sys0) = (service_screen sys0, None)"
      with h(4) show ?thesis by (simp add: DisplayObserved on_screen_def)
    qed
  qed (use other in auto)
  then show ?thesis by (auto simp: system_step_def sys0)
qed

lemma inv_updates:
  assumes "system_inv ks kd sys"
  shows "performed l = performed (loop_of (world_of sys)) \<Longrightarrow> actions l = actions (loop_of (world_of sys)) \<Longrightarrow>
      system_inv ks kd (set_world ((world_of sys)\<lparr>loop_of := l\<rparr>) sys)"
    and "switcher_wf s \<Longrightarrow> has_active_outputs s = has_active_outputs (switcher_of (world_of sys)) \<Longrightarrow>
      system_inv ks kd (set_world ((world_of sys)\<lparr>switcher_of := s\<rparr>) sys)"
  using assms unfolding system_inv_def Let_def
  by (auto simp: set_world_def world_of_def simp del: last.simps)

lemma stop_keeps:
  "system_inv ks kd (finish th) \<Longrightarrow> system_inv ks kd (finish (th\<lparr>shared := stop_loop (shared th)\<rparr>))"
proof -
  assume inv: "system_inv ks kd (finish th)"
  have "finish (th\<lparr>shared := stop_loop (shared th)\<rparr>) = stop_loop (finish th)"
    unfolding finish_def perform_fields stop_loop_def
    by (auto simp: set_world_def world_of_def stop_def wake_up_loop_def
        intro!: display_service.equality mir_screen.equality world.equality event_loop.equality)
  moreover have "performed (stop l) = performed l" "actions (stop l) = actions l"
    for l :: "active_outputs event_loop"
    by (simp_all add: stop_def wake_up_loop_def performed_def)
  ultimately show ?thesis
    using inv_updates(1)[OF inv] by (simp add: stop_loop_def)
qed

lemma service_unregistered:
  assumes "system_inv ks kd sys" "ks \<noteq> kd"
  shows "alone ks (destroy_member ks kd DisplayServiceMember sys)"
  using assms
  by (auto simp: system_inv_def alone_def destroy_display_service_def unregister_active_outputs_handler_def
      listening_def world_of_def Let_def)

lemma other_members:
  "system_inv ks kd sys \<Longrightarrow> m \<noteq> DisplayServiceMember \<Longrightarrow> system_inv ks kd (destroy_member ks kd m sys)"
  "alone ks sys \<Longrightarrow> m \<noteq> DisplayServiceMember \<Longrightarrow> alone ks (destroy_member ks kd m sys)"
proof -
  have server: "destroy_member ks kd ServerMember sys = set_world ((world_of sys)\<lparr>switcher_of :=
      (switcher_of (world_of sys))\<lparr>spinner_process :=
         destroy_external_spinner (spinner_process (switcher_of (world_of sys)))\<rparr>\<rparr>) sys"
    by (simp add: destroy_switcher_def Let_def)
  show "system_inv ks kd sys \<Longrightarrow> m \<noteq> DisplayServiceMember \<Longrightarrow> system_inv ks kd (destroy_member ks kd m sys)"
  proof (cases m)
    case ServerMember
    assume inv: "system_inv ks kd sys"
    then have "switcher_wf (switcher_of (world_of sys))" by (simp add: system_inv_def Let_def)
    then show ?thesis unfolding ServerMember server by (intro inv_updates(2)[OF inv]) simp_all
  qed auto
  show "alone ks sys \<Longrightarrow> m \<noteq> DisplayServiceMember \<Longrightarrow> alone ks (destroy_member ks kd m sys)"
  proof (cases m)
    case ServerMember
    assume "alone ks sys"
    then show ?thesis unfolding ServerMember server by (simp add: alone_def set_world_def world_of_def)
  qed auto
qed

lemma other_keeps_todo:
  assumes "thread_step lib intro th [(os, ev)] th'" "ev \<noteq> LoopActions"
  shows "todo th' = todo th"
  using assms by (cases rule: thread_step.cases) auto

lemma thread_step_other:
  assumes "thread_step lib intro th [(os, ev)] th'" "other_thread ev"
  shows "system_step lib intro (os, ev) (shared th) = Inr (shared th')"
  using assms by (cases rule: thread_step.cases) auto

lemma action_finish: "thread_step lib intro th [] th' \<Longrightarrow> todo th \<noteq> [] \<and> finish th' = finish th"
  by (cases rule: thread_step.cases) (auto simp: finish_def)

lemma runs_other: "runs_on ms ev \<Longrightarrow> ThreadMember \<notin> set ms \<Longrightarrow> other_thread ev"
  by (cases ev) auto

section \<open>The closing keeps the invariant\<close>

lemma closing_event_keeps:
  assumes inv: "closing_inv ks kd c" and "runs_on (left c) ev" and ok: "event_ok (os, ev)"
    and step: "thread_step lib intro (threads_of c) [(os, ev)] th"
  shows "closing_inv ks kd (c\<lparr>threads_of := th\<rparr>)"
proof -
  have some: "left c \<noteq> []" using assms(2) by (cases ev) (auto split: if_splits)
  show ?thesis
  proof (cases "ThreadMember \<in> set (left c)")
    case True
    then have sys: "DisplayServiceMember \<in> set (left c)" "system_inv ks kd (finish (threads_of c))" "ks \<noteq> kd"
      using inv member_order(2)[of "left c"] by (auto simp: closing_inv_def)
    from step_refines[OF step sys(2,3)] ok
    have "system_step lib intro (os, ev) (finish (threads_of c)) = Inr (finish th)"
      by (auto simp: run_system_def split: sum.splits)
    from step_keeps_inv[OF sys(2,3) ok this] True sys(1) inv some show ?thesis
      by (auto simp: closing_inv_def)
  next
    case False
    then have other: "other_thread ev" "todo (threads_of c) = []"
      using assms(1,2) runs_other by (auto simp: closing_inv_def)
    note shared = thread_step_other[OF step other(1)]
    have todo: "todo th = []" using other_keeps_todo[OF step] other by (cases ev) auto
    show ?thesis
    proof (cases "DisplayServiceMember \<in> set (left c)")
      case True
      then have "system_inv ks kd (shared (threads_of c))" "ks \<noteq> kd"
        using inv other(2) by (auto simp: closing_inv_def finish_def)
      from step_keeps_inv[OF this ok shared] True inv todo False some show ?thesis
        by (auto simp: closing_inv_def finish_def)
    next
      case gone: False
      then have "alone ks (shared (threads_of c))" using inv by (simp add: closing_inv_def)
      from alone_step[OF this other(1) ok, of lib "intro"] shared
      have "alone ks (shared th)" by auto
      with gone inv todo some show ?thesis by (auto simp: closing_inv_def)
    qed
  qed
qed

lemma closing_member_keeps:
  assumes inv: "closing_inv ks kd c" and left: "left c = ms @ [m]" "m \<noteq> ThreadMember"
  shows "closing_inv ks kd
    (c\<lparr>threads_of := (threads_of c)\<lparr>shared := destroy_member ks kd m (shared (threads_of c))\<rparr>, left := ms\<rparr>)"
proof -
  have pre: "prefix (left c) members" "prefix ms members" "ks \<noteq> kd"
    using inv left(1) by (auto simp: closing_inv_def dest: append_prefixD)
  have last: "ms = [] \<longrightarrow>
      pid_of_spinner (spinner_process (switcher_of (world_of (destroy_member ks kd m sys)))) = 0" for sys
    using pre(1) left(1)
    by (auto simp: members_def prefix_Cons Cons_eq_append_conv destroy_switcher_def Let_def set_world_def
        world_of_def spinner_defs)
  have no_thread: "ThreadMember \<notin> set (left c)" "todo (threads_of c) = []"
    using member_order(7)[OF pre(1) left] inv by (auto simp: closing_inv_def)
  show ?thesis
  proof (cases "DisplayServiceMember \<in> set (left c)")
    case True
    then have sys: "system_inv ks kd (shared (threads_of c))"
      using inv no_thread by (auto simp: closing_inv_def finish_def)
    show ?thesis
    proof (cases "m = DisplayServiceMember")
      case True
      with member_order(5)[OF pre(1)] left service_unregistered[OF sys pre(3)] pre no_thread last
      show ?thesis by (auto simp: closing_inv_def simp del: destroy_member.simps)
    next
      case False
      with member_order(4)[OF pre(1) left(1) True] other_members(1)[OF sys] pre no_thread last
      show ?thesis by (auto simp: closing_inv_def finish_def simp del: destroy_member.simps)
    qed
  next
    case False
    then have "alone ks (shared (threads_of c))" "m \<noteq> DisplayServiceMember" "DisplayServiceMember \<notin> set ms"
      using inv left by (auto simp: closing_inv_def)
    with other_members(2) pre no_thread last show ?thesis
      by (auto simp: closing_inv_def simp del: destroy_member.simps)
  qed
qed

lemma closing_keeps:
  assumes "closing_step lib intro ks kd c c'" "closing_inv ks kd c"
  shows "closing_inv ks kd c'"
  using assms
proof (induction rule: closing_step.induct)
  case (close_event c ev os th)
  then show ?case using closing_event_keeps by blast
next
  case (close_action c th)
  note act = action_finish[OF close_action.hyps]
  then have "ThreadMember \<in> set (left c)" using act close_action.prems by (auto simp: closing_inv_def)
  with act close_action.prems member_order(2)[of "left c"] show ?case
    by (auto simp: closing_inv_def)
next
  case (close_stop c ms)
  then have "DisplayServiceMember \<in> set (left c)" "ThreadMember \<in> set (left c)"
    using member_order(2)[of "left c"] by (auto simp: closing_inv_def)
  with close_stop.prems stop_keeps show ?case by (auto simp: closing_inv_def)
next
  case (close_join c ms)
  then have pre: "prefix (left c) members" "left c = members"
    using member_order(1)[of "left c"] by (auto simp: closing_inv_def)
  have "prefix ms members" using pre(1) close_join.hyps(1) by (simp add: append_prefixD)
  note pre = pre(1) this pre(2)
  then have ms: "ms = butlast members" using close_join.hyps(1) by (metis butlast_snoc)
  then have "DisplayServiceMember \<in> set ms" "ThreadMember \<notin> set ms" "DisplayServiceMember \<in> set (left c)"
    by (simp_all add: members_def pre(3))
  with close_join pre show ?case by (auto simp: closing_inv_def)
next
  case (close_member c ms m)
  then show ?case using closing_member_keeps by blast
qed

lemma closing_run_keeps:
  "(closing_step lib intro ks kd)\<^sup>*\<^sup>* c c' \<Longrightarrow> closing_inv ks kd c \<Longrightarrow> closing_inv ks kd c'"
  by (induction rule: rtranclp_induct) (auto dest: closing_keeps)

section \<open>The closing can be completed\<close>

lemma actions_performed:
  "\<exists>c'. (closing_step lib intro ks kd)\<^sup>*\<^sup>* c c' \<and> left c' = left c \<and> todo (threads_of c') = []"
proof (induction "todo (threads_of c)" arbitrary: c)
  case Nil
  then show ?case by (intro exI[of _ c]) simp
next
  case (Cons a as)
  let ?th = "\<lparr>shared = perform_action a (shared (threads_of c)), todo = as\<rparr>"
  have "closing_step lib intro ks kd c (c\<lparr>threads_of := ?th\<rparr>)"
    using close_action[OF step_perform[of "threads_of c" a as]] Cons.hyps(2) by simp
  with Cons.hyps(1)[of "c\<lparr>threads_of := ?th\<rparr>"] show ?case
    by (auto intro: converse_rtranclp_into_rtranclp)
qed

lemma members_gone:
  assumes "ThreadMember \<notin> set (left c)"
  shows "\<exists>c'. (closing_step lib intro ks kd)\<^sup>*\<^sup>* c c' \<and> left c' = []"
  using assms
proof (induction "left c" arbitrary: c rule: rev_induct)
  case Nil
  then show ?case by (intro exI[of _ c]) simp
next
  case (snoc m ms)
  let ?th = "(threads_of c)\<lparr>shared := destroy_member ks kd m (shared (threads_of c))\<rparr>"
  have step: "closing_step lib intro ks kd c (c\<lparr>threads_of := ?th, left := ms\<rparr>)"
    using snoc.hyps(2)[symmetric] snoc.prems by (intro close_member) auto
  have "ThreadMember \<notin> set ms" using snoc.hyps(2)[symmetric] snoc.prems by simp
  with snoc.hyps(1)[of "c\<lparr>threads_of := ?th, left := ms\<rparr>"] step show ?case
    by (auto intro: converse_rtranclp_into_rtranclp simp del: destroy_member.simps)
qed

lemma closing_ends:
  assumes "prefix (left c) members"
  shows "\<exists>c'. (closing_step lib intro ks kd)\<^sup>*\<^sup>* c c' \<and> left c' = []"
proof (cases "ThreadMember \<in> set (left c)")
  case False
  then show ?thesis by (rule members_gone)
next
  case True
  then have all: "left c = members" using member_order(1)[OF assms] by blast
  obtain c1 where c1: "(closing_step lib intro ks kd)\<^sup>*\<^sup>* c c1" "left c1 = members" "todo (threads_of c1) = []"
    using actions_performed[of lib "intro" ks kd c] all by auto
  let ?c2 = "c1\<lparr>threads_of := (threads_of c1)\<lparr>shared := stop_loop (shared (threads_of c1))\<rparr>\<rparr>"
  have snoc: "members = butlast members @ [ThreadMember]" by (simp add: members_def)
  have stop: "closing_step lib intro ks kd c1 ?c2"
    using close_stop[of c1 "butlast members"] c1(2) snoc by simp
  have join: "closing_step lib intro ks kd ?c2 (?c2\<lparr>left := butlast members\<rparr>)"
    using c1 snoc
    by (intro close_join) (simp_all add: stop_loop_def set_world_def world_of_def stop_def wake_up_loop_def)
  have "ThreadMember \<notin> set (left (?c2\<lparr>left := butlast members\<rparr>))" by (simp add: members_def)
  from members_gone[OF this] obtain c3 where
    "(closing_step lib intro ks kd)\<^sup>*\<^sup>* (?c2\<lparr>left := butlast members\<rparr>) c3" "left c3 = []" by blast
  with c1(1) stop join show ?thesis
    by (meson rtranclp.rtrancl_into_rtrancl rtranclp_trans)
qed

section \<open>Nothing is used after it is gone\<close>

text \<open>Every event another thread can still raise is handled, whatever is left.\<close>

lemma closing_enabled:
  assumes inv: "closing_inv ks kd c" and ok: "event_ok (os, ev)" and runs: "runs_on (left c) ev"
    and free: "todo (threads_of c) = [] \<or> other_thread ev"
  shows "\<exists>th. thread_step lib intro (threads_of c) [(os, ev)] th"
proof (cases "DisplayServiceMember \<in> set (left c)")
  case True
  then have "system_wf (finish (threads_of c))"
    using inv unfolding system_wf_def closing_inv_def by (simp, blast)
  from thread_enabled[OF this ok free] show ?thesis .
next
  case False
  then have gone: "ThreadMember \<notin> set (left c)" "alone ks (shared (threads_of c))"
    using inv member_order(2)[of "left c"] by (auto simp: closing_inv_def)
  from runs_other[OF runs gone(1)] have "other_thread ev" .
  with alone_step[OF gone(2) this ok, of lib "intro"] show ?thesis using step_other by metis
qed

lemma closing_screen:
  assumes "closing_inv ks kd c"
  shows "active_outputs_handlers (service_screen (shared (threads_of c))) =
      (if DisplayServiceMember \<in> set (left c) then listening ks kd else [(ks, switcher_handler)])"
    and "has_active_outputs (switcher_of (world_of (shared (threads_of c)))) \<longleftrightarrow>
      any_active (active_outputs (service_screen (shared (threads_of c))))"
proof -
  consider (both) "DisplayServiceMember \<in> set (left c)" "system_inv ks kd (finish (threads_of c))"
    | (alone) "DisplayServiceMember \<notin> set (left c)" "alone ks (shared (threads_of c))"
    using assms by (auto simp: closing_inv_def split: if_splits)
  then have "active_outputs_handlers (service_screen (shared (threads_of c))) =
      (if DisplayServiceMember \<in> set (left c) then listening ks kd else [(ks, switcher_handler)]) \<and>
    (has_active_outputs (switcher_of (world_of (shared (threads_of c)))) \<longleftrightarrow>
      any_active (active_outputs (service_screen (shared (threads_of c)))))"
  proof cases
    case both
    with inv_finishing(1)[OF both(2)[unfolded finish_def]] inv_halfway[OF both(2)] show ?thesis by simp
  qed (simp add: alone_def)
  then show "active_outputs_handlers (service_screen (shared (threads_of c))) =
      (if DisplayServiceMember \<in> set (left c) then listening ks kd else [(ks, switcher_handler)])"
    and "has_active_outputs (switcher_of (world_of (shared (threads_of c)))) \<longleftrightarrow>
      any_active (active_outputs (service_screen (shared (threads_of c))))" by blast+
qed

text \<open>
  C22. From the start-up on the compositor may be destroyed at any moment, while Mir, the display
  manager and the loop go on. In every state this leads to: each event that can still be raised is
  handled, by a step that exists; actions are pending only while the display and the input service
  are there to receive them, and so is the loop's thread; of the callbacks registered with the screen
  the display service's is there exactly while the service is, the switcher's throughout; the
  switcher believes outputs are active exactly when the screen counts some; and the destruction can
  be carried to its end, where no boot spinner is left running.
\<close>

theorem closing_down_is_safe:
  assumes "the_screen env ks w = (scr, None)"
    and "new_display_service ans address a kd scr = Inr sys" and "ks \<noteq> kd"
    and "switcher_of w = new_switcher sp" and "fork_result (os_of w) \<noteq> 0"
    and "new_event_loop True (Some fd) True = Inr (loop_of w)"
    and run: "(closing_step lib intro ks kd)\<^sup>*\<^sup>* \<lparr>threads_of = \<lparr>shared = sys, todo = []\<rparr>, left = members\<rparr> c"
  shows "(\<forall>os ev. event_ok (os, ev) \<and> runs_on (left c) ev \<and> (todo (threads_of c) = [] \<or> other_thread ev) \<longrightarrow>
      (\<exists>th. thread_step lib intro (threads_of c) [(os, ev)] th)) \<and>
    (todo (threads_of c) \<noteq> [] \<or> ThreadMember \<in> set (left c) \<longrightarrow>
      {DisplayServiceMember, InputServiceMember} \<subseteq> set (left c)) \<and>
    active_outputs_handlers (service_screen (shared (threads_of c))) =
      (if DisplayServiceMember \<in> set (left c) then listening ks kd else [(ks, switcher_handler)]) \<and>
    (has_active_outputs (switcher_of (world_of (shared (threads_of c)))) \<longleftrightarrow>
      any_active (active_outputs (service_screen (shared (threads_of c))))) \<and>
    (\<exists>c'. (closing_step lib intro ks kd)\<^sup>*\<^sup>* c c' \<and> left c' = []) \<and>
    (left c = [] \<longrightarrow>
      pid_of_spinner (spinner_process (switcher_of (world_of (shared (threads_of c))))) = 0)"
proof -
  have "switcher_wf (switcher_of w)" using assms(4) by simp
  from started_inv[OF assms(1-3) this assms(5,6)]
  have "closing_inv ks kd \<lparr>threads_of = \<lparr>shared = sys, todo = []\<rparr>, left = members\<rparr>"
    using assms(3) members_set by (auto simp: closing_inv_def finish_def members_def)
  from closing_run_keeps[OF run this] have inv: "closing_inv ks kd c" .
  then have pre: "prefix (left c) members" and
    rest: "ThreadMember \<notin> set (left c) \<longrightarrow> todo (threads_of c) = []"
    "left c = [] \<longrightarrow> pid_of_spinner (spinner_process (switcher_of (world_of (shared (threads_of c))))) = 0"
    by (auto simp: closing_inv_def)
  have "\<forall>os ev. event_ok (os, ev) \<and> runs_on (left c) ev \<and> (todo (threads_of c) = [] \<or> other_thread ev) \<longrightarrow>
      (\<exists>th. thread_step lib intro (threads_of c) [(os, ev)] th)"
    using closing_enabled[OF inv] by blast
  moreover have "todo (threads_of c) \<noteq> [] \<or> ThreadMember \<in> set (left c) \<longrightarrow>
      {DisplayServiceMember, InputServiceMember} \<subseteq> set (left c)"
    using member_order(2)[OF pre] rest(1) by blast
  ultimately show ?thesis
    by (intro conjI closing_screen[OF inv] closing_ends[OF pre] rest(2))
qed

text \<open>The destructor of the thread asks the loop to stop while an action is pending.\<close>

theorem closing_down_is_safe_witness:
  "\<exists>c. (closing_step plain_libdbus '''' 1 2)\<^sup>*\<^sup>*
      \<lparr>threads_of = \<lparr>shared = demo_system, todo = []\<rparr>, left = members\<rparr> c \<and>
    todo (threads_of c) = [\<lparr>internal = 1, external = 1\<rparr>] \<and>
    {DisplayServiceMember, InputServiceMember} \<subseteq> set (left c) \<and>
    (\<exists>c'. (closing_step plain_libdbus '''' 1 2)\<^sup>*\<^sup>* c c' \<and> left c' = [])"
proof -
  let ?os = "os_of demo_world"
  let ?th = "\<lparr>shared = demo_system, todo = []\<rparr>"
  obtain s where s: "take_actions (set_world ((world_of (shared ?th))\<lparr>os_of := ?os\<rparr>) (shared ?th)) =
      ([\<lparr>internal = 1, external = 1\<rparr>], s)"
    by (simp add: take_actions_def swap_actions_def demo_system_def demo_world_def set_world_def
        world_of_def enqueue_def push_action_def wake_up_loop_def)
  let ?c = "\<lparr>threads_of = ?th, left = members\<rparr>"
  let ?c1 = "?c\<lparr>threads_of := \<lparr>shared = s, todo = [\<lparr>internal = 1, external = 1\<rparr>]\<rparr>\<rparr>"
  let ?c2 = "?c1\<lparr>threads_of := (threads_of ?c1)\<lparr>shared := stop_loop (shared (threads_of ?c1))\<rparr>\<rparr>"
  have ok: "event_ok (?os, LoopActions :: (string \<times> string \<times> string list) system_event)"
    by (simp add: event_ok_def demo_world_def)
  have step: "thread_step plain_libdbus '''' (threads_of ?c) [(?os, LoopActions)] (threads_of ?c1)"
    using step_take[OF _ s] by simp
  have "closing_step plain_libdbus '''' 1 2 ?c (?c\<lparr>threads_of := threads_of ?c1\<rparr>)"
    by (rule close_event[OF _ ok step]) (simp add: members_def)
  then have one: "closing_step plain_libdbus '''' 1 2 ?c ?c1" by simp
  have two: "closing_step plain_libdbus '''' 1 2 ?c1 ?c2"
    by (rule close_stop[of _ "butlast members"]) (simp add: members_def)
  have run: "(closing_step plain_libdbus '''' 1 2)\<^sup>*\<^sup>* ?c ?c2"
    using one two by (meson rtranclp.rtrancl_into_rtrancl rtranclp.rtrancl_refl)
  note safe = closing_down_is_safe[OF demo_starts _ demo_world_new run]
  have "todo (threads_of ?c2) = [\<lparr>internal = 1, external = 1\<rparr>]" by simp
  moreover from safe this have "{DisplayServiceMember, InputServiceMember} \<subseteq> set (left ?c2)"
    "\<exists>c'. (closing_step plain_libdbus '''' 1 2)\<^sup>*\<^sup>* ?c2 c' \<and> left c' = []" by fastforce+
  ultimately show ?thesis using run by blast
qed

end
