(* ===== verification/Spec2Isabelle.thy ===== *)
theory Spec2Isabelle
  imports Switcher_Props Mir_Screen_Props Dm_Props Dm_Shutdown Screen_Event_Props Display_Props
    Input_Props Input_Service Event_Loop_Props System_Props Bus_Props Compositor_Interleaving
    Loop_Thread Startup_Props Window_Manager Connection_Thread Spinner_Wallpaper
    Switcher_Race Closing_Down
begin

text \<open>
  \<^bold>\<open>The program.\<close> unity-system-compositor is the compositor at the bottom of a phone's or desktop's
  display: greeter and user sessions are its clients. A display manager tells it over two pipes
  which session is active and which comes next; the session switcher shows, hides, focuses and
  wakes the sessions accordingly and keeps a boot spinner running until the first of them is ready.
  Input events that mean activity, and the power and volume keys, go to other processes as D-Bus
  signals; other processes switch the outputs and configure mice and touchpads by D-Bus calls, all
  served by one event loop on a thread of its own. The boot spinner is a second program, a client of
  Mir that draws a wallpaper, a logo and a row of dots. Paths below are those of the repository.

  \<^bold>\<open>How the code is modelled.\<close> Every class is a record of the state its methods change (with the calls it
  makes on Mir, libdbus, the kernel, EGL and OpenGL recorded in order), every method a function from
  state to state. \<open>Prelude\<close> has the two result types: \<open>'a res\<close>, a fault or a value, where an exception
  leaves no state behind that anyone reads, and \<open>'s outcome\<close>, the state reached with the fault
  thrown, if any, where the source catches. What those libraries answer is an argument (records such
  as \<open>spinner_os\<close>, \<open>mir_env\<close>, \<open>bus_answers\<close>, \<open>libdbus\<close>, \<open>gl_answers\<close>), so a property holds
  whatever they answer unless it says otherwise. Integers are words or integers with their bounds
  where they can wrap; doubles are rationals with infinities and NaN, rounded by an argument. A method
  that holds its component's lock is one step; where the source gives up the lock or takes none (the
  event loop against the threads that queue actions) the steps interleave, as rules of inductive
  relations.

  \<^bold>\<open>The theories, from the bottom up.\<close>

  \<^item> \<open>Prelude\<close>: faults, results, sequencing, the contract \<open>guarded_component\<close> (guarded steps return and
    keep an invariant, hence so do runs). \<open>Std_Map\<close>: \<open>std::map\<close> as an ordered association list,
    interface \<open>key_store\<close>.
  \<^item> \<open>External_Spinner\<close>: src/external_spinner.cpp, interface \<open>spinner_service\<close>. \<open>Screen_Types\<close>: src/screen.h.
    \<open>Usc_Session\<close>: src/session_monitor.h and the wrapper of src/window_manager.cpp.
  \<^item> \<open>Session_Switcher\<close>: src/session_switcher.cpp. \<open>Switcher_Spec\<close>: which sessions ought to be
    visible, and in which order; \<open>Switcher_Runs\<close>: runs of its operations; \<open>Switcher_History\<close>: why a
    session is visible after a run, given the names and the replaced sessions collected along it;
    \<open>Switcher_Props\<close>: the switcher never faults, does what the specification says, shows exactly
    what is wanted, focuses the active session, and starts and stops the spinner's process. \<open>Switcher_Race\<close>: the one entry point that
    takes no lock, run in the middle of another.
  \<^item> \<open>Mir_Screen\<close>: src/mir_screen.cpp, with Mir's reports of display changes. \<open>Mir_Screen_Props\<close>: the
    counts, the calls made on Mir, who hears of them, and what stays behind when Mir throws.
  \<^item> \<open>Dm_Connection\<close>: src/asio_dm_connection.cpp. \<open>Dm_Protocol\<close>: the protocol as a specification,
    interface \<open>framed_codec\<close>. \<open>Dm_Props\<close>: the connection implements it on every byte stream.
    \<open>Dm_Shutdown\<close>: its thread handler by handler, and the destructor that stops it between two.
  \<^item> \<open>Screen_Event_Handler\<close>, \<open>Screen_Event_Props\<close>: src/screen_event_handler.cpp, interface
    \<open>rate_limited\<close>; bounds on how often and how late activity is reported.
  \<^item> \<open>Dbus_Types\<close>: what is exchanged with libdbus. \<open>Display_Service\<close>, \<open>Display_Props\<close>:
    src/unity_display_service.cpp. \<open>Input_Configuration\<close>, \<open>Input_Props\<close>:
    src/mir_input_configuration.cpp, interface \<open>device_group\<close>. \<open>Input_Service\<close>:
    src/unity_input_service.cpp. \<open>Dbus_Interfaces\<close>: the signatures the files
    src/com.canonical.Unity.Display.xml and its siblings declare, and which value has which type of
    the bus, an inductive relation.
  \<^item> \<open>Event_Loop\<close>, \<open>Event_Loop_Props\<close>: src/dbus_event_loop.cpp, sequentially and interleaved.
    \<open>Dbus_Handles\<close>: src/dbus_message_handle.cpp, src/dbus_connection_handle.cpp and the event sinks
    src/unity_power_button_event_sink.cpp and src/unity_user_activity_event_sink.cpp.
    \<open>Connection_Thread\<close>: src/dbus_connection_thread.cpp, src/thread_name.cpp, the loop's end.
  \<^item> \<open>Compositor_System\<close>, \<open>System_Props\<close>: switcher, screen, display service and event loop put together
    as src/server.cpp does, from start-up through any sequence of events. \<open>Bus_Props\<close>: whatever they
    and the sinks send conforms to the declared interfaces, every declared call is answered, and
    the power key reaches the bus. \<open>Loop_Thread\<close>: the loop performs its actions one by one while the
    other threads run, an inductive step relation that refines the one with atomic turns.
    \<open>Closing_Down\<close>: the members of src/system_compositor.h destroyed one by one while the threads run.
  \<^item> \<open>Server\<close>: src/server.cpp, src/display_configuration_policy.cpp (options, what the constructor gives
    to Mir, what is built from what, built once).
    \<open>System_Compositor\<close>: src/system_compositor.cpp and src/main.cpp. \<open>Startup_Props\<close>: start-up is a
    plan fixed by options and environment, and its order is safe.
  \<^item> \<open>Window_Manager\<close>: src/window_manager.cpp and the display manager's calls, driving the switcher.
    \<open>Compositor_Interleaving\<close>: those calls come from a thread of their own; interface \<open>unwinding\<close>
    (inputs that leave a view unchanged can be left out of a run), interpreted on the whole
    compositor with the calls as the inputs and all but the choice of sessions as the view.
  \<^item> \<open>Spinner_Config\<close>: the configuration file of spinner/eglspinner.cpp. \<open>Spinner_Gl\<close>: what it draws.
    \<open>Spinner_App\<close>: spinner/eglapp.cpp and spinner/miregl.cpp. \<open>Spinner_Main\<close>: the program.
    \<open>Spinner_Props\<close>: command line, windows, dots. \<open>Spinner_Picture\<close>: a whole run.
    \<open>Spinner_Wallpaper\<close>: where the wallpaper ends up.

  \<^bold>\<open>Properties.\<close> They are the theorems with a number C1, C2 and so on in the text before them, in the order
  of their importance, each with an instance on concrete values where it has hypotheses. Refinement:
  C2 (display plan), C3 (bus clients see the screen's counts), C5 (the loop's turns may be taken as
  single steps), C7 (display manager protocol), C8 (start-up plan). Equivalence: C4 (the display
  manager's calls may fall anywhere between the other events), C29. Types: C12 and C16 (what goes over
  the bus). Safety and invariants: C1, C6, C9, C10, C13, C15, C17, C18, C21, C22 (the compositor's
  destruction), C26, C28. Termination and progress: C7 (reading ends with the stream), C20, C22, C24,
  C32. Round trips: C19, C27, C30, C31. Bounds: C23, C35. Effects of single operations: C11, C14, C25,
  C34. Errors and what goes wrong: C33 (a rotated wallpaper is stretched along the wrong axis),
  C36 (the race in the switcher), C37 to C40.

  \<^bold>\<open>Bounds.\<close> No definition needs fuel: recursion is structural, by a measure (the spinner's
  command line), or, for the display manager's reading loop, by \<open>partial_function\<close> with a proof that
  it returns on every stream. The animation's property bounds rounding by an argument \<open>eps\<close>; the wallpaper's
  is in exact arithmetic, for sizes whose product fits 32 bits (the code's product wraps).

  \<^bold>\<open>Not modelled.\<close> Mir itself, libdbus, libandroid-properties, boost's option parser, regular
  expressions, gdk-pixbuf, OpenGL and glm beyond the calls made on them; the header with the D-Bus
  introspection text, an argument here, and the picture headers, which the build generates; diagnostics printed to the standard
  streams; memory ownership beyond the libdbus messages and the handles named in the findings;
  forwarding constructors; exceptions of the server's constructor, of which \<open>main\<close> reports the
  status; a failing write to the event loop's own pipe (\<open>wake_up_loop\<close> always succeeds here, on a pipe
  without a limit); bytes the display manager's connection has read in part when it is
  destroyed; the tests, the build files and the Debian packaging. Of the data races the locks do not exclude one
  is modelled (\<open>Switcher_Race\<close>); the others are described with the project's findings. Where C++ leaves the order of evaluation
  of a constructor's arguments open, the model takes them from left to right (\<open>Server\<close>).
\<close>

end
